theory Spec2Isabelle
  imports Main "HOL-Library.Word" "HOL-Library.AList" "HOL-Library.Multiset"
begin

section \<open>JavaScript values\<close>

text \<open>
  A JavaScript string is a sequence of 16-bit code units. String literals of the source
  are written \<open>lit ''...''\<close>.
\<close>

type_synonym jsstring = "16 word list"

definition lit :: "string \<Rightarrow> jsstring" where
  "lit s = map of_char s"

text \<open>
  \<open>String.prototype.trim\<close> removes the ECMAScript \<open>WhiteSpace\<close> and \<open>LineTerminator\<close>
  code units from both ends: TAB, LF, VT, FF, CR, SP, NBSP, U+1680, U+2000..U+200A, U+2028,
  U+2029, U+202F, U+205F, U+3000 and U+FEFF.
\<close>

definition isWhiteSpace :: "16 word \<Rightarrow> bool" where
  "isWhiteSpace c \<longleftrightarrow>
     c = 0x09 \<or> c = 0x0A \<or> c = 0x0B \<or> c = 0x0C \<or> c = 0x0D \<or> c = 0x20 \<or> c = 0xA0 \<or>
     c = 0x1680 \<or> (0x2000 \<le> c \<and> c \<le> 0x200A) \<or> c = 0x2028 \<or> c = 0x2029 \<or>
     c = 0x202F \<or> c = 0x205F \<or> c = 0x3000 \<or> c = 0xFEFF"

definition trim :: "jsstring \<Rightarrow> jsstring" where
  "trim s = rev (dropWhile isWhiteSpace (rev (dropWhile isWhiteSpace s)))"

text \<open>
  The values that \<open>JSON.parse\<close> produces, and \<open>undefined\<close> for an absent property. Numbers
  are the integers (\<open>JNum n\<close> is the double with the value \<open>n\<close>); fractions, \<open>NaN\<close> and the
  infinities are outside the model. An object is the association list of its properties.
\<close>

datatype jsval =
    JUndefined
  | JNull
  | JBool bool
  | JNum int
  | JStr jsstring
  | JArr "jsval list"
  | JObj "(jsstring \<times> jsval) list"

text \<open>\<open>ToBoolean\<close>: what \<open>!x\<close>, \<open>x || y\<close> and \<open>Boolean(x)\<close> test.\<close>

fun truthy :: "jsval \<Rightarrow> bool" where
  "truthy JUndefined = False"
| "truthy JNull = False"
| "truthy (JBool b) = b"
| "truthy (JNum n) = (n \<noteq> 0)"
| "truthy (JStr s) = (s \<noteq> [])"
| "truthy (JArr xs) = True"
| "truthy (JObj kvs) = True"

text \<open>
  Reading a property \<open>v.k\<close> of a value that is neither \<open>null\<close> nor \<open>undefined\<close>, for the
  property names the source reads (none of them is a built-in property of a string, a
  number, a boolean or an array, where the result is therefore \<open>undefined\<close>).
\<close>

fun get_prop :: "jsval \<Rightarrow> jsstring \<Rightarrow> jsval" where
  "get_prop (JObj kvs) k = (case map_of kvs k of None \<Rightarrow> JUndefined | Some v \<Rightarrow> v)"
| "get_prop v k = JUndefined"

text \<open>
  A \<open>Set\<close> iterates in insertion order, so it is the list of its elements in that order;
  \<open>add\<close> of an element already present changes nothing. \<open>new_Set xs\<close> is \<open>new Set(xs)\<close>,
  read back by \<open>Array.from\<close>.
\<close>

definition Set_add :: "'a list \<Rightarrow> 'a \<Rightarrow> 'a list" where
  "Set_add accepted x = (if x \<in> set accepted then accepted else accepted @ [x])"

definition new_Set :: "'a list \<Rightarrow> 'a list" where
  "new_Set xs = foldl Set_add [] xs"

text \<open>
  \<open>Array.prototype.sort\<close> with a comparator: the sort is stable (ECMAScript 2019), and
  \<open>a\<close> stays before \<open>b\<close> unless \<open>compareFn(a, b) > 0\<close>. For a comparator that is a
  consistent ordering every stable sort returns this list.
\<close>

fun insert_by :: "('a \<Rightarrow> 'a \<Rightarrow> int) \<Rightarrow> 'a \<Rightarrow> 'a list \<Rightarrow> 'a list" where
  "insert_by compareFn a [] = [a]"
| "insert_by compareFn a (b # bs) =
     (if compareFn a b \<le> 0 then a # b # bs else b # insert_by compareFn a bs)"

definition js_sort :: "('a \<Rightarrow> 'a \<Rightarrow> int) \<Rightarrow> 'a list \<Rightarrow> 'a list" where
  "js_sort compareFn xs = foldr (insert_by compareFn) xs []"

section \<open>The slug deduplication helper\<close>

text \<open>
  \<^verbatim>\<open>
  function dedupeSlugs(slugs) {
    const clean = Array.isArray(slugs) ? slugs : [];
    return Array.from(new Set(clean.map(slug => String(slug || '').trim()).filter(Boolean)));
  }
  \<close>
  A slug-like value is a string, or \<open>null\<close>/\<open>undefined\<close> (\<open>None\<close>); on a string \<open>String\<close> is
  the identity. The argument is \<open>None\<close> when it is not an array.
\<close>

definition slug_or_empty :: "jsstring option \<Rightarrow> jsstring" where
  "slug_or_empty slug = (case slug of None \<Rightarrow> [] | Some s \<Rightarrow> (if s \<noteq> [] then s else []))"

definition dedupeSlugs :: "jsstring option list option \<Rightarrow> jsstring list" where
  "dedupeSlugs slugs =
     (let clean = (case slugs of Some xs \<Rightarrow> xs | None \<Rightarrow> [])
      in new_Set (filter (\<lambda>s. s \<noteq> []) (map (\<lambda>slug. trim (slug_or_empty slug)) clean)))"

section \<open>Upstream responses and errors\<close>

text \<open>
  What \<open>fetch\<close> resolves to: the status code and the body, which either fails to parse as
  JSON (\<open>Malformed\<close>, with the text; the empty text is such a body) or parses to a value
  (\<open>Wellformed\<close>; then the text is not empty). \<open>None\<close> for a response stands for a \<open>fetch\<close>
  that is rejected, or whose body cannot be read: the source throws before it looks at
  anything else.
\<close>

datatype 'j body_text = Malformed jsstring | Wellformed 'j

record 'j response =
  status :: nat
  raw :: "'j body_text"

definition ok :: "'j response \<Rightarrow> bool" where
  "ok response \<longleftrightarrow> 200 \<le> status response \<and> status response \<le> 299"

text \<open>
  The exceptions of the source: a rejected \<open>fetch\<close>, the three \<open>Error\<close>s of
  \<open>graphqlRequest\<close> (the last one with the value handed to \<open>new Error\<close>), the \<open>Error\<close> of the
  public API fetcher, the \<open>SyntaxError\<close> of \<open>response.json()\<close>, the \<open>TypeError\<close> of
  destructuring \<open>null\<close> or \<open>undefined\<close> and of converting an object with no usable
  \<open>toString\<close> to a string, and the \<open>URIError\<close> of \<open>encodeURIComponent\<close>.
\<close>

datatype error =
    FetchRejected
  | GraphQLNonJSON nat
  | GraphQLRequestFailed nat
  | GraphQLReturnedErrors jsval
  | PublicApiFailed nat
  | JSONSyntaxError
  | TypeError
  | URIError

text \<open>
  The parsed GraphQL body as the source reads it: \<open>json?.errors\<close> as a value and
  \<open>json?.data\<close>, which the schema of the query types; \<open>None\<close> is a \<open>data\<close> that is absent,
  \<open>null\<close> or otherwise falsy, which the source replaces by \<open>{}\<close>. A body that is not an
  object (\<open>null\<close>, say) reads as \<open>errors = JUndefined\<close>, \<open>data = None\<close>.
\<close>

record 'd gql_json =
  errors :: jsval
  data :: "'d option"

text \<open>
  The requests sent: the three GraphQL queries with their variables (\<open>offset\<close>, \<open>limit\<close>,
  \<open>username\<close>), and the GET of the public API with \<open>username\<close>, \<open>offset\<close> and \<open>limit\<close>. Every
  function returns the list of the requests it sent, in order, beside its result.
\<close>

datatype gql_query =
    RecentSubmissionList jsval
  | RecentAcSubmissionList jsval
  | SubmissionList nat nat jsval

datatype call = GraphQLCall gql_query | PublicApiCall jsval nat nat

section \<open>graphqlRequest\<close>

text \<open>
  \<^verbatim>\<open>
  const raw = await response.text();
  let json;
  try { json = raw ? JSON.parse(raw) : {}; }
  catch { throw new Error(`LeetCode GraphQL returned non-JSON response (${response.status})`); }
  if (!response.ok) throw new Error(`LeetCode GraphQL request failed (${response.status})`);
  if (Array.isArray(json?.errors) && json.errors.length > 0)
    throw new Error(json.errors[0]?.message || 'LeetCode GraphQL returned errors');
  return json?.data || {};
  \<close>
  The result \<open>None\<close> is the empty object \<open>{}\<close>.
\<close>

definition first_error_message :: "jsval \<Rightarrow> jsval" where
  "first_error_message e =
     (let message = get_prop e (lit ''message'')
      in if truthy message then message else JStr (lit ''LeetCode GraphQL returned errors''))"

definition graphqlRequest ::
  "(gql_query \<Rightarrow> 'd gql_json response option) \<Rightarrow> gql_query \<Rightarrow> call list \<times> (error + 'd option)"
where
  "graphqlRequest fetch payload =
     ([GraphQLCall payload],
      (case fetch payload of
         None \<Rightarrow> Inl FetchRejected
       | Some response \<Rightarrow>
           (case (case raw response of
                    Malformed t \<Rightarrow>
                      if t \<noteq> [] then None else Some \<lparr>errors = JUndefined, data = None\<rparr>
                  | Wellformed parsed \<Rightarrow> Some parsed) of
              None \<Rightarrow> Inl (GraphQLNonJSON (status response))
            | Some json \<Rightarrow>
                if \<not> ok response then Inl (GraphQLRequestFailed (status response))
                else (case errors json of
                        JArr (e # es) \<Rightarrow> Inl (GraphQLReturnedErrors (first_error_message e))
                      | _ \<Rightarrow> Inr (data json)))))"

text \<open>
  The helper of \<open>src/api/fetchSolved.js\<close>:
  \<^verbatim>\<open>
  const json = await response.json();
  if (!response.ok) throw new Error(`LeetCode GraphQL request failed (${response.status})`);
  if (json?.errors?.length)
    throw new Error(json.errors[0]?.message || 'LeetCode GraphQL returned errors');
  return json?.data || {};
  \<close>
\<close>

fun js_length :: "jsval \<Rightarrow> jsval" where
  "js_length (JArr xs) = JNum (int (length xs))"
| "js_length (JStr s) = JNum (int (length s))"
| "js_length (JObj kvs) = get_prop (JObj kvs) (lit ''length'')"
| "js_length v = JUndefined"

fun js_first :: "jsval \<Rightarrow> jsval" where
  "js_first (JArr (x # xs)) = x"
| "js_first (JStr (c # cs)) = JStr [c]"
| "js_first (JObj kvs) = get_prop (JObj kvs) (lit ''0'')"
| "js_first v = JUndefined"

definition graphqlRequest_api ::
  "(gql_query \<Rightarrow> 'd gql_json response option) \<Rightarrow> gql_query \<Rightarrow> call list \<times> (error + 'd option)"
where
  "graphqlRequest_api fetch payload =
     ([GraphQLCall payload],
      (case fetch payload of
         None \<Rightarrow> Inl FetchRejected
       | Some response \<Rightarrow>
           (case raw response of
              Malformed t \<Rightarrow> Inl JSONSyntaxError
            | Wellformed json \<Rightarrow>
                if \<not> ok response then Inl (GraphQLRequestFailed (status response))
                else if truthy (js_length (errors json))
                  then Inl (GraphQLReturnedErrors (first_error_message (js_first (errors json))))
                else Inr (data json))))"

section \<open>The recent-submissions fetcher\<close>

text \<open>
  An entry of the upstream list is \<open>None\<close> when it is \<open>null\<close>. The schema types its fields:
  \<open>titleSlug\<close> is a string or \<open>null\<close>, so that \<open>String(item.titleSlug)\<close> is the string itself;
  \<open>timestamp\<close> is an integer of any size, sent as a number or as its decimal string, or
  \<open>null\<close>. \<open>title\<close> is only tested and copied, so it is any value.

  \<open>Number\<close> (and \<open>JSON.parse\<close> before it, for a timestamp sent as a number) reads an integer
  as the nearest double, a tie going to the even significand of 53 bits, and as \<open>Infinity\<close>
  from \<open>2^1024 - 2^970\<close> on (the rounding is exact, as that of Node's engine is for a
  literal of any length). A JavaScript number that is an integer or an infinity is
  modelled by its value, with \<open>2^1024\<close> for \<open>Infinity\<close> and \<open>- 2^1024\<close> for \<open>-Infinity\<close>, which
  no double equals: the order of these numbers is the order of the integers. The
  \<open>timestamp\<close> of a stored record is such a number. \<open>excess_bits n\<close> is the number of bits
  of \<open>n\<close> beyond 53.
\<close>

record recent_item =
  item_title :: jsval
  item_titleSlug :: "jsstring option"
  item_timestamp :: "int option"

record submission =
  title :: jsval
  titleSlug :: jsstring
  timestamp :: int

record recent_data =
  recentSubmissionList :: "recent_item option list option"

record recentAc_data =
  recentAcSubmissionList :: "recent_item option list option"

function excess_bits :: "int \<Rightarrow> nat" where
  "excess_bits n = (if n < 2 ^ 53 then 0 else Suc (excess_bits (n div 2)))"
  by pat_completeness auto
termination
  by (relation "measure nat") auto

declare excess_bits.simps [simp del]

definition round_to_double :: "int \<Rightarrow> int" where
  "round_to_double n =
     (if n < 2 ^ 53 then n
      else
        let k = excess_bits n;
            q = n div 2 ^ k;
            r = n mod 2 ^ k
        in (if 2 * r > 2 ^ k \<or> (2 * r = 2 ^ k \<and> odd q) then q + 1 else q) * 2 ^ k)"

definition Number_of_int :: "int \<Rightarrow> int" where
  "Number_of_int n =
     (if n < 0 then - min (round_to_double (- n)) (2 ^ 1024)
      else min (round_to_double n) (2 ^ 1024))"

text \<open>
  \<open>Number(item.timestamp || 0)\<close>: 0 for \<open>null\<close>, and the number that \<open>Number\<close> reads otherwise
  (for the integer 0, which is falsy, that is 0 as well).
\<close>

definition Number_or_0 :: "int option \<Rightarrow> int" where
  "Number_or_0 t = (case t of None \<Rightarrow> 0 | Some n \<Rightarrow> Number_of_int n)"

text \<open>
  The callback of \<open>list.forEach\<close>, on the \<open>Map\<close> it fills. A \<open>Map\<close> iterates in the order in
  which its keys were first set, and \<open>set\<close> on a key already present replaces the value in
  place: the association list with \<^const>\<open>AList.update\<close>. The stored \<open>timestamp\<close> is
  the number that \<open>Number\<close> read, so that \<open>Number(existing.timestamp || 0)\<close> is
  \<open>existing.timestamp\<close> itself, and \<open>>\<close> compares two numbers.
  \<^verbatim>\<open>
  if (!item?.titleSlug) return;
  const slug = String(item.titleSlug).trim();
  if (!slug) return;
  const timestamp = Number(item.timestamp || 0);
  const existing = map.get(slug);
  if (!existing || timestamp > Number(existing.timestamp || 0)) {
    map.set(slug, { title: item.title || slug, titleSlug: slug, timestamp });
  }
  \<close>
\<close>

definition recent_forEach ::
  "(jsstring \<times> submission) list \<Rightarrow> recent_item option \<Rightarrow> (jsstring \<times> submission) list"
where
  "recent_forEach m item =
     (case item of
        None \<Rightarrow> m
      | Some it \<Rightarrow>
          (case item_titleSlug it of
             None \<Rightarrow> m
           | Some s \<Rightarrow>
               if s = [] then m
               else
                 let slug = trim s in
                 if slug = [] then m
                 else
                   let ts = Number_or_0 (item_timestamp it);
                       existing = map_of m slug
                   in if (case existing of None \<Rightarrow> True | Some e \<Rightarrow> ts > timestamp e)
                      then AList.update slug
                             \<lparr>title = (if truthy (item_title it) then item_title it else JStr slug),
                              titleSlug = slug, timestamp = ts\<rparr> m
                      else m))"

text \<open>
  The comparator \<open>(a, b) => Number(b.timestamp || 0) - Number(a.timestamp || 0)\<close>, as
  \<open>sort\<close> reads its result: \<open>sort\<close> reads the sign only, and \<open>NaN\<close> as 0. The difference of
  two doubles has the sign of the exact difference, whatever its rounding, and the
  difference of two equal infinities is \<open>NaN\<close>.
\<close>

definition by_timestamp :: "submission \<Rightarrow> submission \<Rightarrow> int" where
  "by_timestamp a b = timestamp b - timestamp a"

definition dedupe_and_sort :: "recent_item option list \<Rightarrow> submission list" where
  "dedupe_and_sort list = js_sort by_timestamp (map snd (foldl recent_forEach [] list))"

text \<open>\<open>Array.isArray(data?.recentSubmissionList) ? data.recentSubmissionList : []\<close>\<close>

definition array_or_empty :: "'a list option option \<Rightarrow> 'a list" where
  "array_or_empty field = (case field of Some (Some xs) \<Rightarrow> xs | _ \<Rightarrow> [])"

definition fetchRecentSubmissions ::
  "(gql_query \<Rightarrow> recent_data gql_json response option) \<Rightarrow> jsval
     \<Rightarrow> call list \<times> (error + submission list)"
where
  "fetchRecentSubmissions fetch username =
     (case graphqlRequest fetch (RecentSubmissionList username) of
        (log, Inl e) \<Rightarrow> (log, Inl e)
      | (log, Inr d) \<Rightarrow>
          (log, Inr (dedupe_and_sort (array_or_empty (map_option recentSubmissionList d)))))"

text \<open>The same function of \<open>src/api/fetchSolved.js\<close>, on its own query and helper.\<close>

definition fetchRecentAcceptedSubmissions ::
  "(gql_query \<Rightarrow> recentAc_data gql_json response option) \<Rightarrow> jsval
     \<Rightarrow> call list \<times> (error + submission list)"
where
  "fetchRecentAcceptedSubmissions fetch username =
     (case graphqlRequest_api fetch (RecentAcSubmissionList username) of
        (log, Inl e) \<Rightarrow> (log, Inl e)
      | (log, Inr d) \<Rightarrow>
          (log, Inr (dedupe_and_sort (array_or_empty (map_option recentAcSubmissionList d)))))"

section \<open>The full-history fetchers\<close>

definition pageSize :: nat where
  "pageSize = 20"

definition maxPages :: nat where
  "maxPages = 500"

text \<open>
  The page of the GraphQL \<open>submissionList\<close> query. An entry of \<open>submissions\<close> is \<open>None\<close>
  when it is \<open>null\<close>; \<open>submissions\<close> itself is \<open>None\<close> when it is absent or not an array, and
  \<open>submissionList\<close> is \<open>None\<close> when it is absent or \<open>null\<close>. \<open>titleSlug\<close> is a string or
  \<open>null\<close>, as the schema types it; \<open>statusDisplay\<close> and \<open>hasNext\<close> are only compared and
  tested, so they are any value.
\<close>

record list_item =
  sub_titleSlug :: "jsstring option"
  sub_statusDisplay :: jsval

record submission_page =
  hasNext :: jsval
  submissions :: "list_item option list option"

record list_data =
  submissionList :: "submission_page option"

text \<open>
  \<^verbatim>\<open>
  submissions.forEach(submission => {
    if (!submission?.titleSlug) return;
    if (submission.statusDisplay !== 'Accepted') return;
    accepted.add(String(submission.titleSlug).trim());
  });
  \<close>
\<close>

definition accepted_forEach :: "jsstring list \<Rightarrow> list_item option \<Rightarrow> jsstring list" where
  "accepted_forEach accepted submission =
     (case submission of
        None \<Rightarrow> accepted
      | Some sub \<Rightarrow>
          (case sub_titleSlug sub of
             None \<Rightarrow> accepted
           | Some s \<Rightarrow>
               if s = [] then accepted
               else if sub_statusDisplay sub \<noteq> JStr (lit ''Accepted'') then accepted
               else Set_add accepted (trim s)))"

text \<open>\<open>submissionList?.hasNext\<close> and the \<open>submissions\<close> array of a result of the helper.\<close>

definition page_hasNext :: "list_data option \<Rightarrow> jsval" where
  "page_hasNext d =
     (case d of Some ld \<Rightarrow> (case submissionList ld of Some sl \<Rightarrow> hasNext sl | None \<Rightarrow> JUndefined)
      | None \<Rightarrow> JUndefined)"

definition page_submissions :: "list_data option \<Rightarrow> list_item option list" where
  "page_submissions d =
     (case d of Some ld \<Rightarrow> (case submissionList ld of Some sl \<Rightarrow> array_or_empty (Some (submissions sl)) | None \<Rightarrow> [])
      | None \<Rightarrow> [])"

text \<open>
  The loop \<open>for (let page = 0; page < maxPages; page += 1)\<close> of the GraphQL fetcher, from the
  state (\<open>page\<close>, \<open>offset\<close>, \<open>accepted\<close>) and the requests sent so far. \<open>request\<close> is the
  helper it awaits.
\<close>

function graphql_pages ::
  "(gql_query \<Rightarrow> call list \<times> (error + list_data option)) \<Rightarrow> jsval \<Rightarrow> nat \<Rightarrow> nat
     \<Rightarrow> jsstring list \<Rightarrow> call list \<Rightarrow> call list \<times> (error + jsstring list)"
where
  "graphql_pages request username page offset accepted log =
     (if page < maxPages then
        (case request (SubmissionList offset pageSize username) of
           (sent, Inl e) \<Rightarrow> (log @ sent, Inl e)
         | (sent, Inr d) \<Rightarrow>
             (let accepted' = foldl accepted_forEach accepted (page_submissions d)
              in if \<not> truthy (page_hasNext d) \<or> length (page_submissions d) = 0
                 then (log @ sent, Inr accepted')
                 else graphql_pages request username (page + 1) (offset + pageSize) accepted'
                        (log @ sent)))
      else (log, Inr accepted))"
  by pat_completeness auto
termination
  by (relation "measure (\<lambda>(request, username, page, offset, accepted, log). maxPages - page)") auto

declare graphql_pages.simps [simp del]

text \<open>\<open>return Array.from(accepted).filter(Boolean);\<close>\<close>

definition fetchAllAcceptedSlugsFromGraphQL ::
  "(gql_query \<Rightarrow> list_data gql_json response option) \<Rightarrow> jsval
     \<Rightarrow> call list \<times> (error + jsstring list)"
where
  "fetchAllAcceptedSlugsFromGraphQL fetch username =
     (case graphql_pages (graphqlRequest fetch) username 0 0 [] [] of
        (log, Inl e) \<Rightarrow> (log, Inl e)
      | (log, Inr accepted) \<Rightarrow> (log, Inr (filter (\<lambda>s. s \<noteq> []) accepted)))"

text \<open>The same function of \<open>src/api/fetchSolved.js\<close>, on its own helper.\<close>

definition fetchAllAcceptedSlugs ::
  "(gql_query \<Rightarrow> list_data gql_json response option) \<Rightarrow> jsval
     \<Rightarrow> call list \<times> (error + jsstring list)"
where
  "fetchAllAcceptedSlugs fetch username =
     (case graphql_pages (graphqlRequest_api fetch) username 0 0 [] [] of
        (log, Inl e) \<Rightarrow> (log, Inl e)
      | (log, Inr accepted) \<Rightarrow> (log, Inr (filter (\<lambda>s. s \<noteq> []) accepted)))"

text \<open>
  The page of the public API. An entry of \<open>submissions_dump\<close> is \<open>None\<close> when it is falsy;
  its fields are any values, as the source tests their types itself. A body that is not an
  object reads as \<open>submissions_dump = None\<close>, \<open>has_next = JUndefined\<close>.
  \<^verbatim>\<open>
  submissions.forEach(submission => {
    if (!submission) return;
    const slug = typeof submission.title_slug === 'string' ? submission.title_slug.trim() : '';
    if (!slug) return;
    const status = submission.status_display || submission.statusDisplay;
    if (status !== 'Accepted') return;
    accepted.add(slug);
  });
  \<close>
\<close>

record rest_submission =
  title_slug :: jsval
  status_display :: jsval
  statusDisplay :: jsval

record rest_json =
  submissions_dump :: "rest_submission option list option"
  has_next :: jsval

definition public_forEach :: "jsstring list \<Rightarrow> rest_submission option \<Rightarrow> jsstring list" where
  "public_forEach accepted submission =
     (case submission of
        None \<Rightarrow> accepted
      | Some sub \<Rightarrow>
          (let slug = (case title_slug sub of JStr s \<Rightarrow> trim s | _ \<Rightarrow> [])
           in if slug = [] then accepted
              else
                let st = (if truthy (status_display sub) then status_display sub
                          else statusDisplay sub)
                in if st \<noteq> JStr (lit ''Accepted'') then accepted
                   else Set_add accepted slug))"

text \<open>
  \<open>encodeURIComponent(username)\<close>, which the loop of the public API fetcher evaluates for
  the URL of each request, before it sends it. It converts its argument to a string and
  throws a \<open>URIError\<close> when the string holds a lone surrogate: a code unit from D800 to DBFF
  that no code unit from DC00 to DFFF follows, or one from DC00 to DFFF that follows no such
  code unit.
\<close>

definition is_high_surrogate :: "16 word \<Rightarrow> bool" where
  "is_high_surrogate c \<longleftrightarrow> 0xD800 \<le> c \<and> c \<le> 0xDBFF"

definition is_low_surrogate :: "16 word \<Rightarrow> bool" where
  "is_low_surrogate c \<longleftrightarrow> 0xDC00 \<le> c \<and> c \<le> 0xDFFF"

fun well_formed :: "jsstring \<Rightarrow> bool" where
  "well_formed [] = True"
| "well_formed [c] = (\<not> is_high_surrogate c \<and> \<not> is_low_surrogate c)"
| "well_formed (c # d # cs) =
     (if is_high_surrogate c then is_low_surrogate d \<and> well_formed cs
      else \<not> is_low_surrogate c \<and> well_formed (d # cs))"

text \<open>
  The conversion to a string, for a username that is not a string (the handler of
  \<open>src/api/fetchSolved.js\<close> passes on every truthy value): an object of the request body
  that has a property \<open>toString\<close> of its own has no callable \<open>toString\<close>, and its conversion
  throws a \<open>TypeError\<close>; every other object reads \<open>[object Object]\<close>. An array reads as its
  elements joined by commas, so that it throws when an element does, and holds a lone
  surrogate when an element does. Numbers, booleans, \<open>null\<close> and \<open>undefined\<close> read as ASCII.
\<close>

fun ToString_throws :: "jsval \<Rightarrow> bool" where
  "ToString_throws (JObj kvs) = (map_of kvs (lit ''toString'') \<noteq> None)"
| "ToString_throws (JArr xs) = (\<exists>x \<in> set xs. ToString_throws x)"
| "ToString_throws v = False"

fun lone_surrogate :: "jsval \<Rightarrow> bool" where
  "lone_surrogate (JStr s) = (\<not> well_formed s)"
| "lone_surrogate (JArr xs) = (\<exists>x \<in> set xs. lone_surrogate x)"
| "lone_surrogate v = False"

definition encodeURIComponent_error :: "jsval \<Rightarrow> error option" where
  "encodeURIComponent_error v =
     (if ToString_throws v then Some TypeError
      else if lone_surrogate v then Some URIError
      else None)"

text \<open>
  The loop of the public API fetcher, from the state (\<open>page\<close>, \<open>offset\<close>, \<open>accepted\<close>) and the
  requests sent so far.
  \<^verbatim>\<open>
  for (let page = 0; page < maxPages; page += 1) {
    const url = `https://leetcode.com/api/submissions/${encodeURIComponent(username)}/?offset=${offset}&limit=${pageSize}`;
    const response = await fetch(url, { method: 'GET', headers: { ... } });
    if (!response.ok) throw new Error(`Public submissions API failed (${response.status})`);
    const data = await response.json();
    const submissions = Array.isArray(data?.submissions_dump) ? data.submissions_dump : [];
    submissions.forEach(...);
    const hasNext = Boolean(data?.has_next);
    if (!hasNext || submissions.length === 0) break;
    offset += pageSize;
  }
  return Array.from(accepted);
  \<close>
\<close>

function public_pages ::
  "(jsval \<Rightarrow> nat \<Rightarrow> nat \<Rightarrow> rest_json response option) \<Rightarrow> jsval \<Rightarrow> nat \<Rightarrow> nat
     \<Rightarrow> jsstring list \<Rightarrow> call list \<Rightarrow> call list \<times> (error + jsstring list)"
where
  "public_pages fetch username page offset accepted log =
     (if page < maxPages then
        (case encodeURIComponent_error username of
           Some e \<Rightarrow> (log, Inl e)
         | None \<Rightarrow>
            (let log' = log @ [PublicApiCall username offset pageSize]
             in case fetch username offset pageSize of
                  None \<Rightarrow> (log', Inl FetchRejected)
                | Some response \<Rightarrow>
                    if \<not> ok response then (log', Inl (PublicApiFailed (status response)))
                    else
                      (case raw response of
                         Malformed t \<Rightarrow> (log', Inl JSONSyntaxError)
                       | Wellformed d \<Rightarrow>
                           (let subs = array_or_empty (Some (submissions_dump d));
                                accepted' = foldl public_forEach accepted subs
                            in if \<not> truthy (has_next d) \<or> length subs = 0
                               then (log', Inr accepted')
                               else public_pages fetch username (page + 1) (offset + pageSize)
                                      accepted' log'))))
      else (log, Inr accepted))"
  by pat_completeness auto
termination
  by (relation "measure (\<lambda>(fetch, username, page, offset, accepted, log). maxPages - page)") auto

declare public_pages.simps [simp del]

definition fetchAllAcceptedSlugsFromPublicApi ::
  "(jsval \<Rightarrow> nat \<Rightarrow> nat \<Rightarrow> rest_json response option) \<Rightarrow> jsval
     \<Rightarrow> call list \<times> (error + jsstring list)"
where
  "fetchAllAcceptedSlugsFromPublicApi fetch username = public_pages fetch username 0 0 [] []"

section \<open>The handler\<close>

text \<open>
  The request as the handler reads it: \<open>req.method\<close> and the parsed \<open>req.body\<close>
  (\<open>JUndefined\<close> when there is none). The upstream is what the two hosts answer to each
  request: the GraphQL endpoint, read at the type of the query sent, and the public API.
\<close>

record request =
  req_method :: jsstring
  body :: jsval

record upstream =
  graphql_recent :: "gql_query \<Rightarrow> recent_data gql_json response option"
  graphql_recentAc :: "gql_query \<Rightarrow> recentAc_data gql_json response option"
  graphql_list :: "gql_query \<Rightarrow> list_data gql_json response option"
  public_api :: "jsval \<Rightarrow> nat \<Rightarrow> nat \<Rightarrow> rest_json response option"

text \<open>
  What the handler sends: \<open>res.status(c).end()\<close> has no body, \<open>res.status(c).json(v)\<close> has the
  value \<open>v\<close>; \<open>ServerError err\<close> is the body \<open>{ error: 'Server error', details: err.message }\<close>
  of the outer \<open>catch\<close>.
\<close>

datatype res_body = End | Json jsval | ServerError error

record http_response =
  res_status :: nat
  res_body :: res_body

fun has_key :: "res_body \<Rightarrow> jsstring \<Rightarrow> bool" where
  "has_key (Json (JObj kvs)) k = (k \<in> set (map fst kvs))"
| "has_key (ServerError err) k = (k = lit ''error'' \<or> k = lit ''details'')"
| "has_key b k = False"

text \<open>
  A record of \<open>recentSolved\<close> as \<open>res.json\<close> sends it; \<open>JSON.stringify\<close> writes an infinite
  number as \<open>null\<close>.
\<close>

definition number_json :: "int \<Rightarrow> jsval" where
  "number_json n = (if \<bar>n\<bar> < 2 ^ 1024 then JNum n else JNull)"

definition submission_json :: "submission \<Rightarrow> jsval" where
  "submission_json s =
     JObj [(lit ''title'', title s), (lit ''titleSlug'', JStr (titleSlug s)),
           (lit ''timestamp'', number_json (timestamp s))]"

text \<open>
  The body of the success response:
  \<^verbatim>\<open>
  { source, recentSolved, allSolvedSlugs,
    counts: { recentSolved: recentSolved.length, allSolved: allSolvedSlugs.length } }
  \<close>
\<close>

definition result_json :: "jsstring \<Rightarrow> submission list \<Rightarrow> jsstring list \<Rightarrow> jsval" where
  "result_json source recentSolved allSolvedSlugs =
     JObj [(lit ''source'', JStr source),
           (lit ''recentSolved'', JArr (map submission_json recentSolved)),
           (lit ''allSolvedSlugs'', JArr (map JStr allSolvedSlugs)),
           (lit ''counts'',
              JObj [(lit ''recentSolved'', JNum (int (length recentSolved))),
                    (lit ''allSolved'', JNum (int (length allSolvedSlugs)))])]"

text \<open>
  The part of both handlers after \<open>recentSolved\<close> is known (and, in the handler with the
  legacy mode, after \<open>wantsV2\<close>): the two \<open>try\<close> blocks, the fallback to the recent list, and
  the response. \<open>graphql_history\<close> is the GraphQL full-history fetcher of the file.
  \<^verbatim>\<open>
  let allSolvedSlugs = [];
  let source = 'recent';
  try {
    allSolvedSlugs = await fetchAllAcceptedSlugsFromGraphQL(safeUsername);
    if (allSolvedSlugs.length) source = 'full';
  } catch (error) { allSolvedSlugs = []; }
  if (!allSolvedSlugs.length) {
    try {
      allSolvedSlugs = await fetchAllAcceptedSlugsFromPublicApi(safeUsername);
      if (allSolvedSlugs.length) source = 'full';
    } catch (error) { allSolvedSlugs = []; }
  }
  if (!allSolvedSlugs.length)
    allSolvedSlugs = dedupeSlugs(recentSolved.map(item => item.titleSlug));
  return res.status(200).json({ ... });
  \<close>
\<close>

definition full_history ::
  "(jsval \<Rightarrow> call list \<times> (error + jsstring list)) \<Rightarrow> upstream \<Rightarrow> jsval \<Rightarrow> submission list
     \<Rightarrow> call list \<times> http_response"
where
  "full_history graphql_history up username recentSolved =
     (case graphql_history username of
        (log2, r2) \<Rightarrow>
          (let (slugs2, source2) =
                 (case r2 of
                    Inr found \<Rightarrow> (found, if length found \<noteq> 0 then lit ''full'' else lit ''recent'')
                  | Inl e \<Rightarrow> ([], lit ''recent''));
               (log3, slugs3, source3) =
                 (if length slugs2 = 0 then
                    (case fetchAllAcceptedSlugsFromPublicApi (public_api up) username of
                       (sent, Inr found) \<Rightarrow>
                         (sent, found, if length found \<noteq> 0 then lit ''full'' else source2)
                     | (sent, Inl e) \<Rightarrow> (sent, [], source2))
                  else ([], slugs2, source2));
               allSolvedSlugs =
                 (if length slugs3 = 0
                  then dedupeSlugs (Some (map (\<lambda>item. Some (titleSlug item)) recentSolved))
                  else slugs3)
           in (log2 @ log3,
               \<lparr>res_status = 200, res_body = Json (result_json source3 recentSolved allSolvedSlugs)\<rparr>)))"

text \<open>
  The handler with the legacy mode (\<open>wantsV2\<close>):
  \<^verbatim>\<open>
  if (req.method === 'OPTIONS') return res.status(200).end();
  if (req.method !== 'POST') return res.status(405).json({ error: 'Only POST allowed' });
  const { username, responseFormat, includeFullHistory } = req.body || {};
  if (!username || typeof username !== 'string' || !username.trim())
    return res.status(400).json({ error: 'Username is required' });
  const safeUsername = username.trim();
  const wantsV2 = responseFormat === 'v2' || includeFullHistory === true;
  try {
    const recentSolved = await fetchRecentSubmissions(safeUsername);
    if (!wantsV2) return res.status(200).json(recentSolved);
    ...
  } catch (err) {
    return res.status(500).json({ error: 'Server error', details: err.message });
  }
  \<close>
\<close>

definition handler :: "upstream \<Rightarrow> request \<Rightarrow> call list \<times> http_response" where
  "handler up req =
     (if req_method req = lit ''OPTIONS'' then ([], \<lparr>res_status = 200, res_body = End\<rparr>)
      else if req_method req \<noteq> lit ''POST'' then
        ([], \<lparr>res_status = 405,
              res_body = Json (JObj [(lit ''error'', JStr (lit ''Only POST allowed''))])\<rparr>)
      else
        let b = (if truthy (body req) then body req else JObj []);
            username = get_prop b (lit ''username'');
            responseFormat = get_prop b (lit ''responseFormat'');
            includeFullHistory = get_prop b (lit ''includeFullHistory'')
        in if \<not> truthy username \<or> (case username of JStr s \<Rightarrow> trim s = [] | _ \<Rightarrow> True) then
             ([], \<lparr>res_status = 400,
                   res_body = Json (JObj [(lit ''error'', JStr (lit ''Username is required''))])\<rparr>)
           else
             let safeUsername = (case username of JStr s \<Rightarrow> JStr (trim s) | v \<Rightarrow> v);
                 wantsV2 = (responseFormat = JStr (lit ''v2'') \<or> includeFullHistory = JBool True)
             in case fetchRecentSubmissions (graphql_recent up) safeUsername of
                  (log1, Inl err) \<Rightarrow> (log1, \<lparr>res_status = 500, res_body = ServerError err\<rparr>)
                | (log1, Inr recentSolved) \<Rightarrow>
                    if \<not> wantsV2 then
                      (log1, \<lparr>res_status = 200,
                               res_body = Json (JArr (map submission_json recentSolved))\<rparr>)
                    else
                      (case full_history (fetchAllAcceptedSlugsFromGraphQL (graphql_list up))
                              up safeUsername recentSolved of
                         (sent, response) \<Rightarrow> (log1 @ sent, response)))"

text \<open>
  The handler of \<open>src/api/fetchSolved.js\<close>, which has no legacy mode and reads \<open>username\<close>
  from \<open>req.body\<close> itself; destructuring \<open>null\<close> or \<open>undefined\<close> throws outside its \<open>try\<close>.
  \<^verbatim>\<open>
  const { username } = req.body;
  if (!username) return res.status(400).json({ error: 'Username is required' });
  try {
    const recentSolved = await fetchRecentAcceptedSubmissions(username);
    ...
  \<close>
\<close>

definition handler_api :: "upstream \<Rightarrow> request \<Rightarrow> call list \<times> (error + http_response)" where
  "handler_api up req =
     (if req_method req = lit ''OPTIONS'' then ([], Inr \<lparr>res_status = 200, res_body = End\<rparr>)
      else if req_method req \<noteq> lit ''POST'' then
        ([], Inr \<lparr>res_status = 405,
                  res_body = Json (JObj [(lit ''error'', JStr (lit ''Only POST allowed''))])\<rparr>)
      else if body req = JUndefined \<or> body req = JNull then ([], Inl TypeError)
      else
        let username = get_prop (body req) (lit ''username'')
        in if \<not> truthy username then
             ([], Inr \<lparr>res_status = 400,
                       res_body = Json (JObj [(lit ''error'', JStr (lit ''Username is required''))])\<rparr>)
           else
             case fetchRecentAcceptedSubmissions (graphql_recentAc up) username of
               (log1, Inl err) \<Rightarrow> (log1, Inr \<lparr>res_status = 500, res_body = ServerError err\<rparr>)
             | (log1, Inr recentSolved) \<Rightarrow>
                 (case full_history (fetchAllAcceptedSlugs (graphql_list up))
                         up username recentSolved of
                    (sent, response) \<Rightarrow> (log1 @ sent, Inr response)))"

section \<open>Example upstreams and requests\<close>

text \<open>An upstream that is down: every \<open>fetch\<close> is rejected.\<close>

definition upstream_down :: upstream where
  "upstream_down =
     \<lparr>graphql_recent = (\<lambda>q. None), graphql_recentAc = (\<lambda>q. None),
      graphql_list = (\<lambda>q. None), public_api = (\<lambda>username offset limit. None)\<rparr>"

text \<open>
  The recent list \<open>[{slug:"a",ts:1},{slug:"a",ts:5},{slug:"b",ts:2}]\<close>, an upstream that
  answers the recent query with it while both full-history sources are down, and a request
  for the v2 response.
\<close>

definition example_list :: "recent_item option list" where
  "example_list =
     [Some \<lparr>item_title = JUndefined, item_titleSlug = Some (lit ''a''), item_timestamp = Some 1\<rparr>,
      Some \<lparr>item_title = JUndefined, item_titleSlug = Some (lit ''a''), item_timestamp = Some 5\<rparr>,
      Some \<lparr>item_title = JUndefined, item_titleSlug = Some (lit ''b''), item_timestamp = Some 2\<rparr>]"

definition upstream_recent_only :: upstream where
  "upstream_recent_only =
     \<lparr>graphql_recent =
        (\<lambda>q. Some \<lparr>status = 200,
                     raw = Wellformed \<lparr>errors = JUndefined,
                                        data = Some \<lparr>recentSubmissionList = Some example_list\<rparr>\<rparr>\<rparr>),
      graphql_recentAc =
        (\<lambda>q. Some \<lparr>status = 200,
                     raw = Wellformed \<lparr>errors = JUndefined,
                                        data = Some \<lparr>recentAcSubmissionList = Some example_list\<rparr>\<rparr>\<rparr>),
      graphql_list = (\<lambda>q. None), public_api = (\<lambda>username offset limit. None)\<rparr>"

definition example_v2_request :: request where
  "example_v2_request =
     \<lparr>req_method = lit ''POST'',
      body = JObj [(lit ''username'', JStr (lit ''alice'')),
                   (lit ''responseFormat'', JStr (lit ''v2''))]\<rparr>"

text \<open>An upstream whose every page has one accepted submission and reports a next page.\<close>

definition upstream_endless :: upstream where
  "upstream_endless =
     \<lparr>graphql_recent = (\<lambda>q. None), graphql_recentAc = (\<lambda>q. None),
      graphql_list =
        (\<lambda>q. Some \<lparr>status = 200,
                     raw = Wellformed \<lparr>errors = JUndefined,
                       data = Some \<lparr>submissionList = Some
                         \<lparr>hasNext = JBool True,
                          submissions = Some [Some \<lparr>sub_titleSlug = Some (lit ''two-sum''),
                                                    sub_statusDisplay = JStr (lit ''Accepted'')\<rparr>]\<rparr>\<rparr>\<rparr>\<rparr>),
      public_api =
        (\<lambda>username offset limit.
           Some \<lparr>status = 200,
                 raw = Wellformed
                   \<lparr>submissions_dump = Some [Some \<lparr>title_slug = JStr (lit ''two-sum''),
                                                    status_display = JStr (lit ''Accepted''),
                                                    statusDisplay = JUndefined\<rparr>],
                    has_next = JBool True\<rparr>\<rparr>)\<rparr>"

text \<open>
  An upstream with two pages of submissions: a slug with white space around it, a
  submission that was not accepted, the same slug again, and a slug of white space only.
\<close>

definition padded_page0 :: "list_data gql_json response" where
  "padded_page0 =
     \<lparr>status = 200,
      raw = Wellformed \<lparr>errors = JUndefined,
        data = Some \<lparr>submissionList = Some
          \<lparr>hasNext = JBool True,
           submissions = Some
             [Some \<lparr>sub_titleSlug = Some (lit '' two-sum ''),
                    sub_statusDisplay = JStr (lit ''Accepted'')\<rparr>,
              Some \<lparr>sub_titleSlug = Some (lit ''3sum''),
                    sub_statusDisplay = JStr (lit ''Wrong Answer'')\<rparr>]\<rparr>\<rparr>\<rparr>\<rparr>"

definition padded_page1 :: "list_data gql_json response" where
  "padded_page1 =
     \<lparr>status = 200,
      raw = Wellformed \<lparr>errors = JUndefined,
        data = Some \<lparr>submissionList = Some
          \<lparr>hasNext = JBool False,
           submissions = Some
             [Some \<lparr>sub_titleSlug = Some (lit ''two-sum''),
                    sub_statusDisplay = JStr (lit ''Accepted'')\<rparr>,
              Some \<lparr>sub_titleSlug = Some (lit ''  ''),
                    sub_statusDisplay = JStr (lit ''Accepted'')\<rparr>]\<rparr>\<rparr>\<rparr>\<rparr>"

definition upstream_padded :: upstream where
  "upstream_padded =
     \<lparr>graphql_recent = (\<lambda>q. None), graphql_recentAc = (\<lambda>q. None),
      graphql_list =
        (\<lambda>q. case q of
                 SubmissionList offset limit username \<Rightarrow>
                   if offset = 0 then Some padded_page0 else Some padded_page1
               | _ \<Rightarrow> None),
      public_api = (\<lambda>username offset limit. None)\<rparr>"

section \<open>Notions used in the proofs\<close>

text \<open>
  The key under which the callback of the recent fetcher files an entry of the list (\<open>None\<close>
  when it skips the entry) and the record it stores; and the two invariants of its \<open>Map\<close>:
  every stored record was built from an entry seen, and every entry seen is covered by a
  stored record of its key with a timestamp at least as high.
\<close>

definition item_key :: "recent_item option \<Rightarrow> jsstring option" where
  "item_key item =
     (case item of None \<Rightarrow> None
      | Some it \<Rightarrow> (case item_titleSlug it of None \<Rightarrow> None
                    | Some s \<Rightarrow> if trim s = [] then None else Some (trim s)))"

definition item_record :: "recent_item \<Rightarrow> jsstring \<Rightarrow> submission" where
  "item_record it slug =
     \<lparr>title = (if truthy (item_title it) then item_title it else JStr slug),
      titleSlug = slug, timestamp = Number_or_0 (item_timestamp it)\<rparr>"

definition from_items :: "(jsstring \<times> submission) list \<Rightarrow> recent_item option set \<Rightarrow> bool" where
  "from_items m S \<longleftrightarrow>
     (\<forall>k v. map_of m k = Some v \<longrightarrow>
        (\<exists>it. Some it \<in> S \<and> item_key (Some it) = Some k \<and> v = item_record it k))"

definition covers_items :: "(jsstring \<times> submission) list \<Rightarrow> recent_item option set \<Rightarrow> bool" where
  "covers_items m S \<longleftrightarrow>
     (\<forall>it k. Some it \<in> S \<and> item_key (Some it) = Some k \<longrightarrow>
        (\<exists>v. map_of m k = Some v \<and> Number_or_0 (item_timestamp it) \<le> timestamp v))"

text \<open>
  The slugs that the callbacks of the two full-history fetchers add for a page, in order;
  folding the callback over the page is adding them one by one.
\<close>

definition accepted_slugs :: "list_item option list \<Rightarrow> jsstring list" where
  "accepted_slugs subs =
     concat (map (\<lambda>submission.
        case submission of
          None \<Rightarrow> []
        | Some sub \<Rightarrow>
            (case sub_titleSlug sub of
               None \<Rightarrow> []
             | Some s \<Rightarrow>
                 if s \<noteq> [] \<and> sub_statusDisplay sub = JStr (lit ''Accepted'')
                 then [trim s] else [])) subs)"

definition public_slugs :: "rest_submission option list \<Rightarrow> jsstring list" where
  "public_slugs subs =
     concat (map (\<lambda>submission.
        case submission of
          None \<Rightarrow> []
        | Some sub \<Rightarrow>
            (case title_slug sub of
               JStr s \<Rightarrow>
                 if trim s \<noteq> []
                    \<and> (if truthy (status_display sub) then status_display sub
                        else statusDisplay sub) = JStr (lit ''Accepted'')
                 then [trim s] else []
             | _ \<Rightarrow> [])) subs)"

text \<open>
  What the two loops keep true of \<open>accepted\<close>: the GraphQL loop holds distinct trimmed
  strings, the public API loop distinct trimmed strings that are not empty.
\<close>

definition trimmed_set :: "jsstring list \<Rightarrow> bool" where
  "trimmed_set accepted \<longleftrightarrow> distinct accepted \<and> (\<forall>x \<in> set accepted. trim x = x)"

definition slug_set :: "jsstring list \<Rightarrow> bool" where
  "slug_set accepted \<longleftrightarrow> distinct accepted \<and> (\<forall>x \<in> set accepted. trim x = x \<and> x \<noteq> [])"

text \<open>
  The page with index \<open>i\<close> as the two loops read it: the result of the helper for the
  GraphQL query at offset \<open>i * pageSize\<close> (\<open>{}\<close> when it throws), and the \<open>submissions\<close> array
  of the answer of the public API at that offset.
\<close>

definition gql_page ::
  "(gql_query \<Rightarrow> call list \<times> (error + list_data option)) \<Rightarrow> jsval \<Rightarrow> nat \<Rightarrow> list_data option"
where
  "gql_page request username i =
     (case snd (request (SubmissionList (i * pageSize) pageSize username)) of
        Inr d \<Rightarrow> d | Inl e \<Rightarrow> None)"

definition public_page ::
  "(jsval \<Rightarrow> nat \<Rightarrow> nat \<Rightarrow> rest_json response option) \<Rightarrow> jsval \<Rightarrow> nat
     \<Rightarrow> rest_submission option list"
where
  "public_page fetch username i =
     (case fetch username (i * pageSize) pageSize of
        Some response \<Rightarrow>
          (case raw response of
             Wellformed d \<Rightarrow> array_or_empty (Some (submissions_dump d))
           | Malformed t \<Rightarrow> [])
      | None \<Rightarrow> [])"

text \<open>
  A run of the GraphQL loop over the pages \<open>page, ..., n - 1\<close>: the requests it sends, the
  set it accumulates, and why it goes on and stops.
\<close>

definition pages_run ::
  "(gql_query \<Rightarrow> call list \<times> (error + list_data option)) \<Rightarrow> jsval \<Rightarrow> nat \<Rightarrow> nat
     \<Rightarrow> jsstring list \<Rightarrow> call list \<Rightarrow> call list \<Rightarrow> jsstring list \<Rightarrow> bool"
where
  "pages_run request username page n accepted log log' accepted' \<longleftrightarrow>
     page \<le> n \<and> n \<le> maxPages \<and> (page < maxPages \<longrightarrow> page < n)
     \<and> log' = log @ concat (map (\<lambda>i. fst (request (SubmissionList (i * pageSize) pageSize username)))
                          [page..<n])
     \<and> accepted' = foldl Set_add accepted
          (concat (map (\<lambda>i. accepted_slugs (page_submissions (gql_page request username i)))
             [page..<n]))
     \<and> (\<forall>i. page \<le> i \<and> i < n \<longrightarrow>
           (\<exists>d. snd (request (SubmissionList (i * pageSize) pageSize username)) = Inr d))
     \<and> (\<forall>i. page \<le> i \<and> Suc i < n \<longrightarrow>
           truthy (page_hasNext (gql_page request username i))
           \<and> page_submissions (gql_page request username i) \<noteq> [])
     \<and> (n < maxPages \<longrightarrow>
           \<not> truthy (page_hasNext (gql_page request username (n - 1)))
           \<or> page_submissions (gql_page request username (n - 1)) = [])"

section \<open>Lemmas on the helpers\<close>

lemma set_Set_add: "set (Set_add xs x) = insert x (set xs)"
  by (auto simp: Set_add_def)

lemma distinct_Set_add: "distinct xs \<Longrightarrow> distinct (Set_add xs x)"
  by (simp add: Set_add_def)

lemma set_foldl_Set_add: "set (foldl Set_add acc xs) = set acc \<union> set xs"
  by (induction xs arbitrary: acc) (auto simp: set_Set_add)

lemma distinct_foldl_Set_add: "distinct acc \<Longrightarrow> distinct (foldl Set_add acc xs)"
  by (induction xs arbitrary: acc) (auto simp: distinct_Set_add)

lemma set_new_Set: "set (new_Set xs) = set xs"
  by (simp add: new_Set_def set_foldl_Set_add)

lemma distinct_new_Set: "distinct (new_Set xs)"
  by (simp add: new_Set_def distinct_foldl_Set_add)

lemma foldl_Set_add_distinct: "distinct (acc @ xs) \<Longrightarrow> foldl Set_add acc xs = acc @ xs"
  by (induction xs arbitrary: acc) (auto simp: Set_add_def)

lemma new_Set_distinct: "distinct xs \<Longrightarrow> new_Set xs = xs"
  using foldl_Set_add_distinct [of "[]" xs] by (simp add: new_Set_def)

lemma Number_of_int_safe: "\<bar>n\<bar> < 2 ^ 53 \<Longrightarrow> Number_of_int n = n"
  by (auto simp: Number_of_int_def round_to_double_def)

lemma encodeURIComponent_string:
  "encodeURIComponent_error (JStr s) = (if well_formed s then None else Some URIError)"
  by (simp add: encodeURIComponent_error_def)

lemma trim_Nil: "trim [] = []"
  by (simp add: trim_def)

lemma trim_no_leading: "trim s \<noteq> [] \<Longrightarrow> \<not> isWhiteSpace (hd (trim s))"
proof -
  assume ne: "trim s \<noteq> []"
  let ?d = "dropWhile isWhiteSpace s"
  let ?r = "dropWhile isWhiteSpace (rev ?d)"
  have r_ne: "?r \<noteq> []" using ne by (simp add: trim_def)
  have d_ne: "?d \<noteq> []"
  proof
    assume e: "?d = []"
    have "?r = []" unfolding e by simp
    with r_ne show False by contradiction
  qed
  have "\<exists>zs. rev ?d = zs @ ?r"
    by (metis takeWhile_dropWhile_id)
  then obtain zs where "rev ?d = zs @ ?r" ..
  then have "?d = rev ?r @ rev zs" by (metis rev_append rev_rev_ident)
  then have "hd ?d = hd (rev ?r)" using r_ne by (metis hd_append2 rev_is_Nil_conv)
  moreover have "\<not> isWhiteSpace (hd ?d)" using d_ne by (rule hd_dropWhile)
  ultimately show ?thesis by (simp add: trim_def)
qed

lemma trim_no_trailing: "trim s \<noteq> [] \<Longrightarrow> \<not> isWhiteSpace (last (trim s))"
proof -
  assume ne: "trim s \<noteq> []"
  let ?r = "dropWhile isWhiteSpace (rev (dropWhile isWhiteSpace s))"
  have r_ne: "?r \<noteq> []" using ne by (simp add: trim_def)
  then have "\<not> isWhiteSpace (hd ?r)" by (rule hd_dropWhile)
  then show ?thesis using r_ne by (simp add: trim_def last_rev)
qed

lemma trim_fixed:
  assumes "s \<noteq> []" "\<not> isWhiteSpace (hd s)" "\<not> isWhiteSpace (last s)"
  shows "trim s = s"
proof -
  have 1: "dropWhile isWhiteSpace s = s" using assms(1,2) by (cases s) auto
  have "rev s \<noteq> []" "\<not> isWhiteSpace (hd (rev s))" using assms(1,3) by (simp_all add: hd_rev)
  then have 2: "dropWhile isWhiteSpace (rev s) = rev s" by (cases "rev s") auto
  show ?thesis by (simp add: trim_def 1 2)
qed

lemma trim_idem: "trim (trim s) = trim s"
proof (cases "trim s = []")
  case True
  then show ?thesis by (simp add: trim_Nil)
next
  case False
  then show ?thesis by (intro trim_fixed trim_no_leading trim_no_trailing)
qed

section \<open>Lemmas on \<open>dedupeSlugs\<close>\<close>

lemma set_dedupeSlugs:
  "set (dedupeSlugs (Some xs)) = {trim s | s. Some s \<in> set xs \<and> trim s \<noteq> []}"
proof -
  have "\<And>x. x \<in> set xs \<Longrightarrow> trim (slug_or_empty x) \<noteq> [] \<Longrightarrow> \<exists>s. trim (slug_or_empty x) = trim s \<and> Some s \<in> set xs \<and> trim s \<noteq> []"
    by (auto simp: slug_or_empty_def trim_Nil split: option.splits if_splits)
  moreover have "\<And>s. Some s \<in> set xs \<Longrightarrow> trim s \<noteq> [] \<Longrightarrow> trim s \<in> (\<lambda>slug. trim (slug_or_empty slug)) ` set xs"
  proof -
    fix s assume a: "Some s \<in> set xs" "trim s \<noteq> []"
    then have "s \<noteq> []" by (auto simp: trim_Nil)
    then have "trim (slug_or_empty (Some s)) = trim s" by (simp add: slug_or_empty_def)
    then show "trim s \<in> (\<lambda>slug. trim (slug_or_empty slug)) ` set xs" using a(1) by force
  qed
  ultimately show ?thesis
    by (auto simp: dedupeSlugs_def set_new_Set)
qed

lemma dedupeSlugs_elem:
  "x \<in> set (dedupeSlugs slugs) \<Longrightarrow> x \<noteq> [] \<and> trim x = x"
proof -
  assume "x \<in> set (dedupeSlugs slugs)"
  then obtain y where "x = trim y" "x \<noteq> []"
    by (auto simp: dedupeSlugs_def set_new_Set Let_def)
  then show ?thesis by (simp add: trim_idem)
qed

lemma distinct_dedupeSlugs: "distinct (dedupeSlugs slugs)"
  by (simp add: dedupeSlugs_def distinct_new_Set)

lemma dedupeSlugs_fixed:
  assumes "distinct ys" "\<And>y. y \<in> set ys \<Longrightarrow> y \<noteq> [] \<and> trim y = y"
  shows "dedupeSlugs (Some (map Some ys)) = ys"
proof -
  have "map (\<lambda>slug. trim (slug_or_empty slug)) (map Some ys) = ys"
    using assms(2) by (induction ys) (auto simp: slug_or_empty_def)
  moreover have "filter (\<lambda>s. s \<noteq> []) ys = ys"
    using assms(2) by (induction ys) auto
  ultimately show ?thesis
    using assms(1) by (simp add: dedupeSlugs_def new_Set_distinct)
qed

lemma dedupeSlugs_idem:
  "dedupeSlugs (Some (map Some (dedupeSlugs slugs))) = dedupeSlugs slugs"
  by (rule dedupeSlugs_fixed) (simp_all add: distinct_dedupeSlugs dedupeSlugs_elem)

section \<open>C9: the deduplication helper as a set operation\<close>

text \<open>
  Claim C9. The output of \<open>dedupeSlugs\<close>, as a set, is the set of the trimmed entries of the
  input that are not empty; two inputs that are permutations of each other give the same
  set; and the helper applied to its own output gives the same set again.
\<close>

theorem dedupeSlugs_set_semantics:
  "set (dedupeSlugs (Some xs)) = {trim s | s. Some s \<in> set xs \<and> trim s \<noteq> []}
   \<and> (mset xs = mset ys \<longrightarrow> set (dedupeSlugs (Some xs)) = set (dedupeSlugs (Some ys)))
   \<and> set (dedupeSlugs (Some (map Some (dedupeSlugs (Some xs))))) = set (dedupeSlugs (Some xs))"
proof (intro conjI impI)
  show "set (dedupeSlugs (Some xs)) = {trim s | s. Some s \<in> set xs \<and> trim s \<noteq> []}"
    by (rule set_dedupeSlugs)
next
  assume "mset xs = mset ys"
  then have "set xs = set ys" by (rule mset_eq_setD)
  then show "set (dedupeSlugs (Some xs)) = set (dedupeSlugs (Some ys))"
    by (simp add: set_dedupeSlugs)
next
  show "set (dedupeSlugs (Some (map Some (dedupeSlugs (Some xs))))) = set (dedupeSlugs (Some xs))"
    by (simp add: dedupeSlugs_idem)
qed

theorem dedupeSlugs_set_semantics_witness:
  "mset [Some (lit '' a ''), None, Some (lit ''b''), Some (lit ''a'')]
     = mset [Some (lit ''a''), Some (lit ''b''), Some (lit '' a ''), None]
   \<and> dedupeSlugs (Some [Some (lit '' a ''), None, Some (lit ''b''), Some (lit ''a'')]) = [lit ''a'', lit ''b'']
   \<and> set (dedupeSlugs (Some [Some (lit '' a ''), None, Some (lit ''b''), Some (lit ''a'')]))
     = set (dedupeSlugs (Some [Some (lit ''a''), Some (lit ''b''), Some (lit '' a ''), None]))"
proof -
  have m: "mset [Some (lit '' a ''), None, Some (lit ''b''), Some (lit ''a'')]
     = mset [Some (lit ''a''), Some (lit ''b''), Some (lit '' a ''), None]"
    by (simp add: lit_def)
  have e: "dedupeSlugs (Some [Some (lit '' a ''), None, Some (lit ''b''), Some (lit ''a'')]) = [lit ''a'', lit ''b'']"
    by (simp add: dedupeSlugs_def new_Set_def Set_add_def slug_or_empty_def trim_def isWhiteSpace_def lit_def)
  from m e dedupeSlugs_set_semantics [of "[Some (lit '' a ''), None, Some (lit ''b''), Some (lit ''a'')]"
      "[Some (lit ''a''), Some (lit ''b''), Some (lit '' a ''), None]"]
  show ?thesis by blast
qed

section \<open>Lemmas on the request helpers\<close>

lemma graphqlRequest_log: "fst (graphqlRequest fetch payload) = [GraphQLCall payload]"
  by (simp add: graphqlRequest_def)

lemma graphqlRequest_api_log: "fst (graphqlRequest_api fetch payload) = [GraphQLCall payload]"
  by (simp add: graphqlRequest_api_def)

lemma graphqlRequest_part_throws_iff:
  "fetch payload = Some response \<Longrightarrow>
     (isl (snd (graphqlRequest fetch payload)) \<longleftrightarrow>
        (\<exists>t. raw response = Malformed t \<and> t \<noteq> [])
        \<or> \<not> ok response
        \<or> (\<exists>json e es. raw response = Wellformed json \<and> errors json = JArr (e # es)))
     \<and> (\<not> isl (snd (graphqlRequest fetch payload)) \<longrightarrow>
          snd (graphqlRequest fetch payload)
            = Inr (case raw response of Malformed t \<Rightarrow> None | Wellformed json \<Rightarrow> data json))"
  by (auto simp: graphqlRequest_def split: body_text.splits jsval.splits list.splits)

lemma truthy_js_length:
  "truthy (js_length v) \<longleftrightarrow>
     (\<exists>e es. v = JArr (e # es)) \<or> (\<exists>c cs. v = JStr (c # cs))
     \<or> (\<exists>kvs. v = JObj kvs \<and> truthy (get_prop v (lit ''length'')))"
proof (cases v)
  case (JArr xs)
  then show ?thesis by (cases xs) auto
next
  case (JStr cs)
  then show ?thesis by (cases cs) auto
qed auto

lemma graphqlRequest_api_throws_iff:
  "fetch payload = Some response \<Longrightarrow>
     (isl (snd (graphqlRequest_api fetch payload)) \<longleftrightarrow>
        (\<exists>t. raw response = Malformed t)
        \<or> \<not> ok response
        \<or> (\<exists>json. raw response = Wellformed json \<and> truthy (js_length (errors json))))
     \<and> (\<not> isl (snd (graphqlRequest_api fetch payload)) \<longrightarrow>
          snd (graphqlRequest_api fetch payload)
            = Inr (case raw response of Malformed t \<Rightarrow> None | Wellformed json \<Rightarrow> data json))"
  by (auto simp: graphqlRequest_api_def split: body_text.splits)

section \<open>C8: when the GraphQL request helpers throw\<close>

text \<open>
  Claim C8, as stated: the GraphQL request helper throws exactly when the response has a
  non-2xx status, or its body is not valid JSON, or the parsed body contains a non-empty
  \<open>errors\<close> array. The empty body is not valid JSON, and the helper with the \<open>raw\<close> guard
  (\<open>graphqlRequest\<close>) reads it as \<open>{}\<close>: with status 200 it returns \<open>{}\<close> and does not throw.
  The helper of \<open>src/api/fetchSolved.js\<close> (\<open>graphqlRequest_api\<close>) throws on an \<open>errors\<close> that is
  a string, which is no array.
\<close>

theorem graphqlRequest_empty_body_counterexample:
  "snd (graphqlRequest
          (\<lambda>q. Some \<lparr>status = 200, raw = (Malformed [] :: recent_data gql_json body_text)\<rparr>)
          (RecentSubmissionList (JStr (lit ''alice''))))
     = Inr None
   \<and> isl (snd (graphqlRequest_api
          (\<lambda>q. Some \<lparr>status = 200,
                       raw = Wellformed \<lparr>errors = JStr (lit ''down''),
                                          data = (None :: recentAc_data option)\<rparr>\<rparr>)
          (RecentAcSubmissionList (JStr (lit ''alice'')))))"
  by (simp add: graphqlRequest_def graphqlRequest_api_def ok_def lit_def)

text \<open>
  Claim C8, amended. Given a response, the helper with the \<open>raw\<close> guard throws exactly when
  the body is not empty and is not valid JSON, or the status is not 2xx, or the parsed body
  has an \<open>errors\<close> array that is not empty; it reads the empty body as \<open>{}\<close>. The helper of
  \<open>src/api/fetchSolved.js\<close> throws exactly when the body is not valid JSON (the empty body
  too), or the status is not 2xx, or the \<open>errors\<close> of the parsed body has a truthy
  \<open>length\<close>: it is a non-empty array, a non-empty string, or an object with a truthy
  \<open>length\<close>. Otherwise each helper returns the \<open>data\<close> of the body, or \<open>{}\<close> (\<open>None\<close>) when
  \<open>data\<close> is absent or falsy.
\<close>

theorem graphqlRequest_throws_iff:
  "fetch payload = Some response \<Longrightarrow>
     (isl (snd (graphqlRequest fetch payload)) \<longleftrightarrow>
        (\<exists>t. raw response = Malformed t \<and> t \<noteq> [])
        \<or> \<not> ok response
        \<or> (\<exists>json e es. raw response = Wellformed json \<and> errors json = JArr (e # es)))
     \<and> (\<not> isl (snd (graphqlRequest fetch payload)) \<longrightarrow>
          snd (graphqlRequest fetch payload)
            = Inr (case raw response of Malformed t \<Rightarrow> None | Wellformed json \<Rightarrow> data json))
     \<and> (isl (snd (graphqlRequest_api fetch payload)) \<longleftrightarrow>
        (\<exists>t. raw response = Malformed t)
        \<or> \<not> ok response
        \<or> (\<exists>json. raw response = Wellformed json
              \<and> ((\<exists>e es. errors json = JArr (e # es)) \<or> (\<exists>c cs. errors json = JStr (c # cs))
                  \<or> (\<exists>kvs. errors json = JObj kvs
                        \<and> truthy (get_prop (errors json) (lit ''length''))))))
     \<and> (\<not> isl (snd (graphqlRequest_api fetch payload)) \<longrightarrow>
          snd (graphqlRequest_api fetch payload)
            = Inr (case raw response of Malformed t \<Rightarrow> None | Wellformed json \<Rightarrow> data json))"
  using graphqlRequest_part_throws_iff [of fetch payload response]
    graphqlRequest_api_throws_iff [of fetch payload response]
  unfolding truthy_js_length by blast

theorem graphqlRequest_throws_iff_witness:
  "isl (snd (graphqlRequest
          (\<lambda>q. Some \<lparr>status = 200,
             raw = Wellformed \<lparr>errors = JArr [JObj [(lit ''message'', JStr (lit ''That user does not exist.''))]],
                                data = (None :: recent_data option)\<rparr>\<rparr>)
          (RecentSubmissionList (JStr (lit ''alice'')))))
   \<and> snd (graphqlRequest
          (\<lambda>q. Some \<lparr>status = 200,
             raw = Wellformed \<lparr>errors = JUndefined,
                                data = Some \<lparr>recentSubmissionList = Some []\<rparr>\<rparr>\<rparr>)
          (RecentSubmissionList (JStr (lit ''alice''))))
      = Inr (Some \<lparr>recentSubmissionList = Some []\<rparr>)
   \<and> isl (snd (graphqlRequest_api
          (\<lambda>q. Some \<lparr>status = 200, raw = (Malformed [] :: recent_data gql_json body_text)\<rparr>)
          (RecentSubmissionList (JStr (lit ''alice'')))))
   \<and> snd (graphqlRequest_api
          (\<lambda>q. Some \<lparr>status = 200,
             raw = Wellformed \<lparr>errors = JArr [],
                                data = Some \<lparr>recentSubmissionList = Some []\<rparr>\<rparr>\<rparr>)
          (RecentSubmissionList (JStr (lit ''alice''))))
      = Inr (Some \<lparr>recentSubmissionList = Some []\<rparr>)"
proof -
  let ?q = "RecentSubmissionList (JStr (lit ''alice''))"
  let ?r1 = "\<lparr>status = 200,
             raw = Wellformed \<lparr>errors = JArr [JObj [(lit ''message'', JStr (lit ''That user does not exist.''))]],
                                data = (None :: recent_data option)\<rparr>\<rparr>"
  let ?r2 = "\<lparr>status = 200,
             raw = Wellformed \<lparr>errors = JUndefined,
                                data = Some \<lparr>recentSubmissionList = Some []\<rparr>\<rparr>\<rparr>"
  let ?r3 = "\<lparr>status = 200, raw = (Malformed [] :: recent_data gql_json body_text)\<rparr>"
  let ?r4 = "\<lparr>status = 200,
             raw = Wellformed \<lparr>errors = JArr [],
                                data = Some \<lparr>recentSubmissionList = Some []\<rparr>\<rparr>\<rparr>"
  have 1: "isl (snd (graphqlRequest (\<lambda>q. Some ?r1) ?q))"
    using graphqlRequest_throws_iff [of "\<lambda>q. Some ?r1" ?q ?r1] by simp
  have "\<not> isl (snd (graphqlRequest (\<lambda>q. Some ?r2) ?q))"
    using graphqlRequest_throws_iff [of "\<lambda>q. Some ?r2" ?q ?r2] by (simp add: ok_def)
  then have 2: "snd (graphqlRequest (\<lambda>q. Some ?r2) ?q) = Inr (Some \<lparr>recentSubmissionList = Some []\<rparr>)"
    using graphqlRequest_throws_iff [of "\<lambda>q. Some ?r2" ?q ?r2] by simp
  have 3: "isl (snd (graphqlRequest_api (\<lambda>q. Some ?r3) ?q))"
    using graphqlRequest_throws_iff [of "\<lambda>q. Some ?r3" ?q ?r3] by simp
  have ok4: "ok ?r4"
    by (simp add: ok_def)
  note T4 = graphqlRequest_throws_iff [of "\<lambda>q. Some ?r4" ?q ?r4, OF refl]
  have a4: "\<not> isl (snd (graphqlRequest_api (\<lambda>q. Some ?r4) ?q))"
    using T4 ok4 by simp
  have 4: "snd (graphqlRequest_api (\<lambda>q. Some ?r4) ?q) = Inr (Some \<lparr>recentSubmissionList = Some []\<rparr>)"
    using T4 a4 by simp
  from 1 2 3 4 show ?thesis by simp
qed

section \<open>Lemmas on the handler\<close>

lemma get_prop_body_or_empty:
  "get_prop (if truthy b then b else JObj []) k = get_prop b k"
  by (cases b) auto

lemma handler_OPTIONS:
  "req_method req = lit ''OPTIONS'' \<Longrightarrow> handler up req = ([], \<lparr>res_status = 200, res_body = End\<rparr>)"
  by (simp add: handler_def)

lemma lit_POST_OPTIONS: "lit ''POST'' \<noteq> lit ''OPTIONS''"
  by (simp add: lit_def)

lemma handler_not_POST:
  "req_method req \<noteq> lit ''OPTIONS'' \<Longrightarrow> req_method req \<noteq> lit ''POST'' \<Longrightarrow>
     handler up req =
       ([], \<lparr>res_status = 405,
             res_body = Json (JObj [(lit ''error'', JStr (lit ''Only POST allowed''))])\<rparr>)"
  by (simp add: handler_def)

lemma handler_no_username:
  assumes "req_method req = lit ''POST''"
    and "\<not> (\<exists>s. get_prop (body req) (lit ''username'') = JStr s \<and> trim s \<noteq> [])"
  shows "handler up req =
       ([], \<lparr>res_status = 400,
             res_body = Json (JObj [(lit ''error'', JStr (lit ''Username is required''))])\<rparr>)"
  using assms
  by (cases "get_prop (body req) (lit ''username'')")
     (auto simp: handler_def lit_POST_OPTIONS get_prop_body_or_empty Let_def)

lemma handler_POST:
  assumes "req_method req = lit ''POST''"
    and "get_prop (body req) (lit ''username'') = JStr s" and "trim s \<noteq> []"
  shows "handler up req =
     (case fetchRecentSubmissions (graphql_recent up) (JStr (trim s)) of
        (log1, Inl err) \<Rightarrow> (log1, \<lparr>res_status = 500, res_body = ServerError err\<rparr>)
      | (log1, Inr recentSolved) \<Rightarrow>
          if \<not> (get_prop (body req) (lit ''responseFormat'') = JStr (lit ''v2'')
                 \<or> get_prop (body req) (lit ''includeFullHistory'') = JBool True)
          then (log1, \<lparr>res_status = 200,
                        res_body = Json (JArr (map submission_json recentSolved))\<rparr>)
          else (case full_history (fetchAllAcceptedSlugsFromGraphQL (graphql_list up))
                        up (JStr (trim s)) recentSolved of
                  (sent, response) \<Rightarrow> (log1 @ sent, response)))"
proof -
  have "s \<noteq> []" using assms(3) by (auto simp: trim_Nil)
  then show ?thesis using assms
    by (simp add: handler_def lit_POST_OPTIONS get_prop_body_or_empty Let_def
          split: prod.splits sum.splits)
qed


lemma handler_api_v2:
  assumes "req_method req = lit ''POST''"
    and "body req \<noteq> JUndefined" and "body req \<noteq> JNull"
    and "truthy (get_prop (body req) (lit ''username''))"
    and "snd (fetchRecentAcceptedSubmissions (graphql_recentAc up)
                (get_prop (body req) (lit ''username''))) = Inr recentSolved"
  shows "handler_api up req =
     (fst (fetchRecentAcceptedSubmissions (graphql_recentAc up) (get_prop (body req) (lit ''username'')))
        @ fst (full_history (fetchAllAcceptedSlugs (graphql_list up))
                 up (get_prop (body req) (lit ''username'')) recentSolved),
      Inr (snd (full_history (fetchAllAcceptedSlugs (graphql_list up))
             up (get_prop (body req) (lit ''username'')) recentSolved)))"
  using assms
  by (auto simp: handler_api_def lit_POST_OPTIONS Let_def split: prod.splits sum.splits)

lemma handler_api_OPTIONS:
  "req_method req = lit ''OPTIONS'' \<Longrightarrow>
     handler_api up req = ([], Inr \<lparr>res_status = 200, res_body = End\<rparr>)"
  by (simp add: handler_api_def)

lemma handler_api_not_POST:
  "req_method req \<noteq> lit ''OPTIONS'' \<Longrightarrow> req_method req \<noteq> lit ''POST'' \<Longrightarrow>
     handler_api up req =
       ([], Inr \<lparr>res_status = 405,
                 res_body = Json (JObj [(lit ''error'', JStr (lit ''Only POST allowed''))])\<rparr>)"
  by (simp add: handler_api_def)

lemma handler_api_no_body:
  "req_method req = lit ''POST'' \<Longrightarrow> body req = JUndefined \<or> body req = JNull \<Longrightarrow>
     handler_api up req = ([], Inl TypeError)"
  by (simp add: handler_api_def lit_POST_OPTIONS)

lemma handler_api_no_username:
  "req_method req = lit ''POST'' \<Longrightarrow> body req \<noteq> JUndefined \<Longrightarrow> body req \<noteq> JNull \<Longrightarrow>
   \<not> truthy (get_prop (body req) (lit ''username'')) \<Longrightarrow>
     handler_api up req =
       ([], Inr \<lparr>res_status = 400,
                 res_body = Json (JObj [(lit ''error'', JStr (lit ''Username is required''))])\<rparr>)"
  by (simp add: handler_api_def lit_POST_OPTIONS Let_def)

lemma handler_api_throw:
  assumes "req_method req = lit ''POST''"
    and "body req \<noteq> JUndefined" and "body req \<noteq> JNull"
    and "truthy (get_prop (body req) (lit ''username''))"
    and "snd (fetchRecentAcceptedSubmissions (graphql_recentAc up)
                (get_prop (body req) (lit ''username''))) = Inl err"
  shows "snd (handler_api up req) = Inr \<lparr>res_status = 500, res_body = ServerError err\<rparr>"
  using assms
  by (auto simp: handler_api_def lit_POST_OPTIONS Let_def split: prod.splits sum.splits)

lemma full_history_shape:
  "\<exists>source allSolvedSlugs.
      snd (full_history graphql_history up username recentSolved)
        = \<lparr>res_status = 200, res_body = Json (result_json source recentSolved allSolvedSlugs)\<rparr>
      \<and> (source = lit ''full'' \<or> source = lit ''recent'')"
  by (auto simp: full_history_def Let_def split: prod.splits sum.splits)

lemma full_history_log_after_throw:
  "snd (graphql_history username) = Inl e \<Longrightarrow>
     fst (full_history graphql_history up username recentSolved)
       = fst (graphql_history username)
         @ fst (fetchAllAcceptedSlugsFromPublicApi (public_api up) username)"
  by (auto simp: full_history_def Let_def split: prod.splits sum.splits)

lemma full_history_recent:
  "snd (graphql_history username) = Inl e \<Longrightarrow>
   isl (snd (fetchAllAcceptedSlugsFromPublicApi (public_api up) username))
     \<or> snd (fetchAllAcceptedSlugsFromPublicApi (public_api up) username) = Inr [] \<Longrightarrow>
     snd (full_history graphql_history up username recentSolved)
       = \<lparr>res_status = 200,
          res_body = Json (result_json (lit ''recent'') recentSolved
                       (dedupeSlugs (Some (map (\<lambda>item. Some (titleSlug item)) recentSolved))))\<rparr>"
  by (auto simp: full_history_def Let_def split: prod.splits sum.splits)

lemma example_sorted:
  "dedupe_and_sort example_list =
     [\<lparr>title = JStr (lit ''a''), titleSlug = lit ''a'', timestamp = 5\<rparr>,
      \<lparr>title = JStr (lit ''b''), titleSlug = lit ''b'', timestamp = 2\<rparr>]"
  by (simp add: dedupe_and_sort_def example_list_def recent_forEach_def Number_or_0_def
        Number_of_int_safe js_sort_def by_timestamp_def trim_def isWhiteSpace_def lit_def Let_def)

lemma recent_only_fetch:
  "fetchRecentSubmissions (graphql_recent upstream_recent_only) u
     = ([GraphQLCall (RecentSubmissionList u)], Inr (dedupe_and_sort example_list))"
  by (simp add: fetchRecentSubmissions_def graphqlRequest_def upstream_recent_only_def ok_def
        array_or_empty_def)

lemma down_fetch:
  "fetchRecentSubmissions (graphql_recent upstream_down) u
     = ([GraphQLCall (RecentSubmissionList u)], Inl FetchRejected)"
  by (simp add: fetchRecentSubmissions_def graphqlRequest_def upstream_down_def)

section \<open>C7: the status by method and username\<close>

text \<open>
  Claim C7, as stated: a request with an empty or missing username gets 400 whatever its
  method, OPTIONS apart. Both handlers test the method first: a GET request with no username
  gets 405.
\<close>

theorem handler_GET_counterexample:
  "snd (handler upstream_down \<lparr>req_method = lit ''GET'', body = JObj []\<rparr>)
     = \<lparr>res_status = 405,
        res_body = Json (JObj [(lit ''error'', JStr (lit ''Only POST allowed''))])\<rparr>
   \<and> snd (handler_api upstream_down \<lparr>req_method = lit ''GET'', body = JObj []\<rparr>)
     = Inr \<lparr>res_status = 405,
            res_body = Json (JObj [(lit ''error'', JStr (lit ''Only POST allowed''))])\<rparr>"
proof -
  have "lit ''GET'' \<noteq> lit ''OPTIONS''" "lit ''GET'' \<noteq> lit ''POST''"
    by (simp_all add: lit_def)
  then show ?thesis by (simp add: handler_not_POST handler_api_not_POST)
qed

text \<open>
  Claim C7, amended. In both handlers, every OPTIONS request receives status 200; every
  request whose method is neither OPTIONS nor POST receives status 405, whatever its
  username; and every POST request that has a body (\<open>req.body\<close> is neither \<open>undefined\<close> nor
  \<open>null\<close>) whose username is missing (\<open>undefined\<close> or \<open>null\<close>) or the empty string receives
  status 400.
\<close>

theorem handler_status_by_method:
  "(req_method req = lit ''OPTIONS'' \<longrightarrow>
      snd (handler up req) = \<lparr>res_status = 200, res_body = End\<rparr>
      \<and> snd (handler_api up req) = Inr \<lparr>res_status = 200, res_body = End\<rparr>)
   \<and> (req_method req \<noteq> lit ''OPTIONS'' \<and> req_method req \<noteq> lit ''POST'' \<longrightarrow>
      snd (handler up req)
        = \<lparr>res_status = 405,
           res_body = Json (JObj [(lit ''error'', JStr (lit ''Only POST allowed''))])\<rparr>
      \<and> snd (handler_api up req)
        = Inr \<lparr>res_status = 405,
               res_body = Json (JObj [(lit ''error'', JStr (lit ''Only POST allowed''))])\<rparr>)
   \<and> (req_method req = lit ''POST'' \<and> body req \<noteq> JUndefined \<and> body req \<noteq> JNull
        \<and> get_prop (body req) (lit ''username'') \<in> {JUndefined, JNull, JStr []} \<longrightarrow>
      snd (handler up req)
        = \<lparr>res_status = 400,
           res_body = Json (JObj [(lit ''error'', JStr (lit ''Username is required''))])\<rparr>
      \<and> snd (handler_api up req)
        = Inr \<lparr>res_status = 400,
               res_body = Json (JObj [(lit ''error'', JStr (lit ''Username is required''))])\<rparr>)"
proof (intro conjI impI)
  assume a: "req_method req = lit ''POST'' \<and> body req \<noteq> JUndefined \<and> body req \<noteq> JNull
        \<and> get_prop (body req) (lit ''username'') \<in> {JUndefined, JNull, JStr []}"
  then have f: "\<not> truthy (get_prop (body req) (lit ''username''))"
    by auto
  have n: "\<not> (\<exists>s. get_prop (body req) (lit ''username'') = JStr s \<and> trim s \<noteq> [])"
    using a by (auto simp: trim_Nil)
  show "snd (handler up req)
        = \<lparr>res_status = 400,
           res_body = Json (JObj [(lit ''error'', JStr (lit ''Username is required''))])\<rparr>"
    using a n by (simp add: handler_no_username)
  show "snd (handler_api up req)
        = Inr \<lparr>res_status = 400,
               res_body = Json (JObj [(lit ''error'', JStr (lit ''Username is required''))])\<rparr>"
    using a f by (simp add: handler_api_no_username)
qed (simp_all add: handler_OPTIONS handler_not_POST handler_api_OPTIONS handler_api_not_POST)

theorem handler_status_by_method_witness:
  "res_status (snd (handler upstream_down \<lparr>req_method = lit ''OPTIONS'', body = JUndefined\<rparr>)) = 200
   \<and> snd (handler_api upstream_down \<lparr>req_method = lit ''OPTIONS'', body = JUndefined\<rparr>)
       = Inr \<lparr>res_status = 200, res_body = End\<rparr>
   \<and> res_status (snd (handler upstream_down \<lparr>req_method = lit ''PUT'', body = JObj []\<rparr>)) = 405
   \<and> res_status (snd (handler upstream_down
         \<lparr>req_method = lit ''POST'', body = JObj [(lit ''username'', JStr [])]\<rparr>)) = 400
   \<and> snd (handler_api upstream_down \<lparr>req_method = lit ''POST'', body = JObj []\<rparr>)
       = Inr \<lparr>res_status = 400,
              res_body = Json (JObj [(lit ''error'', JStr (lit ''Username is required''))])\<rparr>"
proof -
  have 1: "res_status (snd (handler upstream_down \<lparr>req_method = lit ''OPTIONS'', body = JUndefined\<rparr>)) = 200"
      "snd (handler_api upstream_down \<lparr>req_method = lit ''OPTIONS'', body = JUndefined\<rparr>)
       = Inr \<lparr>res_status = 200, res_body = End\<rparr>"
    using handler_status_by_method [of "\<lparr>req_method = lit ''OPTIONS'', body = JUndefined\<rparr>" upstream_down]
    by simp_all
  have 2: "res_status (snd (handler upstream_down \<lparr>req_method = lit ''PUT'', body = JObj []\<rparr>)) = 405"
    using handler_status_by_method [of "\<lparr>req_method = lit ''PUT'', body = JObj []\<rparr>" upstream_down]
    by (simp add: lit_def)
  have 3: "res_status (snd (handler upstream_down
         \<lparr>req_method = lit ''POST'', body = JObj [(lit ''username'', JStr [])]\<rparr>)) = 400"
    using handler_status_by_method
      [of "\<lparr>req_method = lit ''POST'', body = JObj [(lit ''username'', JStr [])]\<rparr>" upstream_down]
    by simp
  have 4: "snd (handler_api upstream_down \<lparr>req_method = lit ''POST'', body = JObj []\<rparr>)
       = Inr \<lparr>res_status = 400,
              res_body = Json (JObj [(lit ''error'', JStr (lit ''Username is required''))])\<rparr>"
    using handler_status_by_method [of "\<lparr>req_method = lit ''POST'', body = JObj []\<rparr>" upstream_down]
    by simp
  from 1 2 3 4 show ?thesis by simp
qed

text \<open>
  Beyond the claim: the handler with the legacy mode also answers 400 to a POST request with
  no body, and to one whose username is not a string or is white space only; the handler of
  \<open>src/api/fetchSolved.js\<close> throws on a POST request with no body, outside its \<open>try\<close>, and
  answers 400 to every falsy username and to no other.
\<close>

lemma handler_username_required:
  "req_method req = lit ''POST'' \<Longrightarrow>
     \<not> (\<exists>s. get_prop (body req) (lit ''username'') = JStr s \<and> trim s \<noteq> []) \<Longrightarrow>
     res_status (snd (handler up req)) = 400"
  by (simp add: handler_no_username)

lemma handler_api_status_by_method:
  "(req_method req = lit ''POST'' \<and> (body req = JUndefined \<or> body req = JNull)
        \<longrightarrow> snd (handler_api up req) = Inl TypeError)
   \<and> (req_method req = lit ''POST'' \<and> body req \<noteq> JUndefined \<and> body req \<noteq> JNull
        \<and> \<not> truthy (get_prop (body req) (lit ''username''))
        \<longrightarrow> (\<exists>b. snd (handler_api up req) = Inr \<lparr>res_status = 400, res_body = b\<rparr>))"
  by (simp add: handler_api_def lit_POST_OPTIONS Let_def)

section \<open>Lemmas on the example upstreams\<close>

lemma graphql_pages_throw:
  "page < maxPages \<Longrightarrow> request (SubmissionList offset pageSize username) = (sent, Inl e) \<Longrightarrow>
     graphql_pages request username page offset accepted log = (log @ sent, Inl e)"
  by (subst graphql_pages.simps) simp

lemma down_graphql:
  "fetchAllAcceptedSlugsFromGraphQL (graphql_list upstream_recent_only) u
     = ([GraphQLCall (SubmissionList 0 20 u)], Inl FetchRejected)"
proof -
  have "graphql_pages (graphqlRequest (graphql_list upstream_recent_only)) u 0 0 [] []
          = ([] @ [GraphQLCall (SubmissionList 0 pageSize u)], Inl FetchRejected)"
    by (rule graphql_pages_throw)
       (simp_all add: maxPages_def graphqlRequest_def upstream_recent_only_def)
  then show ?thesis by (simp add: fetchAllAcceptedSlugsFromGraphQL_def pageSize_def)
qed

lemma down_graphql_api:
  "fetchAllAcceptedSlugs (graphql_list upstream_recent_only) u
     = ([GraphQLCall (SubmissionList 0 20 u)], Inl FetchRejected)"
proof -
  have "graphql_pages (graphqlRequest_api (graphql_list upstream_recent_only)) u 0 0 [] []
          = ([] @ [GraphQLCall (SubmissionList 0 pageSize u)], Inl FetchRejected)"
    by (rule graphql_pages_throw)
       (simp_all add: maxPages_def graphqlRequest_api_def upstream_recent_only_def)
  then show ?thesis by (simp add: fetchAllAcceptedSlugs_def pageSize_def)
qed

lemma alice_encodes: "encodeURIComponent_error (JStr (lit ''alice'')) = None"
  by (simp add: encodeURIComponent_string is_high_surrogate_def is_low_surrogate_def lit_def)

lemma down_public:
  "encodeURIComponent_error u = None \<Longrightarrow>
   fetchAllAcceptedSlugsFromPublicApi (public_api upstream_recent_only) u
     = ([PublicApiCall u 0 20], Inl FetchRejected)"
  by (subst fetchAllAcceptedSlugsFromPublicApi_def, subst public_pages.simps)
     (simp add: maxPages_def pageSize_def upstream_recent_only_def)

lemma example_slugs:
  "dedupeSlugs (Some (map (\<lambda>item. Some (titleSlug item)) (dedupe_and_sort example_list)))
     = [lit ''a'', lit ''b'']"
  by (simp add: example_sorted dedupeSlugs_def new_Set_def Set_add_def slug_or_empty_def
        trim_def isWhiteSpace_def lit_def)

lemma recent_only_fetch_api:
  "fetchRecentAcceptedSubmissions (graphql_recentAc upstream_recent_only) u
     = ([GraphQLCall (RecentAcSubmissionList u)], Inr (dedupe_and_sort example_list))"
  by (simp add: fetchRecentAcceptedSubmissions_def graphqlRequest_api_def upstream_recent_only_def
        ok_def array_or_empty_def)

lemma example_api_response:
  "handler_api upstream_recent_only
       \<lparr>req_method = lit ''POST'', body = JObj [(lit ''username'', JStr (lit ''alice''))]\<rparr>
     = ([GraphQLCall (RecentAcSubmissionList (JStr (lit ''alice''))),
         GraphQLCall (SubmissionList 0 20 (JStr (lit ''alice''))),
         PublicApiCall (JStr (lit ''alice'')) 0 20],
        Inr \<lparr>res_status = 200,
             res_body = Json (result_json (lit ''recent'') (dedupe_and_sort example_list)
                                [lit ''a'', lit ''b''])\<rparr>)"
proof -
  let ?req = "\<lparr>req_method = lit ''POST'', body = JObj [(lit ''username'', JStr (lit ''alice''))]\<rparr>"
  have t: "lit ''alice'' \<noteq> []"
    by (simp add: lit_def)
  let ?G = "fetchAllAcceptedSlugs (graphql_list upstream_recent_only)"
  have f: "full_history ?G upstream_recent_only (JStr (lit ''alice'')) (dedupe_and_sort example_list)
       = ([GraphQLCall (SubmissionList 0 20 (JStr (lit ''alice''))),
           PublicApiCall (JStr (lit ''alice'')) 0 20],
          \<lparr>res_status = 200,
           res_body = Json (result_json (lit ''recent'') (dedupe_and_sort example_list)
                              [lit ''a'', lit ''b''])\<rparr>)"
    by (simp add: full_history_def down_graphql_api down_public [OF alice_encodes] example_slugs)
  show ?thesis
    using handler_api_v2 [of ?req upstream_recent_only "dedupe_and_sort example_list"] t
    by (simp add: recent_only_fetch_api f)
qed

lemma lit_source_keys: "lit ''source'' \<noteq> lit ''error''" "lit ''source'' \<noteq> lit ''details''"
  by (simp_all add: lit_def)

section \<open>C2: the legacy mode\<close>

text \<open>
  Claim C2, as stated: every POST request with a non-empty username and neither
  \<open>responseFormat\<close> nor \<open>includeFullHistory\<close> gets status 200 with the bare array
  \<open>recentSolved\<close>, and never an object with a \<open>source\<close> key. In the handler with the legacy
  mode, a username of white space only is not empty and gets 400, and when the
  recent-submissions fetch throws, the request gets 500. The handler of
  \<open>src/api/fetchSolved.js\<close> has no legacy mode: it answers such a request with the object that
  has the \<open>source\<close> key.
\<close>

theorem handler_legacy_counterexample:
  "res_status (snd (handler upstream_recent_only
       \<lparr>req_method = lit ''POST'', body = JObj [(lit ''username'', JStr (lit '' ''))]\<rparr>)) = 400
   \<and> res_status (snd (handler upstream_down
       \<lparr>req_method = lit ''POST'', body = JObj [(lit ''username'', JStr (lit ''alice''))]\<rparr>)) = 500
   \<and> snd (handler_api upstream_recent_only
       \<lparr>req_method = lit ''POST'', body = JObj [(lit ''username'', JStr (lit ''alice''))]\<rparr>)
       = Inr \<lparr>res_status = 200,
              res_body = Json (JObj
                [(lit ''source'', JStr (lit ''recent'')),
                 (lit ''recentSolved'', JArr
                    [JObj [(lit ''title'', JStr (lit ''a'')), (lit ''titleSlug'', JStr (lit ''a'')),
                           (lit ''timestamp'', JNum 5)],
                     JObj [(lit ''title'', JStr (lit ''b'')), (lit ''titleSlug'', JStr (lit ''b'')),
                           (lit ''timestamp'', JNum 2)]]),
                 (lit ''allSolvedSlugs'', JArr [JStr (lit ''a''), JStr (lit ''b'')]),
                 (lit ''counts'', JObj [(lit ''recentSolved'', JNum 2), (lit ''allSolved'', JNum 2)])])\<rparr>"
proof -
  have t: "trim (lit '' '') = []" "trim (lit ''alice'') = lit ''alice''" "lit ''alice'' \<noteq> []"
    by (simp_all add: trim_def isWhiteSpace_def lit_def)
  have 1: "res_status (snd (handler upstream_recent_only
       \<lparr>req_method = lit ''POST'', body = JObj [(lit ''username'', JStr (lit '' ''))]\<rparr>)) = 400"
    by (subst handler_no_username) (simp_all add: t)
  have u: "lit ''username'' \<noteq> lit ''responseFormat''" "lit ''username'' \<noteq> lit ''includeFullHistory''"
    by (simp_all add: lit_def)
  have 2: "res_status (snd (handler upstream_down
       \<lparr>req_method = lit ''POST'', body = JObj [(lit ''username'', JStr (lit ''alice''))]\<rparr>)) = 500"
    by (subst handler_POST [where s = "lit ''alice''"]) (simp_all add: t u down_fetch)
  have 3: "snd (handler_api upstream_recent_only
       \<lparr>req_method = lit ''POST'', body = JObj [(lit ''username'', JStr (lit ''alice''))]\<rparr>)
       = Inr \<lparr>res_status = 200,
              res_body = Json (result_json (lit ''recent'') (dedupe_and_sort example_list)
                                [lit ''a'', lit ''b''])\<rparr>"
    by (simp add: example_api_response)
  from 1 2 show ?thesis
    unfolding 3 by (simp add: result_json_def example_sorted submission_json_def number_json_def)
qed

text \<open>
  Claim C2, amended. In the handler with the legacy mode (\<open>src/unnamed/part_000\<close>): for every
  POST request whose username is a string that is not empty after trimming, and which asks
  for no v2 response (\<open>responseFormat\<close> is not \<open>'v2'\<close> and \<open>includeFullHistory\<close> is not \<open>true\<close>;
  in particular when neither is supplied), when the recent-submissions fetch for the trimmed
  username returns \<open>recentSolved\<close>, the response is 200 with the bare array \<open>recentSolved\<close>;
  when it throws, the response is 500; and in neither case is the body an object with a
  \<open>source\<close> key. In the handler of \<open>src/api/fetchSolved.js\<close>, which has no legacy mode: for
  every POST request that has a body with a truthy username, when the recent-submissions
  fetch for the username returns \<open>recentSolved\<close>, the response is 200 with the object
  \<open>{ source, recentSolved, allSolvedSlugs, counts }\<close>, which has a \<open>source\<close> key, whatever
  \<open>responseFormat\<close> and \<open>includeFullHistory\<close> are; when it throws, the response is 500.
\<close>

theorem handler_legacy_mode:
  "(req_method req = lit ''POST''
      \<and> get_prop (body req) (lit ''username'') = JStr s \<and> trim s \<noteq> []
      \<and> get_prop (body req) (lit ''responseFormat'') \<noteq> JStr (lit ''v2'')
      \<and> get_prop (body req) (lit ''includeFullHistory'') \<noteq> JBool True \<longrightarrow>
        (\<forall>recentSolved.
            snd (fetchRecentSubmissions (graphql_recent up) (JStr (trim s))) = Inr recentSolved
            \<longrightarrow> snd (handler up req)
                  = \<lparr>res_status = 200, res_body = Json (JArr (map submission_json recentSolved))\<rparr>)
        \<and> (\<forall>err.
            snd (fetchRecentSubmissions (graphql_recent up) (JStr (trim s))) = Inl err
            \<longrightarrow> snd (handler up req) = \<lparr>res_status = 500, res_body = ServerError err\<rparr>)
        \<and> \<not> has_key (res_body (snd (handler up req))) (lit ''source''))
   \<and> (req_method req = lit ''POST'' \<and> body req \<noteq> JUndefined \<and> body req \<noteq> JNull
      \<and> truthy (get_prop (body req) (lit ''username'')) \<longrightarrow>
        (\<forall>recentSolved.
            snd (fetchRecentAcceptedSubmissions (graphql_recentAc up)
                   (get_prop (body req) (lit ''username''))) = Inr recentSolved
            \<longrightarrow> (\<exists>source allSolvedSlugs.
                   snd (handler_api up req)
                     = Inr \<lparr>res_status = 200,
                            res_body = Json (result_json source recentSolved allSolvedSlugs)\<rparr>
                   \<and> has_key (Json (result_json source recentSolved allSolvedSlugs))
                        (lit ''source'')))
        \<and> (\<forall>err.
            snd (fetchRecentAcceptedSubmissions (graphql_recentAc up)
                   (get_prop (body req) (lit ''username''))) = Inl err
            \<longrightarrow> snd (handler_api up req) = Inr \<lparr>res_status = 500, res_body = ServerError err\<rparr>))"
proof (intro conjI impI allI)
  assume a: "req_method req = lit ''POST''
      \<and> get_prop (body req) (lit ''username'') = JStr s \<and> trim s \<noteq> []
      \<and> get_prop (body req) (lit ''responseFormat'') \<noteq> JStr (lit ''v2'')
      \<and> get_prop (body req) (lit ''includeFullHistory'') \<noteq> JBool True"
  then have h: "handler up req =
     (case fetchRecentSubmissions (graphql_recent up) (JStr (trim s)) of
        (log1, Inl err) \<Rightarrow> (log1, \<lparr>res_status = 500, res_body = ServerError err\<rparr>)
      | (log1, Inr recentSolved) \<Rightarrow>
          (log1, \<lparr>res_status = 200, res_body = Json (JArr (map submission_json recentSolved))\<rparr>))"
    by (simp add: handler_POST [where s = s] split: prod.splits sum.splits)
  show "\<not> has_key (res_body (snd (handler up req))) (lit ''source'')"
    unfolding h by (simp add: lit_source_keys split: prod.splits sum.splits)
  show "snd (handler up req)
          = \<lparr>res_status = 200, res_body = Json (JArr (map submission_json recentSolved))\<rparr>"
    if "snd (fetchRecentSubmissions (graphql_recent up) (JStr (trim s))) = Inr recentSolved"
    for recentSolved
    using that unfolding h by (auto split: prod.splits)
  show "snd (handler up req) = \<lparr>res_status = 500, res_body = ServerError err\<rparr>"
    if "snd (fetchRecentSubmissions (graphql_recent up) (JStr (trim s))) = Inl err" for err
    using that unfolding h by (auto split: prod.splits)
next
  fix recentSolved
  assume a: "req_method req = lit ''POST'' \<and> body req \<noteq> JUndefined \<and> body req \<noteq> JNull
      \<and> truthy (get_prop (body req) (lit ''username''))"
    and r: "snd (fetchRecentAcceptedSubmissions (graphql_recentAc up)
                   (get_prop (body req) (lit ''username''))) = Inr recentSolved"
  let ?u = "get_prop (body req) (lit ''username'')"
  from a r have h: "snd (handler_api up req)
      = Inr (snd (full_history (fetchAllAcceptedSlugs (graphql_list up)) up ?u recentSolved))"
    by (simp add: handler_api_v2)
  obtain source allSolvedSlugs where
    "snd (full_history (fetchAllAcceptedSlugs (graphql_list up)) up ?u recentSolved)
       = \<lparr>res_status = 200, res_body = Json (result_json source recentSolved allSolvedSlugs)\<rparr>"
    using full_history_shape [of "fetchAllAcceptedSlugs (graphql_list up)" up ?u recentSolved]
    by blast
  moreover have "has_key (Json (result_json source recentSolved allSolvedSlugs)) (lit ''source'')"
    by (simp add: result_json_def)
  ultimately show "\<exists>source allSolvedSlugs.
         snd (handler_api up req)
           = Inr \<lparr>res_status = 200,
                  res_body = Json (result_json source recentSolved allSolvedSlugs)\<rparr>
         \<and> has_key (Json (result_json source recentSolved allSolvedSlugs)) (lit ''source'')"
    unfolding h by blast
next
  fix err
  assume a: "req_method req = lit ''POST'' \<and> body req \<noteq> JUndefined \<and> body req \<noteq> JNull
      \<and> truthy (get_prop (body req) (lit ''username''))"
    and r: "snd (fetchRecentAcceptedSubmissions (graphql_recentAc up)
                   (get_prop (body req) (lit ''username''))) = Inl err"
  then show "snd (handler_api up req) = Inr \<lparr>res_status = 500, res_body = ServerError err\<rparr>"
    by (simp add: handler_api_throw)
qed

theorem handler_legacy_mode_witness:
  "snd (handler upstream_recent_only
       \<lparr>req_method = lit ''POST'', body = JObj [(lit ''username'', JStr (lit '' alice ''))]\<rparr>)
     = \<lparr>res_status = 200,
        res_body = Json (JArr
          [JObj [(lit ''title'', JStr (lit ''a'')), (lit ''titleSlug'', JStr (lit ''a'')),
                 (lit ''timestamp'', JNum 5)],
           JObj [(lit ''title'', JStr (lit ''b'')), (lit ''titleSlug'', JStr (lit ''b'')),
                 (lit ''timestamp'', JNum 2)]])\<rparr>
   \<and> snd (handler_api upstream_down
       \<lparr>req_method = lit ''POST'', body = JObj [(lit ''username'', JStr (lit ''alice''))]\<rparr>)
     = Inr \<lparr>res_status = 500, res_body = ServerError FetchRejected\<rparr>"
proof -
  let ?req = "\<lparr>req_method = lit ''POST'', body = JObj [(lit ''username'', JStr (lit '' alice ''))]\<rparr>"
  let ?req2 = "\<lparr>req_method = lit ''POST'', body = JObj [(lit ''username'', JStr (lit ''alice''))]\<rparr>"
  have t: "trim (lit '' alice '') \<noteq> []" "lit ''alice'' \<noteq> []"
    by (simp_all add: trim_def isWhiteSpace_def lit_def)
  have u: "lit ''username'' \<noteq> lit ''responseFormat''" "lit ''username'' \<noteq> lit ''includeFullHistory''"
    by (simp_all add: lit_def)
  have "snd (handler upstream_recent_only ?req)
     = \<lparr>res_status = 200, res_body = Json (JArr (map submission_json (dedupe_and_sort example_list)))\<rparr>"
    using handler_legacy_mode [of ?req "lit '' alice ''" upstream_recent_only] t u
    by (simp add: recent_only_fetch)
  then have 1: "snd (handler upstream_recent_only ?req)
     = \<lparr>res_status = 200,
        res_body = Json (JArr
          [JObj [(lit ''title'', JStr (lit ''a'')), (lit ''titleSlug'', JStr (lit ''a'')),
                 (lit ''timestamp'', JNum 5)],
           JObj [(lit ''title'', JStr (lit ''b'')), (lit ''titleSlug'', JStr (lit ''b'')),
                 (lit ''timestamp'', JNum 2)]])\<rparr>"
    by (simp add: example_sorted submission_json_def number_json_def)
  have d: "snd (fetchRecentAcceptedSubmissions (graphql_recentAc upstream_down) (JStr (lit ''alice'')))
             = Inl FetchRejected"
    by (simp add: fetchRecentAcceptedSubmissions_def graphqlRequest_api_def upstream_down_def)
  have 2: "snd (handler_api upstream_down ?req2)
     = Inr \<lparr>res_status = 500, res_body = ServerError FetchRejected\<rparr>"
    using handler_legacy_mode [of ?req2 s upstream_down] t d
    by simp
  from 1 2 show ?thesis by simp
qed

section \<open>C6: the shape of the v2 response\<close>

text \<open>
  Claim C6. For every POST request with \<open>responseFormat: 'v2'\<close> that gets status 200, the
  body is an object with exactly the keys \<open>source\<close>, \<open>recentSolved\<close>, \<open>allSolvedSlugs\<close> and
  \<open>counts\<close>, where \<open>counts.recentSolved\<close> is the length of \<open>recentSolved\<close> and
  \<open>counts.allSolved\<close> is the length of \<open>allSolvedSlugs\<close>; \<open>source\<close> is \<open>'full'\<close> or
  \<open>'recent'\<close>.
\<close>

theorem handler_v2_shape:
  assumes "req_method req = lit ''POST''"
    and "get_prop (body req) (lit ''responseFormat'') = JStr (lit ''v2'')"
    and "res_status (snd (handler up req)) = 200"
  shows "\<exists>source recentSolved allSolvedSlugs.
           res_body (snd (handler up req)) =
             Json (JObj [(lit ''source'', JStr source),
                         (lit ''recentSolved'', JArr recentSolved),
                         (lit ''allSolvedSlugs'', JArr allSolvedSlugs),
                         (lit ''counts'',
                            JObj [(lit ''recentSolved'', JNum (int (length recentSolved))),
                                  (lit ''allSolved'', JNum (int (length allSolvedSlugs)))])])
           \<and> (source = lit ''full'' \<or> source = lit ''recent'')"
proof (cases "\<exists>s. get_prop (body req) (lit ''username'') = JStr s \<and> trim s \<noteq> []")
  case False
  then have "res_status (snd (handler up req)) = 400"
    using assms(1) by (simp add: handler_no_username)
  with assms(3) show ?thesis by simp
next
  case True
  then obtain s where s: "get_prop (body req) (lit ''username'') = JStr s" "trim s \<noteq> []"
    by blast
  obtain log1 r where f: "fetchRecentSubmissions (graphql_recent up) (JStr (trim s)) = (log1, r)"
    by (cases "fetchRecentSubmissions (graphql_recent up) (JStr (trim s))")
  show ?thesis
  proof (cases r)
    case (Inl err)
    then have "res_status (snd (handler up req)) = 500"
      using assms(1) s f by (simp add: handler_POST)
    with assms(3) show ?thesis by simp
  next
    case (Inr recentSolved)
    obtain source allSolvedSlugs where
      h: "snd (full_history (fetchAllAcceptedSlugsFromGraphQL (graphql_list up)) up (JStr (trim s)) recentSolved)
            = \<lparr>res_status = 200, res_body = Json (result_json source recentSolved allSolvedSlugs)\<rparr>"
      and src: "source = lit ''full'' \<or> source = lit ''recent''"
      using full_history_shape by blast
    have "snd (handler up req)
            = \<lparr>res_status = 200, res_body = Json (result_json source recentSolved allSolvedSlugs)\<rparr>"
      using assms(1,2) s f Inr h by (auto simp: handler_POST split: prod.splits)
    then have "res_body (snd (handler up req)) =
             Json (JObj [(lit ''source'', JStr source),
                         (lit ''recentSolved'', JArr (map submission_json recentSolved)),
                         (lit ''allSolvedSlugs'', JArr (map JStr allSolvedSlugs)),
                         (lit ''counts'',
                            JObj [(lit ''recentSolved'', JNum (int (length (map submission_json recentSolved)))),
                                  (lit ''allSolved'', JNum (int (length (map JStr allSolvedSlugs))))])])"
      by (simp add: result_json_def)
    with src show ?thesis by blast
  qed
qed


theorem handler_v2_shape_witness:
  "res_status (snd (handler upstream_recent_only
       \<lparr>req_method = lit ''POST'',
        body = JObj [(lit ''username'', JStr (lit ''alice'')),
                     (lit ''responseFormat'', JStr (lit ''v2''))]\<rparr>)) = 200
   \<and> (\<exists>source recentSolved allSolvedSlugs.
         res_body (snd (handler upstream_recent_only
           \<lparr>req_method = lit ''POST'',
            body = JObj [(lit ''username'', JStr (lit ''alice'')),
                         (lit ''responseFormat'', JStr (lit ''v2''))]\<rparr>)) =
             Json (JObj [(lit ''source'', JStr source),
                         (lit ''recentSolved'', JArr recentSolved),
                         (lit ''allSolvedSlugs'', JArr allSolvedSlugs),
                         (lit ''counts'',
                            JObj [(lit ''recentSolved'', JNum (int (length recentSolved))),
                                  (lit ''allSolved'', JNum (int (length allSolvedSlugs)))])])
           \<and> (source = lit ''full'' \<or> source = lit ''recent''))"
proof -
  let ?req = "\<lparr>req_method = lit ''POST'',
        body = JObj [(lit ''username'', JStr (lit ''alice'')),
                     (lit ''responseFormat'', JStr (lit ''v2''))]\<rparr>"
  have t: "trim (lit ''alice'') = lit ''alice''" "lit ''alice'' \<noteq> []"
    by (simp_all add: trim_def isWhiteSpace_def lit_def)
  have u: "get_prop (body ?req) (lit ''username'') = JStr (lit ''alice'')"
     "get_prop (body ?req) (lit ''responseFormat'') = JStr (lit ''v2'')"
    by (simp_all add: lit_def)
  have hp: "handler upstream_recent_only ?req =
     (case fetchRecentSubmissions (graphql_recent upstream_recent_only) (JStr (trim (lit ''alice''))) of
        (log1, Inl err) \<Rightarrow> (log1, \<lparr>res_status = 500, res_body = ServerError err\<rparr>)
      | (log1, Inr recentSolved) \<Rightarrow>
          if \<not> (get_prop (body ?req) (lit ''responseFormat'') = JStr (lit ''v2'')
                 \<or> get_prop (body ?req) (lit ''includeFullHistory'') = JBool True)
          then (log1, \<lparr>res_status = 200,
                        res_body = Json (JArr (map submission_json recentSolved))\<rparr>)
          else (case full_history (fetchAllAcceptedSlugsFromGraphQL (graphql_list upstream_recent_only))
                        upstream_recent_only (JStr (trim (lit ''alice''))) recentSolved of
                  (sent, response) \<Rightarrow> (log1 @ sent, response)))"
    by (rule handler_POST) (simp_all add: u(1) t)
  obtain source allSolvedSlugs where
    "snd (full_history (fetchAllAcceptedSlugsFromGraphQL (graphql_list upstream_recent_only))
            upstream_recent_only (JStr (lit ''alice'')) (dedupe_and_sort example_list))
       = \<lparr>res_status = 200,
          res_body = Json (result_json source (dedupe_and_sort example_list) allSolvedSlugs)\<rparr>"
    using full_history_shape by blast
  then have st: "res_status (snd (handler upstream_recent_only ?req)) = 200"
    unfolding hp u(2) t(1) recent_only_fetch by (auto split: prod.splits)
  from st handler_v2_shape [of ?req upstream_recent_only, OF _ u(2) st] show ?thesis
    by simp
qed

text \<open>
  The handler of \<open>src/api/fetchSolved.js\<close> answers every successful POST request with the
  same object.
\<close>

lemma handler_api_shape:
  assumes "req_method req = lit ''POST''"
    and "snd (handler_api up req) = Inr response" and "res_status response = 200"
  shows "\<exists>source recentSolved allSolvedSlugs.
           res_body response =
             Json (JObj [(lit ''source'', JStr source),
                         (lit ''recentSolved'', JArr recentSolved),
                         (lit ''allSolvedSlugs'', JArr allSolvedSlugs),
                         (lit ''counts'',
                            JObj [(lit ''recentSolved'', JNum (int (length recentSolved))),
                                  (lit ''allSolved'', JNum (int (length allSolvedSlugs)))])])
           \<and> (source = lit ''full'' \<or> source = lit ''recent'')"
proof -
  let ?u = "get_prop (body req) (lit ''username'')"
  obtain log1 r where f: "fetchRecentAcceptedSubmissions (graphql_recentAc up) ?u = (log1, r)"
    by (cases "fetchRecentAcceptedSubmissions (graphql_recentAc up) ?u")
  have ok: "body req \<noteq> JUndefined" "body req \<noteq> JNull" "truthy ?u"
    using assms by (auto simp: handler_api_def lit_POST_OPTIONS Let_def split: if_splits)
  obtain recentSolved where r: "r = Inr recentSolved"
    using assms ok f by (cases r) (auto simp: handler_api_def lit_POST_OPTIONS Let_def)
  obtain source allSolvedSlugs where
      h: "snd (full_history (fetchAllAcceptedSlugs (graphql_list up)) up ?u recentSolved)
            = \<lparr>res_status = 200, res_body = Json (result_json source recentSolved allSolvedSlugs)\<rparr>"
      and src: "source = lit ''full'' \<or> source = lit ''recent''"
    using full_history_shape by blast
  have "response = \<lparr>res_status = 200, res_body = Json (result_json source recentSolved allSolvedSlugs)\<rparr>"
    using assms(1,2) ok f r h
    by (auto simp: handler_api_def lit_POST_OPTIONS Let_def split: prod.splits)
  then have "res_body response =
             Json (JObj [(lit ''source'', JStr source),
                         (lit ''recentSolved'', JArr (map submission_json recentSolved)),
                         (lit ''allSolvedSlugs'', JArr (map JStr allSolvedSlugs)),
                         (lit ''counts'',
                            JObj [(lit ''recentSolved'', JNum (int (length (map submission_json recentSolved)))),
                                  (lit ''allSolved'', JNum (int (length (map JStr allSolvedSlugs))))])])"
    by (simp add: result_json_def)
  with src show ?thesis by blast
qed

section \<open>Lemmas on the recent-submissions fetcher\<close>

lemma mset_insert_by: "mset (insert_by c a bs) = add_mset a (mset bs)"
  by (induction bs) auto

lemma mset_js_sort: "mset (js_sort c xs) = mset xs"
  by (induction xs) (auto simp: js_sort_def mset_insert_by)

lemma set_js_sort: "set (js_sort c xs) = set xs"
  using mset_js_sort [of c xs] by (metis set_mset_mset)

lemma sorted_insert_by_timestamp:
  "sorted_wrt (\<lambda>a b. timestamp b \<le> timestamp a) bs \<Longrightarrow>
     sorted_wrt (\<lambda>a b. timestamp b \<le> timestamp a) (insert_by by_timestamp a bs)"
proof (induction bs)
  case Nil
  then show ?case by simp
next
  case (Cons b bs)
  have s: "set (insert_by by_timestamp a bs) = insert a (set bs)"
    using mset_insert_by [of by_timestamp a bs] by (metis set_mset_mset set_mset_add_mset_insert)
  show ?case
  proof (cases "by_timestamp a b \<le> 0")
    case True
    then have "timestamp b \<le> timestamp a" by (simp add: by_timestamp_def)
    with Cons.prems True show ?thesis by fastforce
  next
    case False
    then have "timestamp a \<le> timestamp b" by (simp add: by_timestamp_def)
    with Cons False s show ?thesis by auto
  qed
qed

lemma sorted_js_sort:
  "sorted_wrt (\<lambda>a b. timestamp b \<le> timestamp a) (js_sort by_timestamp xs)"
  by (induction xs) (auto simp: js_sort_def sorted_insert_by_timestamp)

lemma distinct_map_js_sort: "distinct (map f (js_sort c xs)) = distinct (map f xs)"
proof -
  have "mset (map f (js_sort c xs)) = mset (map f xs)"
    by (simp add: mset_js_sort)
  then show ?thesis by (rule mset_eq_imp_distinct_iff)
qed

lemma recent_forEach_skip: "item_key item = None \<Longrightarrow> recent_forEach m item = m"
  by (auto simp: item_key_def recent_forEach_def trim_Nil Let_def split: option.splits if_splits)

lemma recent_forEach_key:
  assumes "item_key (Some it) = Some k"
  shows "recent_forEach m (Some it) =
           (if (case map_of m k of None \<Rightarrow> True
                | Some e \<Rightarrow> Number_or_0 (item_timestamp it) > timestamp e)
            then AList.update k (item_record it k) m else m)"
  using assms
  by (auto simp: item_key_def recent_forEach_def item_record_def trim_Nil Let_def
      split: option.splits if_splits)

lemma distinct_recent_forEach:
  "distinct (map fst m) \<Longrightarrow> distinct (map fst (recent_forEach m item))"
proof (cases "item_key item")
  case None
  then show "distinct (map fst m) \<Longrightarrow> ?thesis" by (simp add: recent_forEach_skip)
next
  case (Some k)
  then obtain it where "item = Some it" by (cases item) (auto simp: item_key_def)
  with Some show "distinct (map fst m) \<Longrightarrow> ?thesis"
    by (simp add: recent_forEach_key distinct_update)
qed

lemma distinct_foldl_recent:
  "distinct (map fst m) \<Longrightarrow> distinct (map fst (foldl recent_forEach m list))"
  by (induction list arbitrary: m) (auto simp: distinct_recent_forEach)

lemma from_items_step:
  assumes "from_items m S"
  shows "from_items (recent_forEach m item) (insert item S)"
proof (cases "item_key item")
  case None
  then show ?thesis using assms by (auto simp: recent_forEach_skip from_items_def)
next
  case (Some k)
  then obtain it where it: "item = Some it" by (cases item) (auto simp: item_key_def)
  show ?thesis
    using assms Some
    unfolding it from_items_def
    by (auto simp: recent_forEach_key update_conv' split: if_splits)
qed

lemma covers_items_step:
  assumes "covers_items m S"
  shows "covers_items (recent_forEach m item) (insert item S)"
proof (cases "item_key item")
  case None
  then show ?thesis using assms by (auto simp: recent_forEach_skip covers_items_def)
next
  case (Some k)
  then obtain it where it: "item = Some it" by (cases item) (auto simp: item_key_def)
  have ts: "timestamp (item_record it k) = Number_or_0 (item_timestamp it)"
    by (simp add: item_record_def)
  show ?thesis
    using assms Some ts
    unfolding it covers_items_def
    by (fastforce simp: recent_forEach_key update_conv' split: if_splits option.splits)
qed

lemma foldl_recent_from_items:
  "from_items m S \<Longrightarrow> from_items (foldl recent_forEach m list) (S \<union> set list)"
proof (induction list arbitrary: m S)
  case Nil
  then show ?case by simp
next
  case (Cons x xs)
  have "from_items (foldl recent_forEach (recent_forEach m x) xs) (insert x S \<union> set xs)"
    by (rule Cons.IH) (rule from_items_step [OF Cons.prems])
  then show ?case by simp
qed

lemma foldl_recent_covers_items:
  "covers_items m S \<Longrightarrow> covers_items (foldl recent_forEach m list) (S \<union> set list)"
proof (induction list arbitrary: m S)
  case Nil
  then show ?case by simp
next
  case (Cons x xs)
  have "covers_items (foldl recent_forEach (recent_forEach m x) xs) (insert x S \<union> set xs)"
    by (rule Cons.IH) (rule covers_items_step [OF Cons.prems])
  then show ?case by simp
qed

lemma item_key_Some:
  "item_key (Some it) = Some k \<longleftrightarrow> (\<exists>s. item_titleSlug it = Some s \<and> trim s \<noteq> [] \<and> k = trim s)"
  by (auto simp: item_key_def split: option.splits)

lemma recent_map_facts:
  defines "m \<equiv> \<lambda>list. foldl recent_forEach [] list"
  shows "distinct (map fst (m list))"
    and "from_items (m list) (set list)"
    and "covers_items (m list) (set list)"
proof -
  show "distinct (map fst (m list))"
    unfolding m_def by (rule distinct_foldl_recent) simp
  have "from_items [] {}" by (simp add: from_items_def)
  from foldl_recent_from_items [OF this, of list]
  show "from_items (m list) (set list)" by (simp add: m_def)
  have "covers_items [] {}" by (simp add: covers_items_def)
  from foldl_recent_covers_items [OF this, of list]
  show "covers_items (m list) (set list)" by (simp add: m_def)
qed

lemma dedupe_and_sort_distinct: "distinct (map titleSlug (dedupe_and_sort list))"
proof -
  let ?m = "foldl recent_forEach [] list"
  have d: "distinct (map fst ?m)" by (rule recent_map_facts)
  have "\<And>k v. (k, v) \<in> set ?m \<Longrightarrow> titleSlug v = k"
  proof -
    fix k v assume "(k, v) \<in> set ?m"
    then have "map_of ?m k = Some v" using d by simp
    then obtain it where "v = item_record it k"
      using recent_map_facts(2) [of list] by (auto simp: from_items_def)
    then show "titleSlug v = k" by (simp add: item_record_def)
  qed
  then have "map titleSlug (map snd ?m) = map fst ?m" by auto
  with d show ?thesis by (simp add: dedupe_and_sort_def distinct_map_js_sort del: map_map)
qed

lemma dedupe_and_sort_sorted:
  "sorted_wrt (\<lambda>a b. timestamp b \<le> timestamp a) (dedupe_and_sort list)"
  by (simp add: dedupe_and_sort_def sorted_js_sort)

lemma dedupe_and_sort_origin:
  assumes "r \<in> set (dedupe_and_sort list)"
  shows "\<exists>it s. Some it \<in> set list \<and> item_titleSlug it = Some s \<and> trim s \<noteq> []
           \<and> r = \<lparr>title = (if truthy (item_title it) then item_title it else JStr (trim s)),
                   titleSlug = trim s, timestamp = Number_or_0 (item_timestamp it)\<rparr>"
proof -
  let ?m = "foldl recent_forEach [] list"
  have d: "distinct (map fst ?m)" by (rule recent_map_facts)
  from assms obtain k where "(k, r) \<in> set ?m"
    by (auto simp: dedupe_and_sort_def set_js_sort)
  then have "map_of ?m k = Some r" using d by simp
  then obtain it where "Some it \<in> set list" "item_key (Some it) = Some k" "r = item_record it k"
    using recent_map_facts(2) [of list] by (auto simp: from_items_def)
  then show ?thesis by (auto simp: item_key_Some item_record_def)
qed

lemma dedupe_and_sort_highest:
  assumes "Some it \<in> set list" "item_titleSlug it = Some s" "trim s \<noteq> []"
  shows "\<exists>r \<in> set (dedupe_and_sort list).
           titleSlug r = trim s \<and> Number_or_0 (item_timestamp it) \<le> timestamp r"
proof -
  let ?m = "foldl recent_forEach [] list"
  have "item_key (Some it) = Some (trim s)" using assms by (simp add: item_key_Some)
  then obtain v where v: "map_of ?m (trim s) = Some v"
      "Number_or_0 (item_timestamp it) \<le> timestamp v"
    using recent_map_facts(3) [of list] assms(1) by (auto simp: covers_items_def)
  then obtain it' where "v = item_record it' (trim s)"
    using recent_map_facts(2) [of list] by (auto simp: from_items_def)
  then have "titleSlug v = trim s" by (simp add: item_record_def)
  moreover have "v \<in> set (dedupe_and_sort list)"
    using v(1) by (force simp: dedupe_and_sort_def set_js_sort dest: map_of_SomeD)
  ultimately show ?thesis using v(2) by blast
qed

lemma fetchRecentSubmissions_result:
  "snd (graphqlRequest fetch (RecentSubmissionList username)) = Inr d \<Longrightarrow>
     snd (fetchRecentSubmissions fetch username)
       = Inr (dedupe_and_sort (array_or_empty (map_option recentSubmissionList d)))"
  by (auto simp: fetchRecentSubmissions_def split: prod.splits sum.splits)

lemma fetchRecentSubmissions_throws:
  "snd (graphqlRequest fetch (RecentSubmissionList username)) = Inl e \<Longrightarrow>
     snd (fetchRecentSubmissions fetch username) = Inl e"
  by (auto simp: fetchRecentSubmissions_def split: prod.splits sum.splits)

lemma fetchRecentAcceptedSubmissions_result:
  "snd (graphqlRequest_api fetch (RecentAcSubmissionList username)) = Inr d \<Longrightarrow>
     snd (fetchRecentAcceptedSubmissions fetch username)
       = Inr (dedupe_and_sort (array_or_empty (map_option recentAcSubmissionList d)))"
  by (auto simp: fetchRecentAcceptedSubmissions_def split: prod.splits sum.splits)

text \<open>
  What \<open>Number\<close> reads: an integer below \<open>2 ^ 53\<close> in absolute value is read as itself, a
  larger one as the nearest double. Two timestamps of one slug that are read as the same
  number are a tie, and the first record stays.
\<close>

lemma Number_or_0_safe: "\<bar>n\<bar> < 2 ^ 53 \<Longrightarrow> Number_or_0 (Some n) = n"
  by (simp add: Number_or_0_def Number_of_int_safe)

lemma Number_of_int_rounds:
  "Number_of_int 9007199254740992 = 9007199254740992"
  "Number_of_int 9007199254740993 = 9007199254740992"
  "Number_of_int 9007199254740995 = 9007199254740996"
  "Number_of_int (- 9007199254740993) = - 9007199254740992"
  by code_simp+

lemma Number_of_int_overflow:
  "Number_of_int (2 ^ 1024 - 2 ^ 970 - 1) = 2 ^ 1024 - 2 ^ 971"
  "Number_of_int (2 ^ 1024 - 2 ^ 970) = 2 ^ 1024"
  "Number_of_int (10 ^ 400) = 2 ^ 1024"
  by code_simp+

lemma dedupe_and_sort_tie:
  "dedupe_and_sort
     [Some \<lparr>item_title = JStr (lit ''first''), item_titleSlug = Some (lit ''a''),
            item_timestamp = Some 9007199254740992\<rparr>,
      Some \<lparr>item_title = JStr (lit ''second''), item_titleSlug = Some (lit ''a''),
            item_timestamp = Some 9007199254740993\<rparr>]
   = [\<lparr>title = JStr (lit ''first''), titleSlug = lit ''a'', timestamp = 9007199254740992\<rparr>]"
  by (simp add: dedupe_and_sort_def recent_forEach_def Number_or_0_def Number_of_int_rounds
        js_sort_def trim_def isWhiteSpace_def lit_def Let_def)

section \<open>C3: the recent fetcher deduplicates and sorts\<close>

text \<open>
  Claim C3. When the request helper returns the upstream list, the recent fetcher returns a
  list with at most one record per \<open>titleSlug\<close>, sorted by descending timestamp; every
  record comes from an entry of the list (its slug trimmed, its timestamp the number that
  \<open>Number\<close> reads), and for every entry of the list with a slug the record of that slug has a
  timestamp at least as high as the number read from the entry, so that on a collision the
  record with the highest timestamp is kept. A timestamp that is an integer below \<open>2 ^ 53\<close>
  in absolute value is read as itself. The recent fetcher of \<open>src/api/fetchSolved.js\<close>
  returns the same output for the same list. For the list
  \<open>[{slug:"a",ts:1},{slug:"a",ts:5},{slug:"b",ts:2}]\<close> the output is
  \<open>[{slug:"a",ts:5},{slug:"b",ts:2}]\<close>.
\<close>

theorem fetchRecentSubmissions_dedup_sorted:
  assumes "snd (graphqlRequest fetch (RecentSubmissionList username)) = Inr d"
    and "list = array_or_empty (map_option recentSubmissionList d)"
  shows "\<exists>out. snd (fetchRecentSubmissions fetch username) = Inr out
     \<and> distinct (map titleSlug out)
     \<and> sorted_wrt (\<lambda>a b. timestamp b \<le> timestamp a) out
     \<and> (\<forall>r \<in> set out. \<exists>it s.
           Some it \<in> set list \<and> item_titleSlug it = Some s \<and> trim s \<noteq> []
           \<and> r = \<lparr>title = (if truthy (item_title it) then item_title it else JStr (trim s)),
                   titleSlug = trim s, timestamp = Number_or_0 (item_timestamp it)\<rparr>)
     \<and> (\<forall>it s. Some it \<in> set list \<and> item_titleSlug it = Some s \<and> trim s \<noteq> [] \<longrightarrow>
           (\<exists>r \<in> set out. titleSlug r = trim s
                \<and> Number_or_0 (item_timestamp it) \<le> timestamp r))
     \<and> (\<forall>n. \<bar>n\<bar> < 2 ^ 53 \<longrightarrow> Number_or_0 (Some n) = n)
     \<and> (\<forall>fetch_api d_api.
           snd (graphqlRequest_api fetch_api (RecentAcSubmissionList username)) = Inr d_api
           \<and> array_or_empty (map_option recentAcSubmissionList d_api) = list
           \<longrightarrow> snd (fetchRecentAcceptedSubmissions fetch_api username) = Inr out)
     \<and> (list = example_list \<longrightarrow>
           out = [\<lparr>title = JStr (lit ''a''), titleSlug = lit ''a'', timestamp = 5\<rparr>,
                  \<lparr>title = JStr (lit ''b''), titleSlug = lit ''b'', timestamp = 2\<rparr>])"
proof (intro exI conjI)
  show "snd (fetchRecentSubmissions fetch username) = Inr (dedupe_and_sort list)"
    using assms by (simp add: fetchRecentSubmissions_result)
  show "distinct (map titleSlug (dedupe_and_sort list))"
    by (rule dedupe_and_sort_distinct)
  show "sorted_wrt (\<lambda>a b. timestamp b \<le> timestamp a) (dedupe_and_sort list)"
    by (rule dedupe_and_sort_sorted)
  show "\<forall>r \<in> set (dedupe_and_sort list). \<exists>it s.
           Some it \<in> set list \<and> item_titleSlug it = Some s \<and> trim s \<noteq> []
           \<and> r = \<lparr>title = (if truthy (item_title it) then item_title it else JStr (trim s)),
                   titleSlug = trim s, timestamp = Number_or_0 (item_timestamp it)\<rparr>"
    using dedupe_and_sort_origin by blast
  show "\<forall>it s. Some it \<in> set list \<and> item_titleSlug it = Some s \<and> trim s \<noteq> [] \<longrightarrow>
           (\<exists>r \<in> set (dedupe_and_sort list). titleSlug r = trim s
                \<and> Number_or_0 (item_timestamp it) \<le> timestamp r)"
    using dedupe_and_sort_highest by blast
  show "\<forall>n. \<bar>n\<bar> < 2 ^ 53 \<longrightarrow> Number_or_0 (Some n) = n"
    by (simp add: Number_or_0_safe)
  show "\<forall>fetch_api d_api.
           snd (graphqlRequest_api fetch_api (RecentAcSubmissionList username)) = Inr d_api
           \<and> array_or_empty (map_option recentAcSubmissionList d_api) = list
           \<longrightarrow> snd (fetchRecentAcceptedSubmissions fetch_api username) = Inr (dedupe_and_sort list)"
    by (auto simp: fetchRecentAcceptedSubmissions_result)
  show "list = example_list \<longrightarrow>
           dedupe_and_sort list
             = [\<lparr>title = JStr (lit ''a''), titleSlug = lit ''a'', timestamp = 5\<rparr>,
                \<lparr>title = JStr (lit ''b''), titleSlug = lit ''b'', timestamp = 2\<rparr>]"
    by (simp add: example_sorted)
qed

theorem fetchRecentSubmissions_dedup_sorted_witness:
  "snd (fetchRecentSubmissions (graphql_recent upstream_recent_only) (JStr (lit ''alice'')))
     = Inr [\<lparr>title = JStr (lit ''a''), titleSlug = lit ''a'', timestamp = 5\<rparr>,
            \<lparr>title = JStr (lit ''b''), titleSlug = lit ''b'', timestamp = 2\<rparr>]
   \<and> snd (fetchRecentAcceptedSubmissions (graphql_recentAc upstream_recent_only)
            (JStr (lit ''alice'')))
     = Inr [\<lparr>title = JStr (lit ''a''), titleSlug = lit ''a'', timestamp = 5\<rparr>,
            \<lparr>title = JStr (lit ''b''), titleSlug = lit ''b'', timestamp = 2\<rparr>]"
proof -
  let ?u = "JStr (lit ''alice'')"
  let ?ex = "[\<lparr>title = JStr (lit ''a''), titleSlug = lit ''a'', timestamp = 5\<rparr>,
              \<lparr>title = JStr (lit ''b''), titleSlug = lit ''b'', timestamp = 2\<rparr>]"
  have g: "snd (graphqlRequest (graphql_recent upstream_recent_only) (RecentSubmissionList ?u))
          = Inr (Some \<lparr>recentSubmissionList = Some example_list\<rparr>)"
    by (simp add: graphqlRequest_def upstream_recent_only_def ok_def)
  have l: "example_list
      = array_or_empty (map_option recentSubmissionList (Some \<lparr>recentSubmissionList = Some example_list\<rparr>))"
    by (simp add: array_or_empty_def)
  have ga: "snd (graphqlRequest_api (graphql_recentAc upstream_recent_only) (RecentAcSubmissionList ?u))
          = Inr (Some \<lparr>recentAcSubmissionList = Some example_list\<rparr>)"
    by (simp add: graphqlRequest_api_def upstream_recent_only_def ok_def)
  have la: "array_or_empty (map_option recentAcSubmissionList
               (Some \<lparr>recentAcSubmissionList = Some example_list\<rparr>)) = example_list"
    by (simp add: array_or_empty_def)
  from fetchRecentSubmissions_dedup_sorted [OF g l] obtain out where
    o: "snd (fetchRecentSubmissions (graphql_recent upstream_recent_only) ?u) = Inr out"
      "out = ?ex"
    and api: "\<forall>fetch_api d_api.
           snd (graphqlRequest_api fetch_api (RecentAcSubmissionList ?u)) = Inr d_api
           \<and> array_or_empty (map_option recentAcSubmissionList d_api) = example_list
           \<longrightarrow> snd (fetchRecentAcceptedSubmissions fetch_api ?u) = Inr out"
    by blast
  from api ga la
  have "snd (fetchRecentAcceptedSubmissions (graphql_recentAc upstream_recent_only) ?u) = Inr out"
    by blast
  with o show ?thesis by simp
qed

section \<open>Lemmas on the full-history fetchers\<close>

lemma foldl_accepted_forEach:
  "foldl accepted_forEach accepted subs = foldl Set_add accepted (accepted_slugs subs)"
proof (induction subs arbitrary: accepted)
  case Nil
  then show ?case by (simp add: accepted_slugs_def)
next
  case (Cons x xs)
  have "accepted_slugs (x # xs) = accepted_slugs [x] @ accepted_slugs xs"
    by (simp add: accepted_slugs_def)
  moreover have "accepted_forEach accepted x = foldl Set_add accepted (accepted_slugs [x])"
    by (auto simp: accepted_forEach_def accepted_slugs_def split: option.splits)
  ultimately show ?case using Cons.IH by simp
qed

lemma foldl_public_forEach:
  "foldl public_forEach accepted subs = foldl Set_add accepted (public_slugs subs)"
proof (induction subs arbitrary: accepted)
  case Nil
  then show ?case by (simp add: public_slugs_def)
next
  case (Cons x xs)
  have "public_slugs (x # xs) = public_slugs [x] @ public_slugs xs"
    by (simp add: public_slugs_def)
  moreover have "public_forEach accepted x = foldl Set_add accepted (public_slugs [x])"
    by (auto simp: public_forEach_def public_slugs_def Let_def split: option.splits jsval.splits)
  ultimately show ?case using Cons.IH by simp
qed

lemma accepted_slugs_trimmed: "x \<in> set (accepted_slugs subs) \<Longrightarrow> trim x = x"
  by (auto simp: accepted_slugs_def trim_idem split: option.splits if_splits)

lemma public_slugs_trimmed: "x \<in> set (public_slugs subs) \<Longrightarrow> trim x = x \<and> x \<noteq> []"
  by (auto simp: public_slugs_def trim_idem split: option.splits if_splits jsval.splits)

lemma trimmed_set_fold:
  "trimmed_set accepted \<Longrightarrow> trimmed_set (foldl accepted_forEach accepted subs)"
  by (auto simp: trimmed_set_def foldl_accepted_forEach distinct_foldl_Set_add set_foldl_Set_add
        accepted_slugs_trimmed)

lemma slug_set_fold:
  "slug_set accepted \<Longrightarrow> slug_set (foldl public_forEach accepted subs)"
  using public_slugs_trimmed
  by (fastforce simp: slug_set_def foldl_public_forEach distinct_foldl_Set_add set_foldl_Set_add)

lemma graphql_pages_done:
  "\<not> page < maxPages \<Longrightarrow>
     graphql_pages request username page offset accepted log = (log, Inr accepted)"
  by (subst graphql_pages.simps) simp

lemma graphql_pages_stop:
  "page < maxPages \<Longrightarrow> request (SubmissionList offset pageSize username) = (sent, Inr d) \<Longrightarrow>
   \<not> truthy (page_hasNext d) \<or> page_submissions d = [] \<Longrightarrow>
     graphql_pages request username page offset accepted log
       = (log @ sent, Inr (foldl accepted_forEach accepted (page_submissions d)))"
  by (subst graphql_pages.simps) (auto simp: Let_def)

lemma graphql_pages_next:
  "page < maxPages \<Longrightarrow> request (SubmissionList offset pageSize username) = (sent, Inr d) \<Longrightarrow>
   truthy (page_hasNext d) \<Longrightarrow> page_submissions d \<noteq> [] \<Longrightarrow>
     graphql_pages request username page offset accepted log
       = graphql_pages request username (Suc page) (offset + pageSize)
           (foldl accepted_forEach accepted (page_submissions d)) (log @ sent)"
  by (subst graphql_pages.simps) (auto simp: Let_def)

lemma public_pages_done:
  "\<not> page < maxPages \<Longrightarrow>
     public_pages fetch username page offset accepted log = (log, Inr accepted)"
  by (subst public_pages.simps) simp

lemma public_pages_unencodable:
  "page < maxPages \<Longrightarrow> encodeURIComponent_error username = Some e \<Longrightarrow>
     public_pages fetch username page offset accepted log = (log, Inl e)"
  by (subst public_pages.simps) simp

lemma public_pages_rejected:
  "page < maxPages \<Longrightarrow> fetch username offset pageSize = None \<Longrightarrow>
   encodeURIComponent_error username = None \<Longrightarrow>
     public_pages fetch username page offset accepted log
       = (log @ [PublicApiCall username offset pageSize], Inl FetchRejected)"
  by (subst public_pages.simps) (simp add: Let_def)

lemma public_pages_failed:
  "page < maxPages \<Longrightarrow> fetch username offset pageSize = Some response \<Longrightarrow> \<not> ok response \<Longrightarrow>
   encodeURIComponent_error username = None \<Longrightarrow>
     public_pages fetch username page offset accepted log
       = (log @ [PublicApiCall username offset pageSize], Inl (PublicApiFailed (status response)))"
  by (subst public_pages.simps) (simp add: Let_def)

lemma public_pages_malformed:
  "page < maxPages \<Longrightarrow> fetch username offset pageSize = Some response \<Longrightarrow> ok response \<Longrightarrow>
   raw response = Malformed t \<Longrightarrow> encodeURIComponent_error username = None \<Longrightarrow>
     public_pages fetch username page offset accepted log
       = (log @ [PublicApiCall username offset pageSize], Inl JSONSyntaxError)"
  by (subst public_pages.simps) (simp add: Let_def)

lemma public_pages_stop:
  "page < maxPages \<Longrightarrow> fetch username offset pageSize = Some response \<Longrightarrow> ok response \<Longrightarrow>
   raw response = Wellformed d \<Longrightarrow>
   \<not> truthy (has_next d) \<or> array_or_empty (Some (submissions_dump d)) = [] \<Longrightarrow>
   encodeURIComponent_error username = None \<Longrightarrow>
     public_pages fetch username page offset accepted log
       = (log @ [PublicApiCall username offset pageSize],
          Inr (foldl public_forEach accepted (array_or_empty (Some (submissions_dump d)))))"
  by (subst public_pages.simps) (auto simp: Let_def)

lemma public_pages_next:
  "page < maxPages \<Longrightarrow> fetch username offset pageSize = Some response \<Longrightarrow> ok response \<Longrightarrow>
   raw response = Wellformed d \<Longrightarrow>
   truthy (has_next d) \<Longrightarrow> array_or_empty (Some (submissions_dump d)) \<noteq> [] \<Longrightarrow>
   encodeURIComponent_error username = None \<Longrightarrow>
     public_pages fetch username page offset accepted log
       = public_pages fetch username (Suc page) (offset + pageSize)
           (foldl public_forEach accepted (array_or_empty (Some (submissions_dump d))))
           (log @ [PublicApiCall username offset pageSize])"
  by (subst public_pages.simps) (auto simp: Let_def)

lemma graphql_pages_trimmed:
  "trimmed_set accepted \<Longrightarrow>
   graphql_pages request username page offset accepted log = (log', Inr accepted') \<Longrightarrow>
     trimmed_set accepted'"
proof (induction "maxPages - page" arbitrary: page offset accepted log)
  case 0
  then show ?case by (simp add: graphql_pages_done)
next
  case (Suc n)
  then have lt: "page < maxPages" by simp
  obtain sent r where req: "request (SubmissionList offset pageSize username) = (sent, r)"
    by (cases "request (SubmissionList offset pageSize username)")
  show ?case
  proof (cases r)
    case (Inl e)
    with Suc.prems(2) lt req show ?thesis by (simp add: graphql_pages_throw)
  next
    case (Inr d)
    let ?acc = "foldl accepted_forEach accepted (page_submissions d)"
    have t: "trimmed_set ?acc" using Suc.prems(1) by (rule trimmed_set_fold)
    show ?thesis
    proof (cases "truthy (page_hasNext d) \<and> page_submissions d \<noteq> []")
      case False
      then have "graphql_pages request username page offset accepted log = (log @ sent, Inr ?acc)"
        using lt req Inr by (intro graphql_pages_stop) auto
      with Suc.prems(2) t show ?thesis by simp
    next
      case True
      then have "graphql_pages request username page offset accepted log
              = graphql_pages request username (Suc page) (offset + pageSize) ?acc (log @ sent)"
        using lt req Inr by (intro graphql_pages_next) auto
      with Suc.prems(2)
      have "graphql_pages request username (Suc page) (offset + pageSize) ?acc (log @ sent)
              = (log', Inr accepted')" by simp
      moreover have "n = maxPages - Suc page" using Suc.hyps(2) by simp
      ultimately show ?thesis using Suc.hyps(1) t by blast
    qed
  qed
qed

lemma public_pages_slug_set_encoded:
  "slug_set accepted \<Longrightarrow>
   public_pages fetch username page offset accepted log = (log', Inr accepted') \<Longrightarrow>
   encodeURIComponent_error username = None \<Longrightarrow>
     slug_set accepted'"
proof (induction "maxPages - page" arbitrary: page offset accepted log)
  case 0
  then show ?case by (simp add: public_pages_done)
next
  case (Suc n)
  then have lt: "page < maxPages" by simp
  note enc = Suc.prems(3)
  show ?case
  proof (cases "fetch username offset pageSize")
    case None
    with Suc.prems(2) lt enc show ?thesis by (simp add: public_pages_rejected)
  next
    case (Some response)
    show ?thesis
    proof (cases "ok response")
      case False
      with Suc.prems(2) lt Some enc show ?thesis by (simp add: public_pages_failed)
    next
      case True
      show ?thesis
      proof (cases "raw response")
        case (Malformed t)
        with Suc.prems(2) lt Some True enc show ?thesis by (simp add: public_pages_malformed)
      next
        case (Wellformed d)
        let ?subs = "array_or_empty (Some (submissions_dump d))"
        let ?acc = "foldl public_forEach accepted ?subs"
        have t: "slug_set ?acc" using Suc.prems(1) by (rule slug_set_fold)
        show ?thesis
        proof (cases "truthy (has_next d) \<and> ?subs \<noteq> []")
          case False
          then have "public_pages fetch username page offset accepted log
                  = (log @ [PublicApiCall username offset pageSize], Inr ?acc)"
            using lt Some True Wellformed enc by (intro public_pages_stop) auto
          with Suc.prems(2) t show ?thesis by simp
        next
          case next_page: True
          then have "public_pages fetch username page offset accepted log
                  = public_pages fetch username (Suc page) (offset + pageSize) ?acc
                      (log @ [PublicApiCall username offset pageSize])"
            using lt Some True Wellformed enc by (intro public_pages_next) auto
          with Suc.prems(2)
          have "public_pages fetch username (Suc page) (offset + pageSize) ?acc
                      (log @ [PublicApiCall username offset pageSize]) = (log', Inr accepted')"
            by simp
          moreover have "n = maxPages - Suc page" using Suc.hyps(2) by simp
          ultimately show ?thesis using Suc.hyps(1) t enc by blast
        qed
      qed
    qed
  qed
qed

lemma public_pages_slug_set:
  assumes "slug_set accepted"
    and "public_pages fetch username page offset accepted log = (log', Inr accepted')"
  shows "slug_set accepted'"
proof (cases "encodeURIComponent_error username")
  case None
  with assms show ?thesis by (rule public_pages_slug_set_encoded)
next
  case (Some e)
  show ?thesis
  proof (cases "page < maxPages")
    case True
    with assms(2) Some show ?thesis by (simp add: public_pages_unencodable)
  next
    case False
    with assms show ?thesis by (simp add: public_pages_done)
  qed
qed

lemma public_pages_log_encoded:
  "encodeURIComponent_error username = None \<Longrightarrow>
     \<exists>rest. fst (public_pages fetch username page offset accepted log) = log @ rest"
proof (induction "maxPages - page" arbitrary: page offset accepted log)
  case 0
  then show ?case by (simp add: public_pages_done)
next
  case (Suc n)
  then have lt: "page < maxPages" by simp
  note enc = Suc.prems(1)
  show ?case
  proof (cases "fetch username offset pageSize")
    case None
    with lt enc show ?thesis by (simp add: public_pages_rejected)
  next
    case (Some response)
    show ?thesis
    proof (cases "ok response")
      case False
      with lt Some enc show ?thesis by (simp add: public_pages_failed)
    next
      case True
      show ?thesis
      proof (cases "raw response")
        case (Malformed t)
        with lt Some True enc show ?thesis by (simp add: public_pages_malformed)
      next
        case (Wellformed d)
        let ?subs = "array_or_empty (Some (submissions_dump d))"
        show ?thesis
        proof (cases "truthy (has_next d) \<and> ?subs \<noteq> []")
          case False
          then have "public_pages fetch username page offset accepted log
                  = (log @ [PublicApiCall username offset pageSize],
                     Inr (foldl public_forEach accepted ?subs))"
            using lt Some True Wellformed enc by (intro public_pages_stop) auto
          then show ?thesis by simp
        next
          case next_page: True
          then have e: "public_pages fetch username page offset accepted log
                  = public_pages fetch username (Suc page) (offset + pageSize)
                      (foldl public_forEach accepted ?subs)
                      (log @ [PublicApiCall username offset pageSize])"
            using lt Some True Wellformed enc by (intro public_pages_next) auto
          have "n = maxPages - Suc page" using Suc.hyps(2) by simp
          from Suc.hyps(1) [OF this enc] obtain rest where
            "fst (public_pages fetch username (Suc page) (offset + pageSize)
                      (foldl public_forEach accepted ?subs)
                      (log @ [PublicApiCall username offset pageSize]))
               = (log @ [PublicApiCall username offset pageSize]) @ rest" by blast
          with e show ?thesis by simp
        qed
      qed
    qed
  qed
qed

lemma public_pages_log:
  "\<exists>rest. fst (public_pages fetch username page offset accepted log) = log @ rest"
proof (cases "encodeURIComponent_error username")
  case None
  then show ?thesis by (rule public_pages_log_encoded)
next
  case (Some e)
  then show ?thesis
    by (cases "page < maxPages") (simp_all add: public_pages_unencodable public_pages_done)
qed

lemma public_unencodable:
  "encodeURIComponent_error username = Some e \<Longrightarrow>
     fetchAllAcceptedSlugsFromPublicApi fetch username = ([], Inl e)"
  by (simp add: fetchAllAcceptedSlugsFromPublicApi_def public_pages_unencodable maxPages_def)

lemma public_first_call:
  assumes enc: "encodeURIComponent_error username = None"
  shows "PublicApiCall username 0 20
           \<in> set (fst (fetchAllAcceptedSlugsFromPublicApi fetch username))"
proof -
  have lt: "0 < maxPages" by (simp add: maxPages_def)
  let ?c = "PublicApiCall username 0 pageSize"
  have "\<exists>rest. fst (public_pages fetch username 0 0 [] []) = ?c # rest"
  proof (cases "fetch username 0 pageSize")
    case None
    with lt enc show ?thesis by (simp add: public_pages_rejected)
  next
    case (Some response)
    show ?thesis
    proof (cases "ok response")
      case False
      with lt Some enc show ?thesis by (simp add: public_pages_failed)
    next
      case True
      show ?thesis
      proof (cases "raw response")
        case (Malformed t)
        with lt Some True enc show ?thesis by (simp add: public_pages_malformed)
      next
        case (Wellformed d)
        let ?subs = "array_or_empty (Some (submissions_dump d))"
        show ?thesis
        proof (cases "truthy (has_next d) \<and> ?subs \<noteq> []")
          case False
          then have "public_pages fetch username 0 0 [] []
                  = ([] @ [?c], Inr (foldl public_forEach [] ?subs))"
            using lt Some True Wellformed enc by (intro public_pages_stop) auto
          then show ?thesis by simp
        next
          case next_page: True
          then have "public_pages fetch username 0 0 [] []
                  = public_pages fetch username (Suc 0) (0 + pageSize)
                      (foldl public_forEach [] ?subs) ([] @ [?c])"
            using lt Some True Wellformed enc by (intro public_pages_next) auto
          then show ?thesis using public_pages_log [of fetch username "Suc 0" "0 + pageSize"
              "foldl public_forEach [] ?subs" "[] @ [?c]"] by auto
        qed
      qed
    qed
  qed
  then show ?thesis by (auto simp: fetchAllAcceptedSlugsFromPublicApi_def pageSize_def)
qed

lemma slug_set_filter: "trimmed_set xs \<Longrightarrow> slug_set (filter (\<lambda>s. s \<noteq> []) xs)"
  by (auto simp: trimmed_set_def slug_set_def)

lemma slug_set_GraphQL:
  "fetchAllAcceptedSlugsFromGraphQL fetch username = (log, Inr slugs) \<Longrightarrow> slug_set slugs"
proof -
  assume a: "fetchAllAcceptedSlugsFromGraphQL fetch username = (log, Inr slugs)"
  obtain l r where g: "graphql_pages (graphqlRequest fetch) username 0 0 [] [] = (l, r)"
    by (cases "graphql_pages (graphqlRequest fetch) username 0 0 [] []")
  with a obtain accepted where r: "r = Inr accepted" "slugs = filter (\<lambda>s. s \<noteq> []) accepted"
    by (cases r) (auto simp: fetchAllAcceptedSlugsFromGraphQL_def)
  have "trimmed_set []" by (simp add: trimmed_set_def)
  then have "trimmed_set accepted" using g r(1) graphql_pages_trimmed by blast
  then show ?thesis using r(2) by (simp add: slug_set_filter)
qed

lemma slug_set_GraphQL_api:
  "fetchAllAcceptedSlugs fetch username = (log, Inr slugs) \<Longrightarrow> slug_set slugs"
proof -
  assume a: "fetchAllAcceptedSlugs fetch username = (log, Inr slugs)"
  obtain l r where g: "graphql_pages (graphqlRequest_api fetch) username 0 0 [] [] = (l, r)"
    by (cases "graphql_pages (graphqlRequest_api fetch) username 0 0 [] []")
  with a obtain accepted where r: "r = Inr accepted" "slugs = filter (\<lambda>s. s \<noteq> []) accepted"
    by (cases r) (auto simp: fetchAllAcceptedSlugs_def)
  have "trimmed_set []" by (simp add: trimmed_set_def)
  then have "trimmed_set accepted" using g r(1) graphql_pages_trimmed by blast
  then show ?thesis using r(2) by (simp add: slug_set_filter)
qed

lemma slug_set_PublicApi:
  "fetchAllAcceptedSlugsFromPublicApi fetch username = (log, Inr slugs) \<Longrightarrow> slug_set slugs"
proof -
  assume "fetchAllAcceptedSlugsFromPublicApi fetch username = (log, Inr slugs)"
  then have "public_pages fetch username 0 0 [] [] = (log, Inr slugs)"
    by (simp add: fetchAllAcceptedSlugsFromPublicApi_def)
  moreover have "slug_set []" by (simp add: slug_set_def)
  ultimately show ?thesis using public_pages_slug_set by blast
qed

lemma slug_set_dedupeSlugs: "slug_set (dedupeSlugs slugs)"
  using dedupeSlugs_elem by (auto simp: slug_set_def distinct_dedupeSlugs)

lemma slug_set_elem:
  assumes "slug_set slugs" "x \<in> set slugs"
  shows "x \<noteq> [] \<and> \<not> isWhiteSpace (hd x) \<and> \<not> isWhiteSpace (last x)"
proof -
  have t: "trim x = x" "x \<noteq> []" using assms by (auto simp: slug_set_def)
  then have "trim x \<noteq> []" by simp
  from trim_no_leading [OF this] trim_no_trailing [OF this] t show ?thesis by simp
qed

lemma full_history_slug_set:
  assumes "\<And>log slugs. graphql_history username = (log, Inr slugs) \<Longrightarrow> slug_set slugs"
  shows "\<exists>source allSolvedSlugs.
      snd (full_history graphql_history up username recentSolved)
        = \<lparr>res_status = 200, res_body = Json (result_json source recentSolved allSolvedSlugs)\<rparr>
      \<and> slug_set allSolvedSlugs"
proof -
  obtain log2 r2 where g: "graphql_history username = (log2, r2)"
    by (cases "graphql_history username")
  obtain log3 r3 where p: "fetchAllAcceptedSlugsFromPublicApi (public_api up) username = (log3, r3)"
    by (cases "fetchAllAcceptedSlugsFromPublicApi (public_api up) username")
  have d: "slug_set (dedupeSlugs (Some (map (\<lambda>item. Some (titleSlug item)) recentSolved)))"
    by (rule slug_set_dedupeSlugs)
  have 2: "\<And>slugs. r2 = Inr slugs \<Longrightarrow> slug_set slugs" using assms g by simp
  have 3: "\<And>slugs. r3 = Inr slugs \<Longrightarrow> slug_set slugs" using slug_set_PublicApi p by simp
  show ?thesis
    using d 2 3 by (cases r2; cases r3) (auto simp: full_history_def g p Let_def)
qed

section \<open>Lemmas on the v2 mode\<close>

lemma handler_v2:
  assumes "req_method req = lit ''POST''"
    and "get_prop (body req) (lit ''username'') = JStr s" and "trim s \<noteq> []"
    and "get_prop (body req) (lit ''responseFormat'') = JStr (lit ''v2'')
         \<or> get_prop (body req) (lit ''includeFullHistory'') = JBool True"
    and "snd (fetchRecentSubmissions (graphql_recent up) (JStr (trim s))) = Inr recentSolved"
  shows "handler up req =
     (fst (fetchRecentSubmissions (graphql_recent up) (JStr (trim s)))
        @ fst (full_history (fetchAllAcceptedSlugsFromGraphQL (graphql_list up))
                 up (JStr (trim s)) recentSolved),
      snd (full_history (fetchAllAcceptedSlugsFromGraphQL (graphql_list up))
             up (JStr (trim s)) recentSolved))"
  using assms(4,5)
  by (auto simp: handler_POST [OF assms(1,2,3)] split: prod.splits sum.splits)

lemma handler_v2_200:
  assumes "req_method req = lit ''POST''"
    and "get_prop (body req) (lit ''responseFormat'') = JStr (lit ''v2'')
         \<or> get_prop (body req) (lit ''includeFullHistory'') = JBool True"
    and "res_status (snd (handler up req)) = 200"
  shows "\<exists>s recentSolved.
           get_prop (body req) (lit ''username'') = JStr s \<and> trim s \<noteq> []
           \<and> snd (fetchRecentSubmissions (graphql_recent up) (JStr (trim s))) = Inr recentSolved"
proof (cases "\<exists>s. get_prop (body req) (lit ''username'') = JStr s \<and> trim s \<noteq> []")
  case False
  then have "res_status (snd (handler up req)) = 400"
    using assms(1) by (simp add: handler_no_username)
  with assms(3) show ?thesis by simp
next
  case True
  then obtain s where s: "get_prop (body req) (lit ''username'') = JStr s" "trim s \<noteq> []"
    by blast
  show ?thesis
  proof (cases "snd (fetchRecentSubmissions (graphql_recent up) (JStr (trim s)))")
    case (Inl err)
    then have "res_status (snd (handler up req)) = 500"
      using assms(1) s by (auto simp: handler_POST split: prod.splits)
    with assms(3) show ?thesis by simp
  next
    case (Inr recentSolved)
    with s show ?thesis by blast
  qed
qed

lemma get_prop_result_json:
  "get_prop (result_json source recentSolved allSolvedSlugs) (lit ''source'') = JStr source"
  "get_prop (result_json source recentSolved allSolvedSlugs) (lit ''allSolvedSlugs'')
     = JArr (map JStr allSolvedSlugs)"
  by (simp_all add: result_json_def lit_def)

section \<open>C10: the elements of allSolvedSlugs\<close>

text \<open>
  Claim C10. For every v2-mode POST request answered with status 200, whichever source
  produced \<open>allSolvedSlugs\<close>, every element of it is a string that is not empty and has no
  leading or trailing white space, and the elements are pairwise distinct.
\<close>

theorem allSolvedSlugs_wellformed:
  assumes "req_method req = lit ''POST''"
    and "get_prop (body req) (lit ''responseFormat'') = JStr (lit ''v2'')
         \<or> get_prop (body req) (lit ''includeFullHistory'') = JBool True"
    and "res_status (snd (handler up req)) = 200"
  shows "\<exists>j slugs.
           res_body (snd (handler up req)) = Json j
           \<and> get_prop j (lit ''allSolvedSlugs'') = JArr (map JStr slugs)
           \<and> distinct slugs
           \<and> (\<forall>x \<in> set slugs. x \<noteq> [] \<and> \<not> isWhiteSpace (hd x) \<and> \<not> isWhiteSpace (last x))"
proof -
  from handler_v2_200 [OF assms] obtain s recentSolved where
    s: "get_prop (body req) (lit ''username'') = JStr s" "trim s \<noteq> []"
    and r: "snd (fetchRecentSubmissions (graphql_recent up) (JStr (trim s))) = Inr recentSolved"
    by blast
  let ?G = "fetchAllAcceptedSlugsFromGraphQL (graphql_list up)"
  obtain source slugs where
    h: "snd (full_history ?G up (JStr (trim s)) recentSolved)
          = \<lparr>res_status = 200, res_body = Json (result_json source recentSolved slugs)\<rparr>"
    and ss: "slug_set slugs"
    using full_history_slug_set [of ?G "JStr (trim s)" up recentSolved] slug_set_GraphQL
    by blast
  have "res_body (snd (handler up req)) = Json (result_json source recentSolved slugs)"
    using handler_v2 [OF assms(1) s assms(2) r] h by simp
  moreover have "distinct slugs" using ss by (simp add: slug_set_def)
  moreover have "\<forall>x \<in> set slugs. x \<noteq> [] \<and> \<not> isWhiteSpace (hd x) \<and> \<not> isWhiteSpace (last x)"
    using slug_set_elem [OF ss] by blast
  ultimately show ?thesis using get_prop_result_json(2) by blast
qed

lemma example_v2_response:
  "handler upstream_recent_only example_v2_request =
     ([GraphQLCall (RecentSubmissionList (JStr (lit ''alice''))),
       GraphQLCall (SubmissionList 0 20 (JStr (lit ''alice''))),
       PublicApiCall (JStr (lit ''alice'')) 0 20],
      \<lparr>res_status = 200,
       res_body = Json (result_json (lit ''recent'') (dedupe_and_sort example_list)
                          [lit ''a'', lit ''b''])\<rparr>)"
proof -
  have t: "trim (lit ''alice'') = lit ''alice''" "lit ''alice'' \<noteq> []"
    by (simp_all add: trim_def isWhiteSpace_def lit_def)
  have u: "get_prop (body example_v2_request) (lit ''username'') = JStr (lit ''alice'')"
     "get_prop (body example_v2_request) (lit ''responseFormat'') = JStr (lit ''v2'')"
    by (simp_all add: example_v2_request_def lit_def)
  have m: "req_method example_v2_request = lit ''POST''"
    by (simp add: example_v2_request_def)
  let ?G = "fetchAllAcceptedSlugsFromGraphQL (graphql_list upstream_recent_only)"
  have f: "full_history ?G upstream_recent_only (JStr (lit ''alice'')) (dedupe_and_sort example_list)
       = ([GraphQLCall (SubmissionList 0 20 (JStr (lit ''alice''))),
           PublicApiCall (JStr (lit ''alice'')) 0 20],
          \<lparr>res_status = 200,
           res_body = Json (result_json (lit ''recent'') (dedupe_and_sort example_list)
                              [lit ''a'', lit ''b''])\<rparr>)"
    by (simp add: full_history_def down_graphql down_public [OF alice_encodes] example_slugs)
  show ?thesis
    using handler_v2 [of example_v2_request "lit ''alice''" upstream_recent_only
        "dedupe_and_sort example_list"] m u t
    by (simp add: recent_only_fetch f)
qed

theorem allSolvedSlugs_wellformed_witness:
  "snd (handler upstream_recent_only example_v2_request)
     = \<lparr>res_status = 200,
        res_body = Json (result_json (lit ''recent'') (dedupe_and_sort example_list)
                           [lit ''a'', lit ''b''])\<rparr>
   \<and> (\<exists>j slugs.
           res_body (snd (handler upstream_recent_only example_v2_request)) = Json j
           \<and> get_prop j (lit ''allSolvedSlugs'') = JArr (map JStr slugs)
           \<and> distinct slugs
           \<and> (\<forall>x \<in> set slugs. x \<noteq> [] \<and> \<not> isWhiteSpace (hd x) \<and> \<not> isWhiteSpace (last x)))"
proof -
  have m: "req_method example_v2_request = lit ''POST''"
    and u: "get_prop (body example_v2_request) (lit ''responseFormat'') = JStr (lit ''v2'')"
    by (simp_all add: example_v2_request_def lit_def)
  have b: "snd (handler upstream_recent_only example_v2_request)
     = \<lparr>res_status = 200,
        res_body = Json (result_json (lit ''recent'') (dedupe_and_sort example_list)
                           [lit ''a'', lit ''b''])\<rparr>"
    by (simp add: example_v2_response)
  then have st: "res_status (snd (handler upstream_recent_only example_v2_request)) = 200"
    by simp
  from allSolvedSlugs_wellformed [of example_v2_request upstream_recent_only, OF m _ st] u b
  show ?thesis by blast
qed

section \<open>Lemmas on the fallback chain\<close>

lemma full_history_200: "res_status (snd (full_history graphql_history up username recentSolved)) = 200"
  using full_history_shape [of graphql_history up username recentSolved] by auto

lemma handler_api_fallback:
  assumes "req_method req = lit ''POST''"
    and "body req \<noteq> JUndefined" and "body req \<noteq> JNull"
    and "get_prop (body req) (lit ''username'') = u" and "truthy u"
    and "snd (fetchRecentAcceptedSubmissions (graphql_recentAc up) u) = Inr recentSolved"
    and "snd (fetchAllAcceptedSlugs (graphql_list up) u) = Inl e"
  shows "fst (handler_api up req)
            = fst (fetchRecentAcceptedSubmissions (graphql_recentAc up) u)
              @ fst (fetchAllAcceptedSlugs (graphql_list up) u)
              @ fst (fetchAllAcceptedSlugsFromPublicApi (public_api up) u)"
    and "isl (snd (fetchAllAcceptedSlugsFromPublicApi (public_api up) u))
           \<or> snd (fetchAllAcceptedSlugsFromPublicApi (public_api up) u) = Inr [] \<Longrightarrow>
         snd (handler_api up req)
           = Inr \<lparr>res_status = 200,
                  res_body = Json (result_json (lit ''recent'') recentSolved
                       (dedupeSlugs (Some (map (\<lambda>item. Some (titleSlug item)) recentSolved))))\<rparr>"
proof -
  note h = handler_api_v2 [OF assms(1,2,3) assms(5) [folded assms(4)] assms(6) [folded assms(4)],
      unfolded assms(4)]
  show "fst (handler_api up req)
            = fst (fetchRecentAcceptedSubmissions (graphql_recentAc up) u)
              @ fst (fetchAllAcceptedSlugs (graphql_list up) u)
              @ fst (fetchAllAcceptedSlugsFromPublicApi (public_api up) u)"
    using full_history_log_after_throw
      [of "fetchAllAcceptedSlugs (graphql_list up)" u e up recentSolved, OF assms(7)]
    by (simp add: h)
  assume "isl (snd (fetchAllAcceptedSlugsFromPublicApi (public_api up) u))
           \<or> snd (fetchAllAcceptedSlugsFromPublicApi (public_api up) u) = Inr []"
  from full_history_recent
    [of "fetchAllAcceptedSlugs (graphql_list up)" u e up recentSolved, OF assms(7) this]
  show "snd (handler_api up req)
           = Inr \<lparr>res_status = 200,
                  res_body = Json (result_json (lit ''recent'') recentSolved
                       (dedupeSlugs (Some (map (\<lambda>item. Some (titleSlug item)) recentSolved))))\<rparr>"
    by (simp add: h)
qed

section \<open>C1: the order of the fallbacks\<close>

text \<open>
  Claim C1. In both handlers, for every request that reaches the full-history fetchers (in
  the handler with the legacy mode: a v2-mode request) and whose recent-submissions fetch
  succeeded: the response is 200, whatever the full-history fetchers do; if the GraphQL
  full-history fetch throws, the public API fetch is attempted next (the requests sent are
  those of the recent fetch, then those of the GraphQL fetch, then those of the public API
  fetch, which start with the page at offset 0 when \<open>encodeURIComponent\<close> accepts the
  username; when it throws, the public API fetch throws before its first request); and if
  the public API fetch throws too or returns an empty result, \<open>source\<close> is \<open>'recent'\<close> and
  \<open>allSolvedSlugs\<close> is \<open>dedupeSlugs\<close> of the \<open>titleSlug\<close>s of \<open>recentSolved\<close>.
\<close>

theorem fallback_order:
  "(req_method req = lit ''POST''
      \<and> get_prop (body req) (lit ''username'') = JStr s \<and> trim s \<noteq> []
      \<and> (get_prop (body req) (lit ''responseFormat'') = JStr (lit ''v2'')
           \<or> get_prop (body req) (lit ''includeFullHistory'') = JBool True)
      \<and> snd (fetchRecentSubmissions (graphql_recent up) (JStr (trim s))) = Inr recentSolved \<longrightarrow>
     res_status (snd (handler up req)) = 200
     \<and> (isl (snd (fetchAllAcceptedSlugsFromGraphQL (graphql_list up) (JStr (trim s)))) \<longrightarrow>
          fst (handler up req)
            = fst (fetchRecentSubmissions (graphql_recent up) (JStr (trim s)))
              @ fst (fetchAllAcceptedSlugsFromGraphQL (graphql_list up) (JStr (trim s)))
              @ fst (fetchAllAcceptedSlugsFromPublicApi (public_api up) (JStr (trim s)))
          \<and> (encodeURIComponent_error (JStr (trim s)) = None \<longrightarrow>
               PublicApiCall (JStr (trim s)) 0 20
                 \<in> set (fst (fetchAllAcceptedSlugsFromPublicApi (public_api up) (JStr (trim s)))))
          \<and> (\<forall>e. encodeURIComponent_error (JStr (trim s)) = Some e \<longrightarrow>
               fetchAllAcceptedSlugsFromPublicApi (public_api up) (JStr (trim s)) = ([], Inl e))
          \<and> (isl (snd (fetchAllAcceptedSlugsFromPublicApi (public_api up) (JStr (trim s))))
               \<or> snd (fetchAllAcceptedSlugsFromPublicApi (public_api up) (JStr (trim s))) = Inr []
              \<longrightarrow> (\<exists>j. res_body (snd (handler up req)) = Json j
                     \<and> get_prop j (lit ''source'') = JStr (lit ''recent'')
                     \<and> get_prop j (lit ''allSolvedSlugs'')
                         = JArr (map JStr (dedupeSlugs
                              (Some (map (\<lambda>item. Some (titleSlug item)) recentSolved))))))))
   \<and> (req_method req = lit ''POST'' \<and> body req \<noteq> JUndefined \<and> body req \<noteq> JNull
      \<and> get_prop (body req) (lit ''username'') = u \<and> truthy u
      \<and> snd (fetchRecentAcceptedSubmissions (graphql_recentAc up) u) = Inr recentSolved \<longrightarrow>
     (\<exists>response. snd (handler_api up req) = Inr response \<and> res_status response = 200)
     \<and> (isl (snd (fetchAllAcceptedSlugs (graphql_list up) u)) \<longrightarrow>
          fst (handler_api up req)
            = fst (fetchRecentAcceptedSubmissions (graphql_recentAc up) u)
              @ fst (fetchAllAcceptedSlugs (graphql_list up) u)
              @ fst (fetchAllAcceptedSlugsFromPublicApi (public_api up) u)
          \<and> (encodeURIComponent_error u = None \<longrightarrow>
               PublicApiCall u 0 20
                 \<in> set (fst (fetchAllAcceptedSlugsFromPublicApi (public_api up) u)))
          \<and> (\<forall>e. encodeURIComponent_error u = Some e \<longrightarrow>
               fetchAllAcceptedSlugsFromPublicApi (public_api up) u = ([], Inl e))
          \<and> (isl (snd (fetchAllAcceptedSlugsFromPublicApi (public_api up) u))
               \<or> snd (fetchAllAcceptedSlugsFromPublicApi (public_api up) u) = Inr []
              \<longrightarrow> snd (handler_api up req)
                    = Inr \<lparr>res_status = 200,
                           res_body = Json (result_json (lit ''recent'') recentSolved
                             (dedupeSlugs (Some (map (\<lambda>item. Some (titleSlug item)) recentSolved))))\<rparr>)))"
proof (intro conjI impI)
  assume a: "req_method req = lit ''POST''
      \<and> get_prop (body req) (lit ''username'') = JStr s \<and> trim s \<noteq> []
      \<and> (get_prop (body req) (lit ''responseFormat'') = JStr (lit ''v2'')
           \<or> get_prop (body req) (lit ''includeFullHistory'') = JBool True)
      \<and> snd (fetchRecentSubmissions (graphql_recent up) (JStr (trim s))) = Inr recentSolved"
  let ?u = "JStr (trim s)"
  let ?G = "fetchAllAcceptedSlugsFromGraphQL (graphql_list up)"
  let ?P = "fetchAllAcceptedSlugsFromPublicApi (public_api up) ?u"
  from a have h: "handler up req =
     (fst (fetchRecentSubmissions (graphql_recent up) ?u)
        @ fst (full_history ?G up ?u recentSolved),
      snd (full_history ?G up ?u recentSolved))"
    by (intro handler_v2) simp_all
  show "res_status (snd (handler up req)) = 200"
    by (simp add: h full_history_200)
  assume g: "isl (snd (?G ?u))"
  then obtain e where e: "snd (?G ?u) = Inl e" by (cases "snd (?G ?u)") auto
  show "fst (handler up req) = fst (fetchRecentSubmissions (graphql_recent up) ?u) @ fst (?G ?u) @ fst ?P"
    using e by (simp add: h full_history_log_after_throw)
  show "PublicApiCall ?u 0 20 \<in> set (fst ?P)" if "encodeURIComponent_error ?u = None"
    using that by (rule public_first_call)
  show "\<forall>e. encodeURIComponent_error ?u = Some e \<longrightarrow> ?P = ([], Inl e)"
    by (simp add: public_unencodable)
  assume p: "isl (snd ?P) \<or> snd ?P = Inr []"
  from full_history_recent [of ?G ?u e up recentSolved, OF e p]
  show "\<exists>j. res_body (snd (handler up req)) = Json j
                     \<and> get_prop j (lit ''source'') = JStr (lit ''recent'')
                     \<and> get_prop j (lit ''allSolvedSlugs'')
                         = JArr (map JStr (dedupeSlugs
                              (Some (map (\<lambda>item. Some (titleSlug item)) recentSolved))))"
    by (simp add: h get_prop_result_json)
next
  assume a: "req_method req = lit ''POST'' \<and> body req \<noteq> JUndefined \<and> body req \<noteq> JNull
      \<and> get_prop (body req) (lit ''username'') = u \<and> truthy u
      \<and> snd (fetchRecentAcceptedSubmissions (graphql_recentAc up) u) = Inr recentSolved"
  let ?G = "fetchAllAcceptedSlugs (graphql_list up)"
  let ?P = "fetchAllAcceptedSlugsFromPublicApi (public_api up) u"
  from a have h: "snd (handler_api up req) = Inr (snd (full_history ?G up u recentSolved))"
    using handler_api_v2 [of req up recentSolved] by auto
  show "\<exists>response. snd (handler_api up req) = Inr response \<and> res_status response = 200"
    unfolding h by (simp add: full_history_200)
  assume g: "isl (snd (?G u))"
  then obtain e where e: "snd (?G u) = Inl e" by (cases "snd (?G u)") auto
  from a e have f: "req_method req = lit ''POST''" "body req \<noteq> JUndefined" "body req \<noteq> JNull"
      "get_prop (body req) (lit ''username'') = u" "truthy u"
      "snd (fetchRecentAcceptedSubmissions (graphql_recentAc up) u) = Inr recentSolved"
      "snd (fetchAllAcceptedSlugs (graphql_list up) u) = Inl e"
    by simp_all
  show "fst (handler_api up req)
            = fst (fetchRecentAcceptedSubmissions (graphql_recentAc up) u) @ fst (?G u) @ fst ?P"
    by (rule handler_api_fallback(1) [OF f])
  show "PublicApiCall u 0 20 \<in> set (fst ?P)" if "encodeURIComponent_error u = None"
    using that by (rule public_first_call)
  show "\<forall>e. encodeURIComponent_error u = Some e \<longrightarrow> ?P = ([], Inl e)"
    by (simp add: public_unencodable)
  assume p: "isl (snd ?P) \<or> snd ?P = Inr []"
  show "snd (handler_api up req)
          = Inr \<lparr>res_status = 200,
                 res_body = Json (result_json (lit ''recent'') recentSolved
                   (dedupeSlugs (Some (map (\<lambda>item. Some (titleSlug item)) recentSolved))))\<rparr>"
    by (rule handler_api_fallback(2) [OF f p])
qed

theorem fallback_order_witness:
  "handler upstream_recent_only example_v2_request =
     ([GraphQLCall (RecentSubmissionList (JStr (lit ''alice''))),
       GraphQLCall (SubmissionList 0 20 (JStr (lit ''alice''))),
       PublicApiCall (JStr (lit ''alice'')) 0 20],
      \<lparr>res_status = 200,
       res_body = Json (result_json (lit ''recent'') (dedupe_and_sort example_list)
                          [lit ''a'', lit ''b''])\<rparr>)
   \<and> isl (snd (fetchAllAcceptedSlugsFromGraphQL (graphql_list upstream_recent_only)
                  (JStr (lit ''alice''))))
   \<and> isl (snd (fetchAllAcceptedSlugsFromPublicApi (public_api upstream_recent_only)
                  (JStr (lit ''alice''))))
   \<and> (\<exists>j. res_body (snd (handler upstream_recent_only example_v2_request)) = Json j
          \<and> get_prop j (lit ''source'') = JStr (lit ''recent'')
          \<and> get_prop j (lit ''allSolvedSlugs'') = JArr [JStr (lit ''a''), JStr (lit ''b'')])
   \<and> snd (handler_api upstream_recent_only example_v2_request)
       = Inr \<lparr>res_status = 200,
              res_body = Json (result_json (lit ''recent'') (dedupe_and_sort example_list)
                                 [lit ''a'', lit ''b''])\<rparr>"
proof -
  let ?u = "JStr (lit ''alice'')"
  have t: "trim (lit ''alice'') = lit ''alice''" "lit ''alice'' \<noteq> []"
    by (simp_all add: trim_def isWhiteSpace_def lit_def)
  have m: "req_method example_v2_request = lit ''POST''"
    and u: "get_prop (body example_v2_request) (lit ''username'') = JStr (lit ''alice'')"
     "get_prop (body example_v2_request) (lit ''responseFormat'') = JStr (lit ''v2'')"
    and b: "body example_v2_request \<noteq> JUndefined" "body example_v2_request \<noteq> JNull"
    by (simp_all add: example_v2_request_def lit_def)
  have g: "isl (snd (fetchAllAcceptedSlugsFromGraphQL (graphql_list upstream_recent_only) ?u))"
    by (simp add: down_graphql)
  have ga: "isl (snd (fetchAllAcceptedSlugs (graphql_list upstream_recent_only) ?u))"
    by (simp add: down_graphql_api)
  have p: "isl (snd (fetchAllAcceptedSlugsFromPublicApi (public_api upstream_recent_only) ?u))"
    by (simp add: down_public [OF alice_encodes])
  have r: "snd (fetchRecentSubmissions (graphql_recent upstream_recent_only)
                  (JStr (trim (lit ''alice'')))) = Inr (dedupe_and_sort example_list)"
    by (simp add: recent_only_fetch)
  have ra: "snd (fetchRecentAcceptedSubmissions (graphql_recentAc upstream_recent_only) ?u)
              = Inr (dedupe_and_sort example_list)"
    by (simp add: recent_only_fetch_api)
  note T = fallback_order [of example_v2_request "lit ''alice''" upstream_recent_only
      "dedupe_and_sort example_list" ?u]
  from T m u t g p r
  have 1: "\<exists>j. res_body (snd (handler upstream_recent_only example_v2_request)) = Json j
          \<and> get_prop j (lit ''source'') = JStr (lit ''recent'')
          \<and> get_prop j (lit ''allSolvedSlugs'') = JArr [JStr (lit ''a''), JStr (lit ''b'')]"
    by (simp add: example_slugs)
  from T m b u(1) t(2) ga p ra
  have 2: "snd (handler_api upstream_recent_only example_v2_request)
       = Inr \<lparr>res_status = 200,
              res_body = Json (result_json (lit ''recent'') (dedupe_and_sort example_list)
                                 [lit ''a'', lit ''b''])\<rparr>"
    by (simp add: example_slugs)
  from 1 2 g p show ?thesis by (simp add: example_v2_response)
qed

lemma handler_api_slug_set:
  assumes "req_method req = lit ''POST''"
    and "snd (handler_api up req) = Inr response" and "res_status response = 200"
  shows "\<exists>source recentSolved slugs.
           res_body response = Json (result_json source recentSolved slugs) \<and> slug_set slugs"
proof -
  let ?u = "get_prop (body req) (lit ''username'')"
  have ok: "body req \<noteq> JUndefined" "body req \<noteq> JNull" "truthy ?u"
    using assms by (auto simp: handler_api_def lit_POST_OPTIONS Let_def split: if_splits)
  obtain recentSolved where
    r: "snd (fetchRecentAcceptedSubmissions (graphql_recentAc up) ?u) = Inr recentSolved"
    using assms ok
    by (cases "snd (fetchRecentAcceptedSubmissions (graphql_recentAc up) ?u)")
       (auto simp: handler_api_def lit_POST_OPTIONS Let_def split: prod.splits)
  let ?G = "fetchAllAcceptedSlugs (graphql_list up)"
  obtain source slugs where
    h: "snd (full_history ?G up ?u recentSolved)
          = \<lparr>res_status = 200, res_body = Json (result_json source recentSolved slugs)\<rparr>"
    and ss: "slug_set slugs"
    using full_history_slug_set [of ?G ?u up recentSolved] slug_set_GraphQL_api
    by blast
  have "response = \<lparr>res_status = 200, res_body = Json (result_json source recentSolved slugs)\<rparr>"
    using handler_api_v2 [OF assms(1) ok r] h assms(2) by simp
  with ss show ?thesis by auto
qed

section \<open>Lemmas on the pagination loops\<close>

lemma graphql_pages_endless:
  assumes good: "\<And>i. i < maxPages \<Longrightarrow>
      \<exists>d. snd (request (SubmissionList (i * pageSize) pageSize username)) = Inr d
          \<and> truthy (page_hasNext d) \<and> page_submissions d \<noteq> []"
  shows "page \<le> maxPages \<Longrightarrow>
     graphql_pages request username page (page * pageSize) accepted log
       = (log @ concat (map (\<lambda>i. fst (request (SubmissionList (i * pageSize) pageSize username)))
                          [page..<maxPages]),
          Inr (foldl Set_add accepted
                 (concat (map (\<lambda>i. accepted_slugs (page_submissions (gql_page request username i)))
                            [page..<maxPages]))))"
proof (induction "maxPages - page" arbitrary: page accepted log)
  case 0
  then have "page = maxPages" by simp
  then show ?case by (simp add: graphql_pages_done)
next
  case (Suc n)
  then have lt: "page < maxPages" by simp
  let ?q = "SubmissionList (page * pageSize) pageSize username"
  from good [OF lt] obtain d where d: "snd (request ?q) = Inr d"
      "truthy (page_hasNext d)" "page_submissions d \<noteq> []" by blast
  then have req: "request ?q = (fst (request ?q), Inr d)" by (metis prod.collapse)
  have pg: "gql_page request username page = d" by (simp add: gql_page_def d(1))
  let ?acc = "foldl accepted_forEach accepted (page_submissions d)"
  have step: "graphql_pages request username page (page * pageSize) accepted log
          = graphql_pages request username (Suc page) (Suc page * pageSize) ?acc
              (log @ fst (request ?q))"
    using graphql_pages_next [where request = request and page = page
        and offset = "page * pageSize" and username = username and sent = "fst (request ?q)"
        and d = d and accepted = accepted and log = log, OF lt req d(2,3)]
    by (simp add: add.commute)
  have n: "n = maxPages - Suc page" using Suc.hyps(2) by simp
  have le: "Suc page \<le> maxPages" using lt by simp
  have upt: "[page..<maxPages] = page # [Suc page..<maxPages]"
    using lt by (rule upt_conv_Cons)
  show ?case
    unfolding step Suc.hyps(1) [OF n le] upt
    by (simp add: foldl_accepted_forEach pg)
qed

lemma public_pages_endless:
  assumes good: "\<And>i. i < maxPages \<Longrightarrow>
      \<exists>response d. fetch username (i * pageSize) pageSize = Some response \<and> ok response
          \<and> raw response = Wellformed d \<and> truthy (has_next d)
          \<and> array_or_empty (Some (submissions_dump d)) \<noteq> []"
    and enc: "encodeURIComponent_error username = None"
  shows "page \<le> maxPages \<Longrightarrow>
     public_pages fetch username page (page * pageSize) accepted log
       = (log @ map (\<lambda>i. PublicApiCall username (i * pageSize) pageSize) [page..<maxPages],
          Inr (foldl Set_add accepted
                 (concat (map (\<lambda>i. public_slugs (public_page fetch username i))
                            [page..<maxPages]))))"
proof (induction "maxPages - page" arbitrary: page accepted log)
  case 0
  then have "page = maxPages" by simp
  then show ?case by (simp add: public_pages_done)
next
  case (Suc n)
  then have lt: "page < maxPages" by simp
  from good [OF lt] obtain response d where
      d: "fetch username (page * pageSize) pageSize = Some response" "ok response"
        "raw response = Wellformed d" "truthy (has_next d)"
        "array_or_empty (Some (submissions_dump d)) \<noteq> []" by blast
  let ?subs = "array_or_empty (Some (submissions_dump d))"
  have pg: "public_page fetch username page = ?subs" by (simp add: public_page_def d)
  let ?acc = "foldl public_forEach accepted ?subs"
  have step: "public_pages fetch username page (page * pageSize) accepted log
          = public_pages fetch username (Suc page) (Suc page * pageSize) ?acc
              (log @ [PublicApiCall username (page * pageSize) pageSize])"
    using public_pages_next [where fetch = fetch and page = page
        and offset = "page * pageSize" and username = username and response = response
        and d = d and accepted = accepted and log = log, OF lt d enc]
    by (simp add: add.commute)
  have n: "n = maxPages - Suc page" using Suc.hyps(2) by simp
  have le: "Suc page \<le> maxPages" using lt by simp
  have upt: "[page..<maxPages] = page # [Suc page..<maxPages]"
    using lt by (rule upt_conv_Cons)
  show ?case
    unfolding step Suc.hyps(1) [OF n le] upt
    by (simp add: foldl_public_forEach pg)
qed

lemma fetchAllAcceptedSlugs_endless:
  assumes "\<forall>i<500. \<exists>d. snd (graphqlRequest_api gql_fetch (SubmissionList (i * 20) 20 username)) = Inr d
              \<and> truthy (page_hasNext d) \<and> page_submissions d \<noteq> []"
  shows "fetchAllAcceptedSlugs gql_fetch username
           = (map (\<lambda>i. GraphQLCall (SubmissionList (i * 20) 20 username)) [0..<500],
              Inr (filter (\<lambda>s. s \<noteq> [])
                     (new_Set (concat (map (\<lambda>i. accepted_slugs (page_submissions
                                 (gql_page (graphqlRequest_api gql_fetch) username i))) [0..<500])))))"
proof -
  from assms have "\<And>i. i < maxPages \<Longrightarrow>
      \<exists>d. snd (graphqlRequest_api gql_fetch (SubmissionList (i * pageSize) pageSize username)) = Inr d
          \<and> truthy (page_hasNext d) \<and> page_submissions d \<noteq> []"
    by (simp add: maxPages_def pageSize_def)
  from graphql_pages_endless [of "graphqlRequest_api gql_fetch" username 0 "[]" "[]", OF this]
  have "graphql_pages (graphqlRequest_api gql_fetch) username 0 0 [] []
       = (concat (map (\<lambda>i. fst (graphqlRequest_api gql_fetch (SubmissionList (i * pageSize) pageSize username)))
                          [0..<maxPages]),
          Inr (foldl Set_add []
                 (concat (map (\<lambda>i. accepted_slugs (page_submissions (gql_page (graphqlRequest_api gql_fetch) username i)))
                            [0..<maxPages]))))"
    by simp
  then show ?thesis
    by (simp add: fetchAllAcceptedSlugs_def graphqlRequest_api_log new_Set_def
          maxPages_def pageSize_def concat_map_singleton)
qed

lemma fetchAllAcceptedSlugsFromGraphQL_endless:
  assumes "\<forall>i<500. \<exists>d. snd (graphqlRequest gql_fetch (SubmissionList (i * 20) 20 username)) = Inr d
              \<and> truthy (page_hasNext d) \<and> page_submissions d \<noteq> []"
  shows "fetchAllAcceptedSlugsFromGraphQL gql_fetch username
           = (map (\<lambda>i. GraphQLCall (SubmissionList (i * 20) 20 username)) [0..<500],
              Inr (filter (\<lambda>s. s \<noteq> [])
                     (new_Set (concat (map (\<lambda>i. accepted_slugs (page_submissions
                                 (gql_page (graphqlRequest gql_fetch) username i))) [0..<500])))))"
proof -
  from assms have "\<And>i. i < maxPages \<Longrightarrow>
      \<exists>d. snd (graphqlRequest gql_fetch (SubmissionList (i * pageSize) pageSize username)) = Inr d
          \<and> truthy (page_hasNext d) \<and> page_submissions d \<noteq> []"
    by (simp add: maxPages_def pageSize_def)
  from graphql_pages_endless [of "graphqlRequest gql_fetch" username 0 "[]" "[]", OF this]
  have "graphql_pages (graphqlRequest gql_fetch) username 0 0 [] []
       = (concat (map (\<lambda>i. fst (graphqlRequest gql_fetch (SubmissionList (i * pageSize) pageSize username)))
                          [0..<maxPages]),
          Inr (foldl Set_add []
                 (concat (map (\<lambda>i. accepted_slugs (page_submissions (gql_page (graphqlRequest gql_fetch) username i)))
                            [0..<maxPages]))))"
    by simp
  then show ?thesis
    by (simp add: fetchAllAcceptedSlugsFromGraphQL_def graphqlRequest_log new_Set_def
          maxPages_def pageSize_def concat_map_singleton)
qed

lemma fetchAllAcceptedSlugsFromPublicApi_endless:
  assumes "\<forall>i<500. \<exists>response d. rest_fetch username (i * 20) 20 = Some response \<and> ok response
              \<and> raw response = Wellformed d \<and> truthy (has_next d)
              \<and> array_or_empty (Some (submissions_dump d)) \<noteq> []"
    and enc: "encodeURIComponent_error username = None"
  shows "fetchAllAcceptedSlugsFromPublicApi rest_fetch username
           = (map (\<lambda>i. PublicApiCall username (i * 20) 20) [0..<500],
              Inr (new_Set (concat (map (\<lambda>i. public_slugs (public_page rest_fetch username i))
                                      [0..<500]))))"
proof -
  from assms(1) have "\<And>i. i < maxPages \<Longrightarrow>
      \<exists>response d. rest_fetch username (i * pageSize) pageSize = Some response \<and> ok response
          \<and> raw response = Wellformed d \<and> truthy (has_next d)
          \<and> array_or_empty (Some (submissions_dump d)) \<noteq> []"
    by (simp add: maxPages_def pageSize_def)
  from public_pages_endless [of rest_fetch username 0 "[]" "[]", OF this enc]
  show ?thesis
    by (simp add: fetchAllAcceptedSlugsFromPublicApi_def new_Set_def maxPages_def pageSize_def)
qed

lemma lone_surrogate_rejected: "encodeURIComponent_error (JStr [0xD800]) = Some URIError"
  by (simp add: encodeURIComponent_error_def is_high_surrogate_def is_low_surrogate_def)

section \<open>C4: the ceiling of 500 pages\<close>

text \<open>
  Claim C4, as stated: when every page reports a next page and contains a submission, each
  full-history loop performs exactly 500 iterations and then returns its set without
  throwing. The loop of the public API fetcher builds its URL with
  \<open>encodeURIComponent(username)\<close>, which throws a \<open>URIError\<close> on a username with a lone
  surrogate: with the username \<open>"\uD800"\<close> and an upstream whose every page has one accepted
  submission and reports a next page, the fetcher throws in its first iteration, and no
  request is sent.
\<close>

theorem public_pagination_counterexample:
  "public_api upstream_endless (JStr [0xD800])
     = (\<lambda>offset limit.
          Some \<lparr>status = 200,
                raw = Wellformed
                  \<lparr>submissions_dump = Some [Some \<lparr>title_slug = JStr (lit ''two-sum''),
                                                   status_display = JStr (lit ''Accepted''),
                                                   statusDisplay = JUndefined\<rparr>],
                   has_next = JBool True\<rparr>\<rparr>)
   \<and> fetchAllAcceptedSlugsFromPublicApi (public_api upstream_endless) (JStr [0xD800])
     = ([], Inl URIError)"
  by (simp add: upstream_endless_def public_unencodable [OF lone_surrogate_rejected])

text \<open>
  Claim C4, amended. When each of the 500 pages that a loop asks for reports a next page and
  contains at least one submission: the GraphQL fetcher of each file sends exactly 500
  requests, at the offsets 0, 20, ..., 9980, and then returns the set accumulated over these
  pages without throwing; the public API fetcher does the same for every username that
  \<open>encodeURIComponent\<close> accepts (for a string: one with no lone surrogate). For a username
  that \<open>encodeURIComponent\<close> rejects, the public API fetcher throws in its first iteration,
  before any request.
\<close>

theorem pagination_cap:
  "((\<forall>i<500. \<exists>d. snd (graphqlRequest gql_fetch (SubmissionList (i * 20) 20 username)) = Inr d
              \<and> truthy (page_hasNext d) \<and> page_submissions d \<noteq> [])
     \<longrightarrow> fetchAllAcceptedSlugsFromGraphQL gql_fetch username
           = (map (\<lambda>i. GraphQLCall (SubmissionList (i * 20) 20 username)) [0..<500],
              Inr (filter (\<lambda>s. s \<noteq> [])
                     (new_Set (concat (map (\<lambda>i. accepted_slugs (page_submissions
                                 (gql_page (graphqlRequest gql_fetch) username i))) [0..<500]))))))
   \<and> ((\<forall>i<500. \<exists>d. snd (graphqlRequest_api gql_fetch (SubmissionList (i * 20) 20 username)) = Inr d
              \<and> truthy (page_hasNext d) \<and> page_submissions d \<noteq> [])
     \<longrightarrow> fetchAllAcceptedSlugs gql_fetch username
           = (map (\<lambda>i. GraphQLCall (SubmissionList (i * 20) 20 username)) [0..<500],
              Inr (filter (\<lambda>s. s \<noteq> [])
                     (new_Set (concat (map (\<lambda>i. accepted_slugs (page_submissions
                                 (gql_page (graphqlRequest_api gql_fetch) username i))) [0..<500]))))))
   \<and> (encodeURIComponent_error username = None
       \<and> (\<forall>i<500. \<exists>response d. rest_fetch username (i * 20) 20 = Some response \<and> ok response
              \<and> raw response = Wellformed d \<and> truthy (has_next d)
              \<and> array_or_empty (Some (submissions_dump d)) \<noteq> [])
     \<longrightarrow> fetchAllAcceptedSlugsFromPublicApi rest_fetch username
           = (map (\<lambda>i. PublicApiCall username (i * 20) 20) [0..<500],
              Inr (new_Set (concat (map (\<lambda>i. public_slugs (public_page rest_fetch username i))
                                      [0..<500])))))
   \<and> (\<forall>e. encodeURIComponent_error username = Some e
     \<longrightarrow> fetchAllAcceptedSlugsFromPublicApi rest_fetch username = ([], Inl e))"
  using fetchAllAcceptedSlugsFromGraphQL_endless [of gql_fetch username]
    fetchAllAcceptedSlugs_endless [of gql_fetch username]
    fetchAllAcceptedSlugsFromPublicApi_endless [of rest_fetch username]
    public_unencodable [of username _ rest_fetch]
  by blast

lemma new_Set_constant:
  assumes "xs \<noteq> []" "set xs \<subseteq> {x}"
  shows "new_Set xs = [x]"
proof -
  have "set xs = {x}" using assms by (cases xs) auto
  then have s: "set (new_Set xs) = {x}" by (simp add: set_new_Set)
  have d: "distinct (new_Set xs)" by (rule distinct_new_Set)
  show ?thesis
  proof (cases "new_Set xs")
    case Nil
    with s show ?thesis by simp
  next
    case (Cons y ys)
    with s d have "y = x" "set ys \<subseteq> {x}" "x \<notin> set ys" by auto
    then have "ys = []" by (cases ys) auto
    with Cons \<open>y = x\<close> show ?thesis by simp
  qed
qed

lemma endless_graphql_page:
  "snd (graphqlRequest (graphql_list upstream_endless) q)
     = Inr (Some \<lparr>submissionList = Some
         \<lparr>hasNext = JBool True,
          submissions = Some [Some \<lparr>sub_titleSlug = Some (lit ''two-sum''),
                                    sub_statusDisplay = JStr (lit ''Accepted'')\<rparr>]\<rparr>\<rparr>)"
  by (simp add: graphqlRequest_def upstream_endless_def ok_def)

lemma endless_graphql_page_api:
  "snd (graphqlRequest_api (graphql_list upstream_endless) q)
     = Inr (Some \<lparr>submissionList = Some
         \<lparr>hasNext = JBool True,
          submissions = Some [Some \<lparr>sub_titleSlug = Some (lit ''two-sum''),
                                    sub_statusDisplay = JStr (lit ''Accepted'')\<rparr>]\<rparr>\<rparr>)"
  by (simp add: graphqlRequest_api_def upstream_endless_def ok_def)

lemma two_sum_trim: "trim (lit ''two-sum'') = lit ''two-sum''" "lit ''two-sum'' \<noteq> []"
  "lit ''Accepted'' \<noteq> []"
  by (simp_all add: trim_def isWhiteSpace_def lit_def)

theorem pagination_cap_witness:
  "fetchAllAcceptedSlugsFromGraphQL (graphql_list upstream_endless) (JStr (lit ''alice''))
     = (map (\<lambda>i. GraphQLCall (SubmissionList (i * 20) 20 (JStr (lit ''alice'')))) [0..<500],
        Inr [lit ''two-sum''])
   \<and> length (fst (fetchAllAcceptedSlugsFromGraphQL (graphql_list upstream_endless)
                     (JStr (lit ''alice'')))) = 500
   \<and> fetchAllAcceptedSlugs (graphql_list upstream_endless) (JStr (lit ''alice''))
     = (map (\<lambda>i. GraphQLCall (SubmissionList (i * 20) 20 (JStr (lit ''alice'')))) [0..<500],
        Inr [lit ''two-sum''])
   \<and> fetchAllAcceptedSlugsFromPublicApi (public_api upstream_endless) (JStr (lit ''alice''))
     = (map (\<lambda>i. PublicApiCall (JStr (lit ''alice'')) (i * 20) 20) [0..<500],
        Inr [lit ''two-sum''])
   \<and> length (fst (fetchAllAcceptedSlugsFromPublicApi (public_api upstream_endless)
                     (JStr (lit ''alice'')))) = 500"
proof -
  let ?u = "JStr (lit ''alice'')"
  let ?g = "graphql_list upstream_endless"
  let ?p = "public_api upstream_endless"
  have hg: "\<forall>i<500. \<exists>d. snd (graphqlRequest ?g (SubmissionList (i * 20) 20 ?u)) = Inr d
              \<and> truthy (page_hasNext d) \<and> page_submissions d \<noteq> []"
    by (simp add: endless_graphql_page page_hasNext_def page_submissions_def array_or_empty_def)
  have ha: "\<forall>i<500. \<exists>d. snd (graphqlRequest_api ?g (SubmissionList (i * 20) 20 ?u)) = Inr d
              \<and> truthy (page_hasNext d) \<and> page_submissions d \<noteq> []"
    by (simp add: endless_graphql_page_api page_hasNext_def page_submissions_def array_or_empty_def)
  have hp: "\<forall>i<500. \<exists>response d. ?p ?u (i * 20) 20 = Some response \<and> ok response
              \<and> raw response = Wellformed d \<and> truthy (has_next d)
              \<and> array_or_empty (Some (submissions_dump d)) \<noteq> []"
    by (simp add: upstream_endless_def ok_def array_or_empty_def)
  have pg: "\<And>i. accepted_slugs (page_submissions (gql_page (graphqlRequest ?g) ?u i))
              = [lit ''two-sum'']"
    by (simp add: gql_page_def endless_graphql_page page_submissions_def array_or_empty_def
          accepted_slugs_def two_sum_trim)
  have pa: "\<And>i. accepted_slugs (page_submissions (gql_page (graphqlRequest_api ?g) ?u i))
              = [lit ''two-sum'']"
    by (simp add: gql_page_def endless_graphql_page_api page_submissions_def array_or_empty_def
          accepted_slugs_def two_sum_trim)
  have pp: "\<And>i. public_slugs (public_page ?p ?u i) = [lit ''two-sum'']"
    by (simp add: public_page_def upstream_endless_def array_or_empty_def public_slugs_def
          two_sum_trim)
  have c: "new_Set (map (\<lambda>i. lit ''two-sum'') [0..<500]) = [lit ''two-sum'']"
    by (rule new_Set_constant) auto
  from pagination_cap [of ?g ?u ?p] hg ha hp alice_encodes
  have g: "fetchAllAcceptedSlugsFromGraphQL ?g ?u
     = (map (\<lambda>i. GraphQLCall (SubmissionList (i * 20) 20 ?u)) [0..<500], Inr [lit ''two-sum''])"
    and a: "fetchAllAcceptedSlugs ?g ?u
     = (map (\<lambda>i. GraphQLCall (SubmissionList (i * 20) 20 ?u)) [0..<500], Inr [lit ''two-sum''])"
    and p: "fetchAllAcceptedSlugsFromPublicApi ?p ?u
     = (map (\<lambda>i. PublicApiCall ?u (i * 20) 20) [0..<500], Inr [lit ''two-sum''])"
    by (simp_all add: pg pa pp c two_sum_trim)
  show ?thesis unfolding g a p by simp
qed

section \<open>Lemmas on a run of the GraphQL loop\<close>

lemma pages_run_empty: "pages_run request username maxPages maxPages accepted log log accepted"
  by (auto simp: pages_run_def)

lemma pages_run_stop:
  assumes "page < maxPages"
    and "request (SubmissionList (page * pageSize) pageSize username) = (sent, Inr d)"
    and "\<not> truthy (page_hasNext d) \<or> page_submissions d = []"
  shows "pages_run request username page (Suc page) accepted log (log @ sent)
           (foldl accepted_forEach accepted (page_submissions d))"
proof -
  have pg: "gql_page request username page = d" by (simp add: gql_page_def assms(2))
  have "\<forall>i. page \<le> i \<and> i < Suc page \<longrightarrow>
           (\<exists>d. snd (request (SubmissionList (i * pageSize) pageSize username)) = Inr d)"
  proof (intro allI impI)
    fix i assume "page \<le> i \<and> i < Suc page"
    then have "i = page" by simp
    then show "\<exists>d. snd (request (SubmissionList (i * pageSize) pageSize username)) = Inr d"
      using assms(2) by simp
  qed
  moreover have "\<forall>i. page \<le> i \<and> Suc i < Suc page \<longrightarrow>
           truthy (page_hasNext (gql_page request username i))
           \<and> page_submissions (gql_page request username i) \<noteq> []"
    by auto
  ultimately show ?thesis
    unfolding pages_run_def using assms by (simp add: pg foldl_accepted_forEach)
qed

lemma pages_run_next:
  assumes "page < maxPages"
    and "request (SubmissionList (page * pageSize) pageSize username) = (sent, Inr d)"
    and "truthy (page_hasNext d)" "page_submissions d \<noteq> []"
    and run: "pages_run request username (Suc page) n
           (foldl accepted_forEach accepted (page_submissions d)) (log @ sent) log' accepted'"
  shows "pages_run request username page n accepted log log' accepted'"
proof -
  have pg: "gql_page request username page = d" by (simp add: gql_page_def assms(2))
  have n: "Suc page \<le> n" "n \<le> maxPages" using run by (simp_all add: pages_run_def)
  then have upt: "[page..<n] = page # [Suc page..<n]" by (simp add: upt_conv_Cons)
  have 1: "log' = log @ concat (map (\<lambda>i. fst (request (SubmissionList (i * pageSize) pageSize username)))
                          [page..<n])"
    using run by (simp add: pages_run_def upt assms(2))
  have 2: "accepted' = foldl Set_add accepted
          (concat (map (\<lambda>i. accepted_slugs (page_submissions (gql_page request username i)))
             [page..<n]))"
    using run by (simp add: pages_run_def upt pg foldl_accepted_forEach)
  have 3: "\<exists>d. snd (request (SubmissionList (i * pageSize) pageSize username)) = Inr d"
    if "page \<le> i" "i < n" for i
  proof (cases "i = page")
    case True
    then show ?thesis using assms(2) by simp
  next
    case False
    with that have "Suc page \<le> i \<and> i < n" by simp
    then show ?thesis using run unfolding pages_run_def by blast
  qed
  have 4: "truthy (page_hasNext (gql_page request username i))
           \<and> page_submissions (gql_page request username i) \<noteq> []"
    if "page \<le> i" "Suc i < n" for i
  proof (cases "i = page")
    case True
    then show ?thesis using assms(3,4) pg by simp
  next
    case False
    with that have "Suc page \<le> i \<and> Suc i < n" by simp
    then show ?thesis using run unfolding pages_run_def by blast
  qed
  have 5: "n < maxPages \<longrightarrow>
           \<not> truthy (page_hasNext (gql_page request username (n - 1)))
           \<or> page_submissions (gql_page request username (n - 1)) = []"
    using run unfolding pages_run_def by blast
  show ?thesis
    unfolding pages_run_def using n 1 2 3 4 5 by auto
qed

lemma graphql_pages_run:
  assumes "graphql_pages request username page (page * pageSize) accepted log
             = (log', Inr accepted')"
    and "page \<le> maxPages"
  shows "\<exists>n. pages_run request username page n accepted log log' accepted'"
  using assms
proof (induction "maxPages - page" arbitrary: page accepted log)
  case 0
  then have "page = maxPages" by simp
  with "0.prems"(1) show ?case
    using pages_run_empty [of request username accepted log]
    by (auto simp: graphql_pages_done)
next
  case (Suc k)
  then have lt: "page < maxPages" by simp
  let ?q = "SubmissionList (page * pageSize) pageSize username"
  obtain sent r where req: "request ?q = (sent, r)" by (cases "request ?q")
  show ?case
  proof (cases r)
    case (Inl e)
    with Suc.prems(1) lt req show ?thesis by (simp add: graphql_pages_throw)
  next
    case (Inr d)
    note req' = req [unfolded Inr]
    let ?acc = "foldl accepted_forEach accepted (page_submissions d)"
    show ?thesis
    proof (cases "truthy (page_hasNext d) \<and> page_submissions d \<noteq> []")
      case False
      then have stop: "\<not> truthy (page_hasNext d) \<or> page_submissions d = []" by blast
      have "graphql_pages request username page (page * pageSize) accepted log
              = (log @ sent, Inr ?acc)"
        using graphql_pages_stop [where request = request and page = page
            and offset = "page * pageSize" and username = username and sent = sent and d = d
            and accepted = accepted and log = log, OF lt req' stop] .
      with Suc.prems(1) have "log' = log @ sent" "accepted' = ?acc" by simp_all
      with pages_run_stop [where request = request and page = page and username = username
          and sent = sent and d = d and accepted = accepted and log = log, OF lt req' stop]
      show ?thesis by blast
    next
      case True
      then have c: "truthy (page_hasNext d)" "page_submissions d \<noteq> []" by simp_all
      have "graphql_pages request username page (page * pageSize) accepted log
              = graphql_pages request username (Suc page) (page * pageSize + pageSize) ?acc
                  (log @ sent)"
        using graphql_pages_next [where request = request and page = page
            and offset = "page * pageSize" and username = username and sent = sent and d = d
            and accepted = accepted and log = log, OF lt req' c] .
      with Suc.prems(1)
      have "graphql_pages request username (Suc page) (Suc page * pageSize) ?acc (log @ sent)
              = (log', Inr accepted')" by (simp add: add.commute)
      moreover have "k = maxPages - Suc page" using Suc.hyps(2) by simp
      moreover have "Suc page \<le> maxPages" using lt by simp
      ultimately obtain n where
        "pages_run request username (Suc page) n ?acc (log @ sent) log' accepted'"
        using Suc.hyps(1) by blast
      from pages_run_next [where request = request and page = page and username = username
          and sent = sent and d = d and accepted = accepted and log = log, OF lt req' c this]
      show ?thesis ..
    qed
  qed
qed

lemma set_accepted_slugs:
  "set (accepted_slugs subs) =
     {trim s | s sub. Some sub \<in> set subs \<and> sub_titleSlug sub = Some s \<and> s \<noteq> []
                     \<and> sub_statusDisplay sub = JStr (lit ''Accepted'')}"
proof (induction subs)
  case Nil
  then show ?case by (simp add: accepted_slugs_def)
next
  case (Cons x xs)
  have c: "accepted_slugs (x # xs) = accepted_slugs [x] @ accepted_slugs xs"
    by (simp add: accepted_slugs_def)
  have "set (accepted_slugs [x]) =
     {trim s | s sub. Some sub = x \<and> sub_titleSlug sub = Some s \<and> s \<noteq> []
                     \<and> sub_statusDisplay sub = JStr (lit ''Accepted'')}"
    by (auto simp: accepted_slugs_def split: option.splits)
  with Cons show ?case unfolding c by auto
qed

lemma padded_fetch:
  "fetchAllAcceptedSlugsFromGraphQL (graphql_list upstream_padded) (JStr (lit ''alice''))
     = ([GraphQLCall (SubmissionList 0 20 (JStr (lit ''alice''))),
         GraphQLCall (SubmissionList 20 20 (JStr (lit ''alice'')))],
        Inr [lit ''two-sum''])"
proof -
  let ?u = "JStr (lit ''alice'')"
  let ?r = "graphqlRequest (graphql_list upstream_padded)"
  let ?d0 = "Some \<lparr>submissionList = Some
          \<lparr>hasNext = JBool True,
           submissions = Some
             [Some \<lparr>sub_titleSlug = Some (lit '' two-sum ''),
                    sub_statusDisplay = JStr (lit ''Accepted'')\<rparr>,
              Some \<lparr>sub_titleSlug = Some (lit ''3sum''),
                    sub_statusDisplay = JStr (lit ''Wrong Answer'')\<rparr>]\<rparr>\<rparr>"
  let ?d1 = "Some \<lparr>submissionList = Some
          \<lparr>hasNext = JBool False,
           submissions = Some
             [Some \<lparr>sub_titleSlug = Some (lit ''two-sum''),
                    sub_statusDisplay = JStr (lit ''Accepted'')\<rparr>,
              Some \<lparr>sub_titleSlug = Some (lit ''  ''),
                    sub_statusDisplay = JStr (lit ''Accepted'')\<rparr>]\<rparr>\<rparr>"
  let ?c0 = "GraphQLCall (SubmissionList 0 20 ?u)"
  let ?c1 = "GraphQLCall (SubmissionList 20 20 ?u)"
  have lt: "0 < maxPages" "Suc 0 < maxPages" by (simp_all add: maxPages_def)
  have r0: "?r (SubmissionList 0 pageSize ?u) = ([?c0], Inr ?d0)"
    by (simp add: graphqlRequest_def upstream_padded_def padded_page0_def ok_def pageSize_def)
  have r1: "?r (SubmissionList (0 + pageSize) pageSize ?u) = ([?c1], Inr ?d1)"
    by (simp add: graphqlRequest_def upstream_padded_def padded_page1_def ok_def pageSize_def)
  have t: "trim (lit '' two-sum '') = lit ''two-sum''" "trim (lit ''two-sum'') = lit ''two-sum''"
      "trim (lit ''  '') = []" "lit ''two-sum'' \<noteq> []" "[] \<noteq> lit ''two-sum''"
    by (simp_all add: trim_def isWhiteSpace_def lit_def)
  have l: "lit ''Wrong Answer'' \<noteq> lit ''Accepted''" "lit '' two-sum '' \<noteq> []" "lit ''  '' \<noteq> []"
      "lit ''3sum'' \<noteq> []"
    by (simp_all add: lit_def)
  have h0: "truthy (page_hasNext ?d0)" "page_submissions ?d0 \<noteq> []"
    by (simp_all add: page_hasNext_def page_submissions_def array_or_empty_def)
  have h1: "\<not> truthy (page_hasNext ?d1) \<or> page_submissions ?d1 = []"
    by (simp add: page_hasNext_def)
  have a0: "foldl accepted_forEach [] (page_submissions ?d0) = [lit ''two-sum'']"
    by (simp add: page_submissions_def array_or_empty_def accepted_forEach_def Set_add_def t l)
  have a1: "foldl accepted_forEach [lit ''two-sum''] (page_submissions ?d1) = [lit ''two-sum'', []]"
    by (simp add: page_submissions_def array_or_empty_def accepted_forEach_def Set_add_def t l)
  have "graphql_pages ?r ?u 0 0 [] []
          = graphql_pages ?r ?u (Suc 0) (0 + pageSize) [lit ''two-sum''] ([] @ [?c0])"
    using graphql_pages_next [where request = ?r and page = 0 and offset = 0 and username = ?u
        and sent = "[?c0]" and d = ?d0 and accepted = "[]" and log = "[]", OF lt(1) r0 h0]
    unfolding a0 .
  also have "\<dots> = (([] @ [?c0]) @ [?c1], Inr [lit ''two-sum'', []])"
    using graphql_pages_stop [where request = ?r and page = "Suc 0" and offset = "0 + pageSize"
        and username = ?u and sent = "[?c1]" and d = ?d1 and accepted = "[lit ''two-sum'']"
        and log = "[] @ [?c0]", OF lt(2) r1 h1]
    unfolding a1 .
  finally show ?thesis
    by (simp add: fetchAllAcceptedSlugsFromGraphQL_def t)
qed

section \<open>C5: what the GraphQL full-history fetcher collects\<close>

text \<open>
  Claim C5, as stated: the fetcher adds to its result exactly the \<open>titleSlug\<close> values of the
  accepted submissions. It adds them trimmed, and drops the empty ones: for an accepted
  submission with the slug \<open>' two-sum '\<close> the result holds \<open>'two-sum'\<close>, which is not that
  \<open>titleSlug\<close> value.
\<close>

theorem graphql_history_untrimmed_counterexample:
  "snd (fetchAllAcceptedSlugsFromGraphQL (graphql_list upstream_padded) (JStr (lit ''alice'')))
     = Inr [lit ''two-sum'']
   \<and> lit '' two-sum '' \<notin> set [lit ''two-sum'']"
  by (simp add: padded_fetch) (simp add: lit_def)

text \<open>
  Claim C5, amended. When the fetcher returns, it has requested the pages \<open>0, ..., n - 1\<close>
  for some \<open>n\<close> from 1 to 500, each of size 20 at the offset \<open>20 * i\<close>; its result, as a set,
  is exactly the trimmed \<open>titleSlug\<close> values, where not empty, of the submissions of these
  pages whose status is the string \<open>'Accepted'\<close>; every page before the last one reported
  a next page and had submissions; and unless all 500 pages were requested, the last page
  reported no next page or had no submissions.
\<close>

theorem graphql_history_pages:
  assumes "fetchAllAcceptedSlugsFromGraphQL fetch username = (log, Inr slugs)"
  shows "\<exists>n. 1 \<le> n \<and> n \<le> 500
     \<and> log = map (\<lambda>i. GraphQLCall (SubmissionList (i * 20) 20 username)) [0..<n]
     \<and> set slugs =
         {trim s | s sub i. i < n
            \<and> Some sub \<in> set (page_submissions (gql_page (graphqlRequest fetch) username i))
            \<and> sub_titleSlug sub = Some s
            \<and> sub_statusDisplay sub = JStr (lit ''Accepted'')
            \<and> trim s \<noteq> []}
     \<and> (\<forall>i. Suc i < n \<longrightarrow>
           truthy (page_hasNext (gql_page (graphqlRequest fetch) username i))
           \<and> page_submissions (gql_page (graphqlRequest fetch) username i) \<noteq> [])
     \<and> (n < 500 \<longrightarrow>
           \<not> truthy (page_hasNext (gql_page (graphqlRequest fetch) username (n - 1)))
           \<or> page_submissions (gql_page (graphqlRequest fetch) username (n - 1)) = [])"
proof -
  let ?r = "graphqlRequest fetch"
  obtain l r where g: "graphql_pages ?r username 0 0 [] [] = (l, r)"
    by (cases "graphql_pages ?r username 0 0 [] []")
  with assms obtain accepted where r: "r = Inr accepted" "log = l"
      "slugs = filter (\<lambda>s. s \<noteq> []) accepted"
    by (cases r) (auto simp: fetchAllAcceptedSlugsFromGraphQL_def)
  have "graphql_pages ?r username 0 (0 * pageSize) [] [] = (log, Inr accepted)"
    using g r by simp
  from graphql_pages_run [OF this] obtain n where
    run: "pages_run ?r username 0 n [] [] log accepted" by auto
  have n: "1 \<le> n" "n \<le> 500"
    using run by (auto simp: pages_run_def maxPages_def)
  have 1: "log = map (\<lambda>i. GraphQLCall (SubmissionList (i * 20) 20 username)) [0..<n]"
    using run by (simp add: pages_run_def graphqlRequest_log pageSize_def concat_map_singleton)
  have acc: "accepted = new_Set (concat (map (\<lambda>i. accepted_slugs (page_submissions (gql_page ?r username i))) [0..<n]))"
    using run by (simp add: pages_run_def new_Set_def)
  have 2: "set slugs =
         {trim s | s sub i. i < n
            \<and> Some sub \<in> set (page_submissions (gql_page ?r username i))
            \<and> sub_titleSlug sub = Some s
            \<and> sub_statusDisplay sub = JStr (lit ''Accepted'')
            \<and> trim s \<noteq> []}"
  proof (intro set_eqI iffI)
    fix x assume "x \<in> set slugs"
    then obtain i where i: "i < n" "x \<noteq> []"
       "x \<in> set (accepted_slugs (page_submissions (gql_page ?r username i)))"
      unfolding r(3) acc by (auto simp: set_new_Set)
    then obtain s sub where "x = trim s"
        "Some sub \<in> set (page_submissions (gql_page ?r username i))"
        "sub_titleSlug sub = Some s" "sub_statusDisplay sub = JStr (lit ''Accepted'')"
      unfolding set_accepted_slugs by blast
    with i(1,2) show "x \<in> {trim s | s sub i. i < n
            \<and> Some sub \<in> set (page_submissions (gql_page ?r username i))
            \<and> sub_titleSlug sub = Some s
            \<and> sub_statusDisplay sub = JStr (lit ''Accepted'')
            \<and> trim s \<noteq> []}" by blast
  next
    fix x assume "x \<in> {trim s | s sub i. i < n
            \<and> Some sub \<in> set (page_submissions (gql_page ?r username i))
            \<and> sub_titleSlug sub = Some s
            \<and> sub_statusDisplay sub = JStr (lit ''Accepted'')
            \<and> trim s \<noteq> []}"
    then obtain s sub i where x: "x = trim s" "i < n"
        "Some sub \<in> set (page_submissions (gql_page ?r username i))"
        "sub_titleSlug sub = Some s" "sub_statusDisplay sub = JStr (lit ''Accepted'')"
        "trim s \<noteq> []" by blast
    then have "s \<noteq> []" by (auto simp: trim_Nil)
    with x have "x \<in> set (accepted_slugs (page_submissions (gql_page ?r username i)))"
      unfolding set_accepted_slugs by blast
    with x(1,2,6) show "x \<in> set slugs"
      unfolding r(3) acc by (auto simp: set_new_Set)
  qed
  have 3: "\<forall>i. Suc i < n \<longrightarrow>
           truthy (page_hasNext (gql_page ?r username i))
           \<and> page_submissions (gql_page ?r username i) \<noteq> []"
    using run by (simp add: pages_run_def)
  have 4: "n < 500 \<longrightarrow>
           \<not> truthy (page_hasNext (gql_page ?r username (n - 1)))
           \<or> page_submissions (gql_page ?r username (n - 1)) = []"
    using run by (simp add: pages_run_def maxPages_def)
  from n 1 2 3 4 show ?thesis by blast
qed

theorem graphql_history_pages_witness:
  "fetchAllAcceptedSlugsFromGraphQL (graphql_list upstream_padded) (JStr (lit ''alice''))
     = ([GraphQLCall (SubmissionList 0 20 (JStr (lit ''alice''))),
         GraphQLCall (SubmissionList 20 20 (JStr (lit ''alice'')))],
        Inr [lit ''two-sum''])
   \<and> (\<exists>n. 1 \<le> n \<and> n \<le> 500
     \<and> [GraphQLCall (SubmissionList 0 20 (JStr (lit ''alice''))),
         GraphQLCall (SubmissionList 20 20 (JStr (lit ''alice'')))]
        = map (\<lambda>i. GraphQLCall (SubmissionList (i * 20) 20 (JStr (lit ''alice'')))) [0..<n]
     \<and> (n < 500 \<longrightarrow>
           \<not> truthy (page_hasNext (gql_page (graphqlRequest (graphql_list upstream_padded))
                                      (JStr (lit ''alice'')) (n - 1)))
           \<or> page_submissions (gql_page (graphqlRequest (graphql_list upstream_padded))
                                 (JStr (lit ''alice'')) (n - 1)) = []))"
proof -
  from graphql_history_pages [OF padded_fetch]
  have "\<exists>n. 1 \<le> n \<and> n \<le> 500
     \<and> [GraphQLCall (SubmissionList 0 20 (JStr (lit ''alice''))),
         GraphQLCall (SubmissionList 20 20 (JStr (lit ''alice'')))]
        = map (\<lambda>i. GraphQLCall (SubmissionList (i * 20) 20 (JStr (lit ''alice'')))) [0..<n]
     \<and> (n < 500 \<longrightarrow>
           \<not> truthy (page_hasNext (gql_page (graphqlRequest (graphql_list upstream_padded))
                                      (JStr (lit ''alice'')) (n - 1)))
           \<or> page_submissions (gql_page (graphqlRequest (graphql_list upstream_padded))
                                 (JStr (lit ''alice'')) (n - 1)) = [])"
    by (elim exE conjE) (rule exI, intro conjI, assumption+)
  with padded_fetch show ?thesis by (rule conjI)
qed


end
